(* ===== verification/Prelude.thy ===== *)
theory Prelude
  imports Complex_Main "HOL-Library.Word"
begin

text \<open>
  Shared vocabulary of the development: three-component vectors standing for the
  \<^verbatim>\<open>ublas::vector<double>(3)\<close> values of the generator (source positions, basis
  vectors, direction cosines), their arithmetic, and the little-endian byte encoding of
  unsigned integers used by the serializer. The collection \<open>vec_simps\<close> gathers the
  componentwise rules of the vector operations, so that the component theories evaluate
  a vector expression to its three coordinates with \<open>simp add: vec_simps\<close>.
\<close>

named_theorems vec_simps "componentwise rules of the three-vector operations"

section \<open>Three-component vectors\<close>

text \<open>
  A \<^verbatim>\<open>ublas::vector<double>\<close> of size 3; component \<open>comp0\<close> is index 0 of the
  source (\<^verbatim>\<open>v(0)\<close>), and so on. IEEE rounding of the doubles is not modelled:
  a double is a \<open>real\<close>.
\<close>

record vec3 =
  comp0 :: real
  comp1 :: real
  comp2 :: real

definition vec :: "real \<Rightarrow> real \<Rightarrow> real \<Rightarrow> vec3" where
  "vec a b c = \<lparr>comp0 = a, comp1 = b, comp2 = c\<rparr>"

definition vadd :: "vec3 \<Rightarrow> vec3 \<Rightarrow> vec3" where
  "vadd u v = vec (comp0 u + comp0 v) (comp1 u + comp1 v) (comp2 u + comp2 v)"

definition vsub :: "vec3 \<Rightarrow> vec3 \<Rightarrow> vec3" where
  "vsub u v = vec (comp0 u - comp0 v) (comp1 u - comp1 v) (comp2 u - comp2 v)"

text \<open>Scalar times vector (\<^verbatim>\<open>s*v\<close>) and vector divided by a scalar (\<^verbatim>\<open>v/s\<close>).\<close>

definition vsmult :: "real \<Rightarrow> vec3 \<Rightarrow> vec3" where
  "vsmult s v = vec (s * comp0 v) (s * comp1 v) (s * comp2 v)"

definition vdiv :: "vec3 \<Rightarrow> real \<Rightarrow> vec3" where
  "vdiv v s = vec (comp0 v / s) (comp1 v / s) (comp2 v / s)"

text \<open>\<^verbatim>\<open>ublas::inner_prod\<close> on two vectors of size 3.\<close>

definition inner_prod :: "vec3 \<Rightarrow> vec3 \<Rightarrow> real" where
  "inner_prod u v = comp0 u * comp0 v + comp1 u * comp1 v + comp2 u * comp2 v"

text \<open>The squared Euclidean norm, used to state that a direction is a unit vector.\<close>

definition norm2 :: "vec3 \<Rightarrow> real" where
  "norm2 v = inner_prod v v"

section \<open>Little-endian byte encoding\<close>

text \<open>
  The output file is written with \<^verbatim>\<open>ofstream::write\<close> of native integers; the model
  fixes a little-endian host. \<open>le_bytes n x\<close> is the \<open>n\<close> low bytes of \<open>x\<close>, least
  significant first; \<open>le_value\<close> reads such a byte run back.
\<close>

fun le_bytes :: "nat \<Rightarrow> nat \<Rightarrow> 8 word list" where
  "le_bytes 0 x = []"
| "le_bytes (Suc n) x = word_of_nat (x mod 256) # le_bytes n (x div 256)"

fun le_value :: "8 word list \<Rightarrow> nat" where
  "le_value [] = 0"
| "le_value (b # bs) = unat b + 256 * le_value bs"

section \<open>Loops that stop at the first error\<close>

text \<open>
  A C++ \<^verbatim>\<open>for\<close> loop whose body may abort (\<^verbatim>\<open>exit\<close>, a failed library check)
  runs its body over the index list, threading the state, and stops at the first error.
\<close>

fun fold_err :: "('a \<Rightarrow> 's \<Rightarrow> 'e + 's) \<Rightarrow> 'a list \<Rightarrow> 's \<Rightarrow> 'e + 's" where
  "fold_err f [] s = Inr s"
| "fold_err f (x # xs) s = (case f x s of Inl e \<Rightarrow> Inl e | Inr s' \<Rightarrow> fold_err f xs s')"

section \<open>Lemmas\<close>

lemma vec_components [simp]:
  "comp0 (vec a b c) = a" "comp1 (vec a b c) = b" "comp2 (vec a b c) = c"
  by (simp_all add: vec_def)

lemma vec_ops_components [vec_simps]:
  "comp0 (vadd u v) = comp0 u + comp0 v" "comp1 (vadd u v) = comp1 u + comp1 v"
  "comp2 (vadd u v) = comp2 u + comp2 v"
  "comp0 (vsub u v) = comp0 u - comp0 v" "comp1 (vsub u v) = comp1 u - comp1 v"
  "comp2 (vsub u v) = comp2 u - comp2 v"
  "comp0 (vsmult s v) = s * comp0 v" "comp1 (vsmult s v) = s * comp1 v"
  "comp2 (vsmult s v) = s * comp2 v"
  "comp0 (vdiv v s) = comp0 v / s" "comp1 (vdiv v s) = comp1 v / s"
  "comp2 (vdiv v s) = comp2 v / s"
  by (simp_all add: vadd_def vsub_def vsmult_def vdiv_def)

lemma vec3_eqI [intro]:
  "comp0 (u::vec3) = comp0 (v::vec3) \<Longrightarrow> comp1 u = comp1 v \<Longrightarrow> comp2 u = comp2 v \<Longrightarrow> u = v"
  by (cases u, cases v) simp

lemma vec_eq_iff [vec_simps]:
  "(u::vec3) = vec a b c \<longleftrightarrow> comp0 u = a \<and> comp1 u = b \<and> comp2 u = c"
  by (auto simp: vec_def)

lemma vec_eq_iff' [vec_simps]:
  "vec a b c = (u::vec3) \<longleftrightarrow> a = comp0 u \<and> b = comp1 u \<and> c = comp2 u"
  by (auto simp: vec_def)

lemma inner_prod_vec [simp]:
  "inner_prod (vec a b c) (vec d e f) = a * d + b * e + c * f"
  by (simp add: inner_prod_def)

lemma norm2_components [vec_simps]:
  "norm2 v = comp0 v * comp0 v + comp1 v * comp1 v + comp2 v * comp2 v"
  by (simp add: norm2_def inner_prod_def)

lemma sum_square_pos:
  "(d::real) \<noteq> 0 \<Longrightarrow> 0 < a * a + d * d"
proof -
  assume "d \<noteq> 0"
  then have "0 < d * d" by (metis not_real_square_gt_zero)
  then show ?thesis using sum_squares_ge_zero [of a 0] by linarith
qed

lemma length_le_bytes [simp]: "length (le_bytes n x) = n"
  by (induction n arbitrary: x) simp_all

lemma le_value_le_bytes: "le_value (le_bytes n x) = x mod 2 ^ (8 * n)"
proof (induction n arbitrary: x)
  case 0
  then show ?case by simp
next
  case (Suc n)
  have b: "unat (word_of_nat (x mod 256) :: 8 word) = x mod 256"
    by (simp add: unat_of_nat)
  have "x mod 256 + 256 * (x div 256 mod 2 ^ (8 * n)) = x mod (256 * 2 ^ (8 * n))"
    by (simp add: mod_mult2_eq)
  then show ?case
    using Suc.IH b by (simp add: power_add)
qed

lemma le_value_le_bytes_small [simp]:
  "x < 2 ^ (8 * n) \<Longrightarrow> le_value (le_bytes n x) = x"
  by (simp add: le_value_le_bytes)

lemma le_bytes_append_split [simp]:
  "take n (le_bytes n x @ ys) = le_bytes n x"
  "drop n (le_bytes n x @ ys) = ys"
  by simp_all

section \<open>Arithmetic helpers\<close>

lemma mod4_cases: "(i::nat) mod 4 = 0 \<or> i mod 4 = 1 \<or> i mod 4 = 2 \<or> i mod 4 = 3"
  by arith

lemma even_mod4: "even (i::nat) \<longleftrightarrow> i mod 4 = 0 \<or> i mod 4 = 2"
  by presburger

lemma sint_word_of_int_small:
  "0 \<le> x \<Longrightarrow> x < 2 ^ 31 \<Longrightarrow> sint (word_of_int x :: 32 word) = x"
  by (simp add: sint_sbintrunc' signed_take_bit_int_eq_self)

lemma mixed_radix_bound:
  "k < N \<Longrightarrow> j < C \<Longrightarrow> i < V \<Longrightarrow> k + N * j + N * C * i < N * C * (V::nat)"
proof -
  assume k: "k < N" and j: "j < C" and i: "i < V"
  have "k + N * j < N * C"
  proof -
    have "k + N * j < N + N * j" using k by simp
    also have "\<dots> = N * Suc j" by simp
    also have "\<dots> \<le> N * C" using j by (intro mult_le_mono2) simp
    finally show ?thesis .
  qed
  then have "k + N * j + N * C * i < N * C + N * C * i" by simp
  also have "\<dots> = N * C * Suc i" by simp
  also have "\<dots> \<le> N * C * V" using i by (intro mult_le_mono2) simp
  finally show ?thesis .
qed

lemma unat_scast_nonneg:
  "0 \<le> sint (q :: 32 word) \<Longrightarrow> unat (scast q :: 64 word) = nat (sint q)"
proof -
  have "sint (scast q :: 64 word) = sint q"
    by (rule sint_up_scast) (simp add: is_up)
  moreover have "sint q < 2 ^ 31"
    using sint_less [of q] by simp
  moreover assume "0 \<le> sint q"
  ultimately have "uint (scast q :: 64 word) = sint q"
    by (simp add: uint_sint take_bit_int_eq_self)
  then show ?thesis
    by (simp add: unat_eq_nat_uint)
qed

text \<open>
  Past \<open>2^31\<close> a C \<^verbatim>\<open>int\<close> wraps to the negative value \<open>x - 2^32\<close>, and its
  conversion to \<^verbatim>\<open>size_t\<close> sign-extends it to \<open>2^64 + x - 2^32\<close>.
\<close>

lemma mod_shift_down:
  fixes x m :: int
  assumes "m \<le> x" "x < 2 * m"
  shows "x mod m = x - m"
proof -
  have "x mod m = (x - m + m) mod m" by simp
  also have "\<dots> = (x - m) mod m" by (rule mod_add_self2)
  also have "\<dots> = x - m" using assms by (intro mod_pos_pos_trivial) simp_all
  finally show ?thesis .
qed

lemma sint_word_of_int_wrap:
  assumes "2 ^ 31 \<le> x" "x < 2 ^ 32"
  shows "sint (word_of_int x :: 32 word) = x - 2 ^ 32"
proof -
  have "(x + 2 ^ 31) mod 2 ^ 32 = x + 2 ^ 31 - 2 ^ 32"
    using assms by (intro mod_shift_down) simp_all
  moreover have "sint (word_of_int x :: 32 word) = (x + 2 ^ 31) mod 2 ^ 32 - 2 ^ 31"
    by (simp only: sint_sbintrunc' signed_take_bit_eq_take_bit_shift take_bit_eq_mod) simp
  ultimately show ?thesis by simp
qed

lemma unat_scast_neg:
  assumes "sint (q :: 32 word) < 0"
  shows "unat (scast q :: 64 word) = nat (2 ^ 64 + sint q)"
proof -
  have lo: "- (2 ^ 31) \<le> sint q" using sint_ge [of q] by simp
  have "sint q mod 2 ^ 64 = (sint q + 2 ^ 64) mod 2 ^ 64" by (simp only: mod_add_self2)
  also have "\<dots> = sint q + 2 ^ 64" using assms lo by (intro mod_pos_pos_trivial) simp_all
  finally have m: "sint q mod 2 ^ 64 = 2 ^ 64 + sint q" by (simp only: add.commute)
  have "unat (scast q :: 64 word) = nat (take_bit 64 (sint q))"
    by (simp only: scast_eq unat_eq_nat_uint uint_word_of_int_eq) simp
  then show ?thesis by (simp only: take_bit_eq_mod m)
qed

section \<open>Lists\<close>

lemma distinct_concat_keyed:
  assumes "\<And>i. i < n \<Longrightarrow> distinct (map fst (f i))"
    and "\<And>i p. i < n \<Longrightarrow> p \<in> set (f i) \<Longrightarrow> key (fst p) = i"
  shows "distinct (map fst (concat (map f [0..<n])))"
  using assms
proof (induction n)
  case 0
  then show ?case by simp
next
  case (Suc n)
  let ?xs = "map fst (concat (map f [0..<n]))" and ?ys = "map fst (f n)"
  have IH: "distinct ?xs"
    using Suc.prems by (intro Suc.IH) auto
  have lt: "key x < n" if "x \<in> set ?xs" for x
  proof -
    from that obtain i p where "i < n" "p \<in> set (f i)" "x = fst p" by auto
    with Suc.prems(2) [of i p] show ?thesis by simp
  qed
  have eq: "key x = n" if "x \<in> set ?ys" for x
    using that Suc.prems(2) [of n] by fastforce
  have "set ?xs \<inter> set ?ys = {}"
    using lt eq by fastforce
  moreover have "distinct ?ys" using Suc.prems(1) by simp
  ultimately have "distinct (?xs @ ?ys)" using IH by simp
  then show ?case by simp
qed

lemma unit_interval_mult:
  "0 \<le> (s::real) \<Longrightarrow> 0 \<le> a \<Longrightarrow> a \<le> 1 \<Longrightarrow> 0 \<le> g \<Longrightarrow> g \<le> 1 \<Longrightarrow> 0 \<le> s * a * g \<and> s * a * g \<le> s"
proof -
  assume s: "0 \<le> s" and a: "0 \<le> a" "a \<le> 1" and g: "0 \<le> g" "g \<le> 1"
  have "a * g \<le> 1" using a g by (simp add: mult_le_one)
  then have "s * (a * g) \<le> s * 1" using s by (intro mult_left_mono)
  then show ?thesis using s a g by (simp add: mult.assoc)
qed

section \<open>Error-propagating loops\<close>

text \<open>
  The loop rule for \<open>fold_err\<close> over an index range: an invariant indexed by the loop
  counter, kept by every iteration that does not fail, and every iteration succeeds.
\<close>

lemma fold_err_upt_inv:
  assumes step: "\<And>k s. m \<le> k \<Longrightarrow> k < n \<Longrightarrow> P k s \<Longrightarrow> \<exists>s'. f k s = Inr s' \<and> P (Suc k) s'"
    and start: "P m s" and le: "m \<le> n"
  shows "\<exists>s'. fold_err f [m..<n] s = Inr s' \<and> P n s'"
  using start le step
proof (induction "n - m" arbitrary: m s)
  case 0
  then show ?case by simp
next
  case (Suc d)
  then have mn: "m < n" by simp
  from Suc.prems(3) [of m s] mn Suc.prems(1) obtain s' where
    s': "f m s = Inr s'" "P (Suc m) s'" by auto
  have "\<exists>s''. fold_err f [Suc m..<n] s' = Inr s'' \<and> P n s''"
    using Suc.hyps(1) [of "Suc m" s'] Suc.hyps(2) s'(2) mn Suc.prems(3) by simp
  then show ?case
    using s'(1) mn by (simp add: upt_conv_Cons)
qed

text \<open>
  Sequencing and flattening of \<open>fold_err\<close>: a nested loop is the loop over the
  concatenated iterations, and a loop over a mapped list is the loop of the composed body.
\<close>

lemma fold_err_append:
  "fold_err f (xs @ ys) s = (case fold_err f xs s of Inl e \<Rightarrow> Inl e | Inr s' \<Rightarrow> fold_err f ys s')"
  by (induction xs arbitrary: s) (simp_all split: sum.split)

lemma fold_err_concat:
  "fold_err f (concat xss) = fold_err (fold_err f) xss"
  by (induction xss) (simp_all add: fun_eq_iff fold_err_append split: sum.split)

lemma fold_err_map:
  "fold_err f (map g xs) = fold_err (\<lambda>x. f (g x)) xs"
  by (induction xs) (simp_all add: fun_eq_iff split: sum.split)

lemma upt_numerals:
  "[0..<1] = [0::nat]" "[0..<2] = [0::nat, 1]" "[0..<4] = [0::nat, 1, 2, 3]"
  by (simp_all add: upt_rec)

lemma replicate_four: "replicate 4 x = [x, x, x, x]"
  by (simp add: numeral_eq_Suc)

lemma sorted_wrt_less_snoc:
  "sorted_wrt (<) xs \<Longrightarrow> sorted_wrt (<) (xs @ [a]) \<longleftrightarrow> xs = [] \<or> last xs < (a::'a::linorder)"
proof (induction xs rule: rev_induct)
  case Nil
  then show ?case by simp
next
  case (snoc x xs)
  then have "\<forall>y\<in>set xs. y < x" by (simp add: sorted_wrt_append)
  then show ?case
    using snoc.prems by (auto simp: sorted_wrt_append)
qed

lemma sorted_less_length_bound:
  assumes "sorted_wrt (<) xs" "\<forall>x\<in>set xs. x < (n::nat)"
  shows "length xs \<le> n"
proof -
  have "distinct xs" using assms(1) by (simp add: strict_sorted_iff)
  then have "length xs = card (set xs)" by (simp add: distinct_card)
  also have "card (set xs) \<le> card {..<n}" using assms(2) by (intro card_mono) auto
  finally show ?thesis by simp
qed

end
