(* ===== verification/Geometry.thy ===== *)
theory Geometry
  imports Prelude
begin

text \<open>
  GeometryFrame, FocalSpotOffsetGenerator and RayBuilder of
  \<^verbatim>\<open>src/src/generate_system_matrix_ffs.cpp\<close>: the configuration fields the generator
  reads, the flying-focal-spot deflections \<open>ffs_dr\<close>/\<open>ffs_da\<close> (lines 32--33),
  \<open>generate_ffs_offset\<close> (lines 217--279), the per-view frame and deflected source
  (lines 63--89), the per-ray direction cosine (lines 91--111) and the ray index \<open>q\<close>
  (line 113) as the 32-bit \<^verbatim>\<open>int\<close> the code computes.
\<close>

section \<open>Configuration\<close>

text \<open>
  The fields of \<^verbatim>\<open>struct recon_params\<close> that the generator reads. The struct is declared
  in \<^verbatim>\<open>recon_structs.h\<close>, which is not part of the sources; counts are \<open>nat\<close> (the
  configuration never holds negative counts), flags are the C \<^verbatim>\<open>int\<close>s tested for
  non-zero, lengths and angles are doubles (\<open>real\<close>).
\<close>

record recon_params =
  source_detector_distance :: real
  focal_spot_radius :: real
  CollSlicewidth :: real
  anode_angle :: real
  fan_angle_increment :: real
  num_voxels_x :: nat
  num_voxels_y :: nat
  Readings :: nat
  n_channels :: nat
  Nrows_projection :: nat
  num_views_for_system_matrix :: nat
  tube_angle_increment :: real
  table_direction :: real
  tube_z_increment :: real
  Zffs :: int
  Phiffs :: int
  center_channel_non_ffs :: real
  transaxial_detector_spacing :: real
  center_row :: real
  axial_detector_spacing :: real
  center_voxel_x :: real
  center_voxel_y :: real
  center_voxel_z :: real
  voxel_size_x :: real
  voxel_size_y :: real
  voxel_size_z :: real

section \<open>Flying focal spot offsets\<close>

text \<open>The macro \<^verbatim>\<open>PI\<close> of the source is a decimal literal, not \<open>pi\<close>.\<close>

definition PI_c :: real where
  "PI_c = 3.14159265359"

definition ffs_dr :: "recon_params \<Rightarrow> real" where
  "ffs_dr rp = source_detector_distance rp * CollSlicewidth rp /
     (4 * (source_detector_distance rp - focal_spot_radius rp) * tan (anode_angle rp * PI_c / 180))"

definition ffs_da :: "recon_params \<Rightarrow> real" where
  "ffs_da rp = source_detector_distance rp * focal_spot_radius rp * sin (fan_angle_increment rp) /
     (4 * (source_detector_distance rp - focal_spot_radius rp))"

text \<open>
  \<open>generate_ffs_offset\<close>: the offset in the source's \<open>(radial, tangential, axial)\<close>
  frame. The final \<^verbatim>\<open>else\<close> prints and calls \<^verbatim>\<open>exit(1)\<close>: here the error
  \<open>ConfigurationError\<close>. The projection index is the loop counter of the view loop,
  never negative. The empty \<^verbatim>\<open>else {}\<close> of the four-way cycle is unreachable
  (\<open>proj_idx mod 4 < 4\<close>); it returns the vector unwritten, here zero. The parameter
  \<^verbatim>\<open>anode_angle\<close> is called \<open>anode\<close> (the name is the configuration field).
\<close>

datatype gen_error =
    ConfigurationError
  | ColumnOutOfRange int
  | IndexNotIncreasing nat nat

definition generate_ffs_offset ::
  "nat \<Rightarrow> real \<Rightarrow> real \<Rightarrow> real \<Rightarrow> int \<Rightarrow> int \<Rightarrow> gen_error + vec3" where
  "generate_ffs_offset proj_idx da dr anode ZFFS PHIFFS =
     (if PHIFFS \<noteq> 0 \<and> ZFFS = 0 then
        (let rho = proj_idx mod 2 in
         if rho = 0 then Inr (vec 0 da 0) else Inr (vec 0 (- da) 0))
      else if PHIFFS = 0 \<and> ZFFS \<noteq> 0 then
        (let rho = proj_idx mod 2 in
         if rho = 0 then Inr (vec (- dr) 0 (- dr * tan anode))
         else Inr (vec dr 0 (dr * tan anode)))
      else if PHIFFS \<noteq> 0 \<and> ZFFS \<noteq> 0 then
        (let rho = proj_idx mod 4 in
         if rho = 0 then Inr (vec (- dr) da (- dr * tan anode))
         else if rho = 1 then Inr (vec (- dr) (- da) (- dr * tan anode))
         else if rho = 2 then Inr (vec dr da (dr * tan anode))
         else if rho = 3 then Inr (vec dr (- da) (dr * tan anode))
         else Inr (vec 0 0 0))
      else Inl ConfigurationError)"

section \<open>The frame of a view\<close>

definition tube_angle :: "recon_params \<Rightarrow> nat \<Rightarrow> real" where
  "tube_angle rp i = (real i - 0.5 * real (num_views_for_system_matrix rp)) * tube_angle_increment rp"

definition e_w :: "real \<Rightarrow> vec3" where
  "e_w th = vec (cos th) (sin th) 0"

definition e_u :: "real \<Rightarrow> vec3" where
  "e_u th = vec (- sin th) (cos th) 0"

definition e_z :: vec3 where
  "e_z = vec 0 0 1"

definition source_position :: "recon_params \<Rightarrow> nat \<Rightarrow> vec3" where
  "source_position rp i =
     vadd (vsmult (focal_spot_radius rp) (e_w (tube_angle rp i)))
          (vsmult (table_direction rp * (real i - 0.5 * real (num_views_for_system_matrix rp))
                   * tube_z_increment rp) e_z)"

text \<open>
  Lines 83--86: the offset is combined with the frame by inner products. The intended
  change of frame, \<open>local_to_world\<close> below, is the linear combination of the frame
  vectors with the offset's components; the inner products compute its inverse.
\<close>

definition ffs_rotate :: "vec3 \<Rightarrow> vec3 \<Rightarrow> vec3 \<Rightarrow> vec3" where
  "ffs_rotate ffs_offset ew eu =
     vec (inner_prod ffs_offset ew) (inner_prod ffs_offset eu) (comp2 ffs_offset)"

text \<open>What lines 63--89 compute for view \<open>i\<close>, kept for the rows and channels of the view.\<close>

record view =
  view_angle :: real
  view_e_w :: vec3
  view_e_u :: vec3
  view_e_z :: vec3
  ffs_source_position :: vec3

definition view_setup :: "recon_params \<Rightarrow> nat \<Rightarrow> gen_error + view" where
  "view_setup rp i =
     (let th = tube_angle rp i in
      case generate_ffs_offset i (ffs_da rp) (ffs_dr rp) (anode_angle rp) (Zffs rp) (Phiffs rp) of
        Inl err \<Rightarrow> Inl err
      | Inr off \<Rightarrow>
          Inr \<lparr>view_angle = th, view_e_w = e_w th, view_e_u = e_u th, view_e_z = e_z,
               ffs_source_position = vadd (source_position rp i) (ffs_rotate off (e_w th) (e_u th))\<rparr>)"

section \<open>Rays\<close>

definition transaxial_angle :: "recon_params \<Rightarrow> nat \<Rightarrow> real" where
  "transaxial_angle rp j =
     (real j - center_channel_non_ffs rp) * transaxial_detector_spacing rp / source_detector_distance rp"

definition axial_position :: "recon_params \<Rightarrow> nat \<Rightarrow> real" where
  "axial_position rp k = (real k - center_row rp) * axial_detector_spacing rp"

definition direction_cosine :: "recon_params \<Rightarrow> view \<Rightarrow> nat \<Rightarrow> nat \<Rightarrow> vec3" where
  "direction_cosine rp v j k =
     (let g = transaxial_angle rp j; ap = axial_position rp k; D = source_detector_distance rp in
      vdiv (vsub (vsub (vsmult (- D * cos g) (view_e_w v)) (vsmult (D * sin g) (view_e_u v)))
                 (vsmult ap (view_e_z v)))
           (sqrt (ap * ap + D * D)))"

text \<open>
  Line 113: \<^verbatim>\<open>int q = k + Nrows*j + Nrows*n_channels*i\<close>, a 32-bit \<^verbatim>\<open>int\<close>;
  its arithmetic wraps modulo \<open>2^32\<close>, which \<open>word_of_int\<close> of the exact value is.
\<close>

definition ray_index :: "recon_params \<Rightarrow> nat \<Rightarrow> nat \<Rightarrow> nat \<Rightarrow> 32 word" where
  "ray_index rp i j k =
     word_of_int (int k + int (Nrows_projection rp) * int j
                  + int (Nrows_projection rp) * int (n_channels rp) * int i)"

record ray =
  ray_src :: vec3
  ray_dir :: vec3

definition build_ray :: "recon_params \<Rightarrow> view \<Rightarrow> nat \<Rightarrow> nat \<Rightarrow> ray" where
  "build_ray rp v j k = \<lparr>ray_src = ffs_source_position v, ray_dir = direction_cosine rp v j k\<rparr>"

definition local_to_world :: "vec3 \<Rightarrow> vec3 \<Rightarrow> vec3 \<Rightarrow> vec3 \<Rightarrow> vec3" where
  "local_to_world off ew eu ez =
     vadd (vsmult (comp0 off) ew) (vadd (vsmult (comp1 off) eu) (vsmult (comp2 off) ez))"

section \<open>The end-to-end scenario of the spec\<close>

text \<open>
  The configuration of the spec's end-to-end scenario (section 8): a \<open>2 \<times> 2\<close> voxel
  grid, one channel, one row, four views a quarter turn apart, Phi-only flying focal
  spot. It is the concrete input of the witnesses.
\<close>

definition scenario_params :: recon_params where
  "scenario_params =
     \<lparr>source_detector_distance = 2, focal_spot_radius = 1, CollSlicewidth = 1, anode_angle = 0,
      fan_angle_increment = pi / 6, num_voxels_x = 2, num_voxels_y = 2, Readings = 4,
      n_channels = 1, Nrows_projection = 1, num_views_for_system_matrix = 4,
      tube_angle_increment = pi / 2, table_direction = 1, tube_z_increment = 0, Zffs = 0,
      Phiffs = 1, center_channel_non_ffs = 0, transaxial_detector_spacing = 1, center_row = 0,
      axial_detector_spacing = 1, center_voxel_x = 1 / 2, center_voxel_y = 1 / 2,
      center_voxel_z = 0, voxel_size_x = 1, voxel_size_y = 1, voxel_size_z = 1\<rparr>"

section \<open>Properties\<close>

subsection \<open>Flying focal spot offsets\<close>

lemma generate_ffs_offset_phi:
  "P \<noteq> 0 \<Longrightarrow> Z = 0 \<Longrightarrow>
   generate_ffs_offset i da dr a Z P = Inr (vec 0 (if even i then da else - da) 0)"
  by (simp add: generate_ffs_offset_def Let_def even_iff_mod_2_eq_zero)

lemma generate_ffs_offset_z:
  "P = 0 \<Longrightarrow> Z \<noteq> 0 \<Longrightarrow>
   generate_ffs_offset i da dr a Z P =
     Inr (vec (if even i then - dr else dr) 0 ((if even i then - dr else dr) * tan a))"
  by (simp add: generate_ffs_offset_def Let_def even_iff_mod_2_eq_zero)

text \<open>
  C12: \<open>generate_ffs_offset\<close> fails exactly when neither flying focal spot mode is
  selected, and then with \<open>ConfigurationError\<close> (the \<^verbatim>\<open>exit(1)\<close> branch).
\<close>

lemma generate_ffs_offset_error:
  "generate_ffs_offset i da dr a Z P = Inl e \<longleftrightarrow> Z = 0 \<and> P = 0 \<and> e = ConfigurationError"
  by (auto simp: generate_ffs_offset_def Let_def)

lemma generate_ffs_offset_error_witness:
  "generate_ffs_offset 5 1 2 0 0 0 = Inl ConfigurationError"
  by (simp add: generate_ffs_offset_error)

text \<open>
  C10: with both modes selected the offset follows the four-way cycle of the view index
  modulo 4: radial sign \<open>-, -, +, +\<close>, tangential sign \<open>+, -, +, -\<close>, the axial
  component the radial one times \<open>tan anode\<close>.
\<close>

lemma generate_ffs_offset_both:
  "P \<noteq> 0 \<Longrightarrow> Z \<noteq> 0 \<Longrightarrow>
   generate_ffs_offset i da dr a Z P =
     Inr (vec (if i mod 4 < 2 then - dr else dr) (if even i then da else - da)
              ((if i mod 4 < 2 then - dr else dr) * tan a))"
  using mod4_cases [of i] by (auto simp: generate_ffs_offset_def Let_def even_mod4)

lemma generate_ffs_offset_both_witness:
  "(1::int) \<noteq> 0 \<and> generate_ffs_offset 6 2 3 0 1 1 = Inr (vec 3 2 0)"
  using generate_ffs_offset_both [of 1 1 6 2 3 0] by simp

text \<open>
  C11: with exactly one mode selected the offset alternates with the parity of the view
  index: Phi-only deflects tangentially by \<open>+da\<close> on even and \<open>-da\<close> on odd views;
  Z-only deflects radially by \<open>-dr\<close> on even and \<open>+dr\<close> on odd views, with the axial
  component the radial one times \<open>tan anode\<close>.
\<close>

lemma generate_ffs_offset_single:
  assumes "(Z = 0) \<noteq> (P = 0)"
  shows "generate_ffs_offset i da dr a Z P =
           (if Z = 0 then Inr (vec 0 (if even i then da else - da) 0)
            else Inr (vec (if even i then - dr else dr) 0 ((if even i then - dr else dr) * tan a)))"
proof (cases "Z = 0")
  case True
  then show ?thesis using assms generate_ffs_offset_phi [of P Z i da dr a] by simp
next
  case False
  then show ?thesis using assms generate_ffs_offset_z [of P Z i da dr a] by simp
qed

lemma generate_ffs_offset_single_witness:
  "((0::int) = 0) \<noteq> ((1::int) = 0) \<and> generate_ffs_offset 3 2 5 0 0 1 = Inr (vec 0 (- 2) 0)
   \<and> ((1::int) = 0) \<noteq> ((0::int) = 0) \<and> generate_ffs_offset 4 2 5 0 1 0 = Inr (vec (- 5) 0 0)"
  using generate_ffs_offset_single [of 0 1 3 2 5 0] generate_ffs_offset_single [of 1 0 4 2 5 0] by simp

lemma view_setup_ok:
  "Zffs rp \<noteq> 0 \<or> Phiffs rp \<noteq> 0 \<Longrightarrow> \<exists>v. view_setup rp i = Inr v"
  by (auto simp: view_setup_def generate_ffs_offset_def Let_def)

subsection \<open>The change of frame of the deflection\<close>

text \<open>
  C16: lines 83--86 turn the offset into world coordinates with the frame of the angle
  \<open>-th\<close>, not \<open>th\<close>: inner products with \<open>e_w\<close> and \<open>e_u\<close> are the transpose of
  the rotation.
\<close>

lemma ffs_rotate_is_rotation_by_minus:
  "ffs_rotate off (e_w th) (e_u th) = local_to_world off (e_w (- th)) (e_u (- th)) e_z"
  by (rule vec3_eqI) (simp_all add: ffs_rotate_def local_to_world_def e_w_def e_u_def e_z_def
      vec_simps inner_prod_def)

text \<open>
  C17: the code's deflection agrees with the intended one, the offset's components along
  the view's own frame, only where \<open>sin th\<close> annihilates the in-plane offset: at the
  views with \<open>sin th \<noteq> 0\<close> the deflected source is misplaced.
\<close>

lemma ffs_rotate_correct_iff:
  "ffs_rotate off (e_w th) (e_u th) = local_to_world off (e_w th) (e_u th) e_z
     \<longleftrightarrow> sin th * comp0 off = 0 \<and> sin th * comp1 off = 0"
proof -
  let ?a = "comp0 off" and ?b = "comp1 off" and ?c = "cos th" and ?s = "sin th"
  have "ffs_rotate off (e_w th) (e_u th) = local_to_world off (e_w th) (e_u th) e_z
     \<longleftrightarrow> ?a * ?c + ?b * ?s = ?a * ?c - ?b * ?s \<and> ?b * ?c - ?a * ?s = ?a * ?s + ?b * ?c"
    by (simp add: ffs_rotate_def local_to_world_def e_w_def e_u_def e_z_def vec_simps inner_prod_def
        algebra_simps)
  also have "\<dots> \<longleftrightarrow> ?s * ?a = 0 \<and> ?s * ?b = 0"
    by (auto simp: algebra_simps)
  finally show ?thesis .
qed

lemma ffs_rotate_correct_iff_witness:
  "ffs_rotate (vec 0 1 0) (e_w (pi / 2)) (e_u (pi / 2))
     \<noteq> local_to_world (vec 0 1 0) (e_w (pi / 2)) (e_u (pi / 2)) e_z"
  by (simp add: ffs_rotate_correct_iff)

lemma ffs_rotate_radial:
  "inner_prod (ffs_rotate off (e_w th) (e_u th)) (e_w th) =
     comp0 off * cos (2 * th) + comp1 off * sin (2 * th)"
proof -
  have c: "cos (2 * th) = cos th * cos th - sin th * sin th"
    by (simp add: cos_double power2_eq_square)
  have s: "sin (2 * th) = 2 * sin th * cos th"
    by (rule sin_double)
  show ?thesis
    unfolding c s by (simp add: ffs_rotate_def e_w_def e_u_def inner_prod_def algebra_simps)
qed

subsection \<open>Rays\<close>

lemma direction_cosine_frame:
  assumes "view_e_w v = e_w th" "view_e_u v = e_u th" "view_e_z v = e_z"
  shows "direction_cosine rp v j k =
    vec (- source_detector_distance rp * cos (th + transaxial_angle rp j) / sqrt (axial_position rp k * axial_position rp k + source_detector_distance rp * source_detector_distance rp))
        (- source_detector_distance rp * sin (th + transaxial_angle rp j) / sqrt (axial_position rp k * axial_position rp k + source_detector_distance rp * source_detector_distance rp))
        (- axial_position rp k / sqrt (axial_position rp k * axial_position rp k + source_detector_distance rp * source_detector_distance rp))"
  using assms by (simp add: direction_cosine_def Let_def e_w_def e_u_def e_z_def vec_simps cos_add sin_add diff_divide_distrib add_divide_distrib algebra_simps)

lemma view_setup_Inr:
  "view_setup rp i = Inr v \<Longrightarrow>
   view_e_w v = e_w (tube_angle rp i) \<and> view_e_u v = e_u (tube_angle rp i) \<and> view_e_z v = e_z"
  by (auto simp: view_setup_def Let_def split: sum.splits)

text \<open>
  C13: the direction cosine of every ray is a unit vector. The normalisation by
  \<open>sqrt(axial_position\<^sup>2 + D\<^sup>2)\<close> is exact, not an approximation: the transaxial part
  has length \<open>D\<close> because \<open>e_w\<close> and \<open>e_u\<close> are orthonormal.
\<close>

lemma direction_cosine_unit:
  assumes "view_setup rp i = Inr v" "source_detector_distance rp \<noteq> 0"
  shows "norm2 (direction_cosine rp v j k) = 1"
proof -
  let ?D = "source_detector_distance rp" and ?a = "axial_position rp k"
    and ?g = "tube_angle rp i + transaxial_angle rp j"
  let ?S = "sqrt (?a * ?a + ?D * ?D)"
  have pos: "0 < ?a * ?a + ?D * ?D"
    using assms(2) by (rule sum_square_pos)
  then have S2: "?S * ?S = ?a * ?a + ?D * ?D"
    by simp
  have S0: "?S \<noteq> 0" using real_sqrt_gt_zero [OF pos] by linarith
  have comps: "direction_cosine rp v j k = vec (- ?D * cos ?g / ?S) (- ?D * sin ?g / ?S) (- ?a / ?S)"
    using view_setup_Inr [OF assms(1)] by (simp add: direction_cosine_frame)
  have "norm2 (direction_cosine rp v j k) = (?D * cos ?g / ?S)\<^sup>2 + (?D * sin ?g / ?S)\<^sup>2 + (?a / ?S)\<^sup>2"
    by (simp add: comps vec_simps power2_eq_square)
  also have "\<dots> = (?D\<^sup>2 * (cos ?g)\<^sup>2 + ?D\<^sup>2 * (sin ?g)\<^sup>2 + ?a\<^sup>2) / ?S\<^sup>2"
    by (simp add: power_divide add_divide_distrib power_mult_distrib)
  also have "?D\<^sup>2 * (cos ?g)\<^sup>2 + ?D\<^sup>2 * (sin ?g)\<^sup>2 = ?D\<^sup>2"
    using sin_cos_squared_add [of ?g] by (metis distrib_left mult.right_neutral add.commute)
  also have "(?D\<^sup>2 + ?a\<^sup>2) / ?S\<^sup>2 = (?a * ?a + ?D * ?D) / (?a * ?a + ?D * ?D)"
    using S2 by (simp add: power2_eq_square algebra_simps)
  also have "\<dots> = 1"
    using pos by (intro divide_self) linarith
  finally show ?thesis .
qed

text \<open>
  C14: the in-plane components of a direction are never both zero, so the division by
  \<open>direction_cosine(1)\<close> in the y-dominant sweep never divides by zero.
\<close>

lemma direction_cosine_in_plane:
  assumes "view_setup rp i = Inr v" "source_detector_distance rp \<noteq> 0"
  shows "\<not> (comp0 (direction_cosine rp v j k) = 0 \<and> comp1 (direction_cosine rp v j k) = 0)"
proof -
  let ?g = "tube_angle rp i + transaxial_angle rp j"
  have "cos ?g \<noteq> 0 \<or> sin ?g \<noteq> 0"
  proof (rule ccontr)
    assume "\<not> (cos ?g \<noteq> 0 \<or> sin ?g \<noteq> 0)"
    then have "cos ?g = 0" "sin ?g = 0" by simp_all
    with sin_cos_squared_add [of ?g] show False by simp
  qed
  moreover have "0 < sqrt (axial_position rp k * axial_position rp k
                          + source_detector_distance rp * source_detector_distance rp)"
    using sum_square_pos [OF assms(2)] by simp
  ultimately show ?thesis
    using view_setup_Inr [OF assms(1)] assms(2) by (auto simp: direction_cosine_frame)
qed

lemma ray_index_no_overflow:
  assumes "k < Nrows_projection rp" "j < n_channels rp" "i < num_views_for_system_matrix rp"
    and "Nrows_projection rp * n_channels rp * num_views_for_system_matrix rp \<le> 2 ^ 31"
  shows "sint (ray_index rp i j k) =
           int (k + Nrows_projection rp * j + Nrows_projection rp * n_channels rp * i)"
proof -
  let ?n = "k + Nrows_projection rp * j + Nrows_projection rp * n_channels rp * i"
  have "?n < 2 ^ 31"
    using mixed_radix_bound [OF assms(1-3)] assms(4) by linarith
  then have "int ?n < int (2 ^ 31)" by (simp only: of_nat_less_iff)
  moreover have eq: "int k + int (Nrows_projection rp) * int j
      + int (Nrows_projection rp) * int (n_channels rp) * int i = int ?n"
    by simp
  ultimately show ?thesis
    unfolding ray_index_def eq by (intro sint_word_of_int_small) simp_all
qed

text \<open>
  C15: while \<open>Nrows \<times> channels \<times> views \<le> 2^31\<close>, the 32-bit ray index does not
  overflow: it is the mixed-radix number of \<open>(view, channel, row)\<close>, non-negative and
  below the number of rays.
\<close>

lemma ray_index_in_range:
  assumes "k < Nrows_projection rp" "j < n_channels rp" "i < num_views_for_system_matrix rp"
    and "Nrows_projection rp * n_channels rp * num_views_for_system_matrix rp \<le> 2 ^ 31"
  shows "sint (ray_index rp i j k) = int (k + Nrows_projection rp * j + Nrows_projection rp * n_channels rp * i)
         \<and> 0 \<le> sint (ray_index rp i j k)
         \<and> sint (ray_index rp i j k) < int (Nrows_projection rp * n_channels rp * num_views_for_system_matrix rp)"
proof -
  let ?n = "k + Nrows_projection rp * j + Nrows_projection rp * n_channels rp * i"
  have s: "sint (ray_index rp i j k) = int ?n"
    by (rule ray_index_no_overflow [OF assms])
  have "int ?n < int (Nrows_projection rp * n_channels rp * num_views_for_system_matrix rp)"
    using mixed_radix_bound [OF assms(1-3)] by (simp only: of_nat_less_iff)
  then show ?thesis
    unfolding s by simp
qed

lemma ray_index_in_range_witness:
  "0 < Nrows_projection scenario_params \<and> 0 < n_channels scenario_params
   \<and> 3 < num_views_for_system_matrix scenario_params
   \<and> Nrows_projection scenario_params * n_channels scenario_params
       * num_views_for_system_matrix scenario_params \<le> 2 ^ 31
   \<and> sint (ray_index scenario_params 3 0 0) = 3"
proof -
  have h: "0 < Nrows_projection scenario_params" "0 < n_channels scenario_params"
    "3 < num_views_for_system_matrix scenario_params"
    "Nrows_projection scenario_params * n_channels scenario_params
       * num_views_for_system_matrix scenario_params \<le> 2 ^ 31"
    by (simp_all add: scenario_params_def)
  show ?thesis
    using h ray_index_in_range [OF h] by (simp add: scenario_params_def)
qed

subsection \<open>The views of the scenario\<close>

text \<open>
  The four views of \<open>scenario_params\<close>, evaluated: tube angles \<open>-pi, -pi/2, 0, pi/2\<close>,
  the Phi deflection \<open>da = 1/4\<close> alternating in sign and, by the frame inversion of C16,
  mirrored at the two views with \<open>sin th \<noteq> 0\<close>.
\<close>

lemma sin_pi_sixth: "sin (pi / 6) = 1 / 2"
  by (simp add: sin_30)

lemma scenario_fields:
  "num_voxels_x scenario_params = 2" "num_voxels_y scenario_params = 2"
  "n_channels scenario_params = 1" "Nrows_projection scenario_params = 1"
  "num_views_for_system_matrix scenario_params = 4" "Readings scenario_params = 4"
  "source_detector_distance scenario_params = 2" "center_channel_non_ffs scenario_params = 0"
  "transaxial_detector_spacing scenario_params = 1" "center_row scenario_params = 0"
  "axial_detector_spacing scenario_params = 1" "center_voxel_x scenario_params = 1/2"
  "center_voxel_y scenario_params = 1/2" "center_voxel_z scenario_params = 0"
  "voxel_size_x scenario_params = 1" "voxel_size_y scenario_params = 1" "voxel_size_z scenario_params = 1"
  by (simp_all add: scenario_params_def)

lemmas scenario_view_defs = view_setup_def scenario_params_def tube_angle_def generate_ffs_offset_def
  ffs_da_def ffs_dr_def Let_def source_position_def ffs_rotate_def e_w_def e_u_def e_z_def vec_simps

lemma scenario_view0: "view_setup scenario_params 0 = Inr \<lparr>view_angle = - pi, view_e_w = vec (-1) 0 0, view_e_u = vec 0 (-1) 0,
    view_e_z = vec 0 0 1, ffs_source_position = vec (-1) (-1/4) 0\<rparr>"
  by (simp add: scenario_view_defs sin_pi_sixth field_simps)

lemma scenario_view1: "view_setup scenario_params (Suc 0) = Inr \<lparr>view_angle = - (pi/2), view_e_w = vec 0 (-1) 0, view_e_u = vec 1 0 0,
    view_e_z = vec 0 0 1, ffs_source_position = vec (1/4) (-1) 0\<rparr>"
  by (simp add: scenario_view_defs sin_pi_sixth field_simps)

lemma scenario_view2: "view_setup scenario_params 2 = Inr \<lparr>view_angle = 0, view_e_w = vec 1 0 0, view_e_u = vec 0 1 0,
    view_e_z = vec 0 0 1, ffs_source_position = vec 1 (1/4) 0\<rparr>"
  by (simp add: scenario_view_defs sin_pi_sixth field_simps)

lemma scenario_view3: "view_setup scenario_params 3 = Inr \<lparr>view_angle = pi / 2, view_e_w = vec 0 1 0, view_e_u = vec (-1) 0 0,
    view_e_z = vec 0 0 1, ffs_source_position = vec (-1/4) 1 0\<rparr>"
  by (simp add: scenario_view_defs sin_pi_sixth field_simps)

lemma direction_cosine_unit_witness:
  "view_setup scenario_params 0 = Inr \<lparr>view_angle = - pi, view_e_w = vec (-1) 0 0, view_e_u = vec 0 (-1) 0,
      view_e_z = vec 0 0 1, ffs_source_position = vec (-1) (-1/4) 0\<rparr>
   \<and> source_detector_distance scenario_params \<noteq> 0
   \<and> norm2 (direction_cosine scenario_params \<lparr>view_angle = - pi, view_e_w = vec (-1) 0 0,
      view_e_u = vec 0 (-1) 0, view_e_z = vec 0 0 1, ffs_source_position = vec (-1) (-1/4) 0\<rparr> 0 0) = 1"
proof -
  have d: "source_detector_distance scenario_params \<noteq> 0" by (simp add: scenario_fields)
  show ?thesis
    using scenario_view0 d direction_cosine_unit [OF scenario_view0 d] by simp
qed

lemma direction_cosine_in_plane_witness:
  "view_setup scenario_params 1 = Inr \<lparr>view_angle = - (pi / 2), view_e_w = vec 0 (-1) 0, view_e_u = vec 1 0 0,
      view_e_z = vec 0 0 1, ffs_source_position = vec (1/4) (-1) 0\<rparr>
   \<and> source_detector_distance scenario_params \<noteq> 0
   \<and> \<not> (comp0 (direction_cosine scenario_params \<lparr>view_angle = - (pi / 2), view_e_w = vec 0 (-1) 0,
          view_e_u = vec 1 0 0, view_e_z = vec 0 0 1, ffs_source_position = vec (1/4) (-1) 0\<rparr> 0 0) = 0
      \<and> comp1 (direction_cosine scenario_params \<lparr>view_angle = - (pi / 2), view_e_w = vec 0 (-1) 0,
          view_e_u = vec 1 0 0, view_e_z = vec 0 0 1, ffs_source_position = vec (1/4) (-1) 0\<rparr> 0 0) = 0)"
proof -
  have v: "view_setup scenario_params 1 = Inr \<lparr>view_angle = - (pi / 2), view_e_w = vec 0 (-1) 0,
      view_e_u = vec 1 0 0, view_e_z = vec 0 0 1, ffs_source_position = vec (1/4) (-1) 0\<rparr>"
    using scenario_view1 by simp
  have d: "source_detector_distance scenario_params \<noteq> 0" by (simp add: scenario_fields)
  show ?thesis
    using v d direction_cosine_in_plane [OF v d] by blast
qed

end
