(* ===== verification/Projector.thy ===== *)
theory Projector
  imports Geometry
begin

text \<open>
  VoxelProjector: the body of the row loop of \<^verbatim>\<open>generate_system_matrix_ffs\<close>
  (\<^verbatim>\<open>src/src/generate_system_matrix_ffs.cpp\<close>, lines 115--180). For one ray it
  chooses the sweep axis by comparing \<open>|alpha_x|\<close> with \<open>|alpha_y|\<close>, walks the
  voxel columns (or rows) of the grid, extrapolates the ray to the transaxial and axial
  fractional indices \<open>j_hat\<close>/\<open>k_hat\<close> (or \<open>i_hat\<close>/\<open>k_hat\<close>) and emits the
  bilinear weights. The model returns the \<^verbatim>\<open>push_back\<close> calls of the ray in the
  order the code makes them, as pairs (column of \<^verbatim>\<open>system_matrix\<close>, weight); the
  accumulator theory applies them with the ray's index \<open>q\<close>. The \<^verbatim>\<open>(float)\<close>
  cast of each weight happens there.
\<close>

section \<open>The x-dominant sweep\<close>

text \<open>Lines 127--136, for voxel column \<open>i\<close>.\<close>

definition x_sweep_j_hat :: "recon_params \<Rightarrow> ray \<Rightarrow> nat \<Rightarrow> real" where
  "x_sweep_j_hat rp r i =
     (let x = (real i - center_voxel_x rp) * voxel_size_x rp;
          y_hat = comp1 (ray_src r) + comp1 (ray_dir r) / comp0 (ray_dir r) * (x - comp0 (ray_src r))
      in y_hat / voxel_size_y rp + center_voxel_y rp)"

definition x_sweep_k_hat :: "recon_params \<Rightarrow> ray \<Rightarrow> nat \<Rightarrow> real" where
  "x_sweep_k_hat rp r i =
     (let x = (real i - center_voxel_x rp) * voxel_size_x rp;
          z_hat = comp2 (ray_src r) + comp2 (ray_dir r) / comp0 (ray_dir r) * (x - comp0 (ray_src r))
      in z_hat / voxel_size_z rp + center_voxel_z rp)"

text \<open>Lines 138--149: the guard on \<open>j\<close> and the two axial cases \<open>k = -1\<close>, \<open>k = 0\<close>.\<close>

definition x_sweep_step :: "recon_params \<Rightarrow> ray \<Rightarrow> nat \<Rightarrow> (int \<times> real) list" where
  "x_sweep_step rp r i =
     (let j_hat = x_sweep_j_hat rp r i; j = \<lfloor>j_hat\<rfloor>;
          k_hat = x_sweep_k_hat rp r i; k = \<lfloor>k_hat\<rfloor>;
          nx = int (num_voxels_x rp)
      in if 0 \<le> j \<and> j \<le> int (num_voxels_y rp) - 2 then
           (let scale = voxel_size_x rp / \<bar>comp0 (ray_dir r)\<bar> in
            (if k = -1 then
               [(int i + nx * j, scale * (k_hat - k) * (1 - (j_hat - j))),
                (int i + nx * (j + 1), scale * (k_hat - k) * (j_hat - j))]
             else []) @
            (if k = 0 then
               [(int i + nx * j, scale * (1 - (k_hat - k)) * (1 - (j_hat - j))),
                (int i + nx * (j + 1), scale * (1 - (k_hat - k)) * (j_hat - j))]
             else []))
         else [])"

section \<open>The y-dominant sweep\<close>

text \<open>Lines 156--165, for voxel row \<open>j\<close>.\<close>

definition y_sweep_i_hat :: "recon_params \<Rightarrow> ray \<Rightarrow> nat \<Rightarrow> real" where
  "y_sweep_i_hat rp r j =
     (let y = (real j - center_voxel_y rp) * voxel_size_y rp;
          x_hat = comp0 (ray_src r) + comp0 (ray_dir r) / comp1 (ray_dir r) * (y - comp1 (ray_src r))
      in x_hat / voxel_size_x rp + center_voxel_x rp)"

definition y_sweep_k_hat :: "recon_params \<Rightarrow> ray \<Rightarrow> nat \<Rightarrow> real" where
  "y_sweep_k_hat rp r j =
     (let y = (real j - center_voxel_y rp) * voxel_size_y rp;
          z_hat = comp2 (ray_src r) + comp2 (ray_dir r) / comp1 (ray_dir r) * (y - comp1 (ray_src r))
      in z_hat / voxel_size_z rp + center_voxel_z rp)"

text \<open>Lines 167--178.\<close>

definition y_sweep_step :: "recon_params \<Rightarrow> ray \<Rightarrow> nat \<Rightarrow> (int \<times> real) list" where
  "y_sweep_step rp r j =
     (let i_hat = y_sweep_i_hat rp r j; i = \<lfloor>i_hat\<rfloor>;
          k_hat = y_sweep_k_hat rp r j; k = \<lfloor>k_hat\<rfloor>;
          nx = int (num_voxels_x rp)
      in if 0 \<le> i \<and> i \<le> int (num_voxels_x rp) - 2 then
           (let scale = voxel_size_y rp / \<bar>comp1 (ray_dir r)\<bar> in
            (if k = -1 then
               [(i + nx * int j, scale * (k_hat - k) * (1 - (i_hat - i))),
                ((i + 1) + nx * int j, scale * (k_hat - k) * (i_hat - i))]
             else []) @
            (if k = 0 then
               [(i + nx * int j, scale * (1 - (k_hat - k)) * (1 - (i_hat - i))),
                ((i + 1) + nx * int j, scale * (1 - (k_hat - k)) * (i_hat - i))]
             else []))
         else [])"

section \<open>One ray\<close>

text \<open>Lines 120--180: the dominant-axis choice and the sweep over the grid.\<close>

definition project_ray :: "recon_params \<Rightarrow> ray \<Rightarrow> (int \<times> real) list" where
  "project_ray rp r =
     (let abs_alpha_x = \<bar>comp0 (ray_dir r)\<bar>; abs_alpha_y = \<bar>comp1 (ray_dir r)\<bar> in
      if abs_alpha_x > abs_alpha_y
      then concat (map (x_sweep_step rp r) [0..<num_voxels_x rp])
      else concat (map (y_sweep_step rp r) [0..<num_voxels_y rp]))"

section \<open>The footprint the sweeps implement\<close>

text \<open>
  Both sweeps emit, for one voxel column (row), the pair of transaxial neighbours
  \<open>v0\<close>, \<open>v1\<close> weighted by the linear interpolation fraction \<open>f\<close> and by a
  triangular axial kernel \<open>1 - |k_hat|\<close> on \<open>[-1, 1)\<close>: the two branches
  \<open>k = -1\<close> and \<open>k = 0\<close> of the code are its two halves.
\<close>


definition tent_pushes :: "int \<Rightarrow> int \<Rightarrow> real \<Rightarrow> real \<Rightarrow> real \<Rightarrow> (int \<times> real) list" where
  "tent_pushes v0 v1 scale f k_hat =
     (if -1 \<le> k_hat \<and> k_hat < 1
      then [(v0, scale * (1 - \<bar>k_hat\<bar>) * (1 - f)), (v1, scale * (1 - \<bar>k_hat\<bar>) * f)]
      else [])"

section \<open>Properties\<close>

lemma axial_cases_tent:
  "(if \<lfloor>kh\<rfloor> = -1 then [(v0, s * (kh - of_int \<lfloor>kh\<rfloor>) * (1 - f)), (v1, s * (kh - of_int \<lfloor>kh\<rfloor>) * f)] else []) @
   (if \<lfloor>kh\<rfloor> = 0 then [(v0, s * (1 - (kh - of_int \<lfloor>kh\<rfloor>)) * (1 - f)), (v1, s * (1 - (kh - of_int \<lfloor>kh\<rfloor>)) * f)] else [])
   = tent_pushes v0 v1 s f (kh::real)"
proof (cases "\<lfloor>kh\<rfloor> = -1")
  case True
  then have "-1 \<le> kh" "kh < 0" by (simp_all add: floor_eq_iff)
  with True show ?thesis by (simp add: tent_pushes_def)
next
  case neg: False
  show ?thesis
  proof (cases "\<lfloor>kh\<rfloor> = 0")
    case True
    then have "0 \<le> kh" "kh < 1" by (simp_all add: floor_eq_iff)
    with True show ?thesis by (simp add: tent_pushes_def)
  next
    case False
    have "\<not> (-1 \<le> kh \<and> kh < 0)" using neg by (simp add: floor_eq_iff)
    moreover have "\<not> (0 \<le> kh \<and> kh < 1)" using False by (simp add: floor_eq_iff)
    ultimately have "\<not> (-1 \<le> kh \<and> kh < 1)" by linarith
    with neg False show ?thesis by (simp add: tent_pushes_def)
  qed
qed

lemma x_sweep_step_tent:
  "x_sweep_step rp r i =
     (let j_hat = x_sweep_j_hat rp r i; j = \<lfloor>j_hat\<rfloor>; nx = int (num_voxels_x rp) in
      if 0 \<le> j \<and> j \<le> int (num_voxels_y rp) - 2
      then tent_pushes (int i + nx * j) (int i + nx * (j + 1)) (voxel_size_x rp / \<bar>comp0 (ray_dir r)\<bar>)
             (frac j_hat) (x_sweep_k_hat rp r i)
      else [])"
  by (simp add: x_sweep_step_def Let_def axial_cases_tent frac_def)

lemma y_sweep_step_tent:
  "y_sweep_step rp r j =
     (let i_hat = y_sweep_i_hat rp r j; i = \<lfloor>i_hat\<rfloor>; nx = int (num_voxels_x rp) in
      if 0 \<le> i \<and> i \<le> int (num_voxels_x rp) - 2
      then tent_pushes (i + nx * int j) ((i + 1) + nx * int j) (voxel_size_y rp / \<bar>comp1 (ray_dir r)\<bar>)
             (frac i_hat) (y_sweep_k_hat rp r j)
      else [])"
  by (simp add: y_sweep_step_def Let_def axial_cases_tent frac_def)



lemma x_sweep_step_keys:
  "map fst (x_sweep_step rp r i) =
     (let j = \<lfloor>x_sweep_j_hat rp r i\<rfloor>; k = \<lfloor>x_sweep_k_hat rp r i\<rfloor>; nx = int (num_voxels_x rp) in
      if 0 \<le> j \<and> j \<le> int (num_voxels_y rp) - 2 \<and> (k = -1 \<or> k = 0)
      then [int i + nx * j, int i + nx * (j + 1)] else [])"
  by (simp add: x_sweep_step_def Let_def)

lemma y_sweep_step_keys:
  "map fst (y_sweep_step rp r j) =
     (let i = \<lfloor>y_sweep_i_hat rp r j\<rfloor>; k = \<lfloor>y_sweep_k_hat rp r j\<rfloor>; nx = int (num_voxels_x rp) in
      if 0 \<le> i \<and> i \<le> int (num_voxels_x rp) - 2 \<and> (k = -1 \<or> k = 0)
      then [i + nx * int j, (i + 1) + nx * int j] else [])"
  by (simp add: y_sweep_step_def Let_def)

lemma sweep_key_mem:
  "p \<in> set xs \<Longrightarrow> map fst xs = (if b then [v0, v1] else []) \<Longrightarrow> b \<and> (fst p = v0 \<or> fst p = v1)"
  by (cases b) (auto dest: imageI [where f = fst])

lemma tent_pushes_sum:
  "sum_list (map snd (tent_pushes v0 v1 s f kh)) = (if -1 \<le> kh \<and> kh < 1 then s * (1 - \<bar>kh\<bar>) else 0)"
  by (simp add: tent_pushes_def algebra_simps)

lemma tent_pushes_weight:
  assumes "0 \<le> s" "0 \<le> f" "f \<le> 1" "p \<in> set (tent_pushes v0 v1 s f kh)"
  shows "0 \<le> snd p \<and> snd p \<le> s"
proof -
  from assms(4) have k: "-1 \<le> kh" "kh < 1" by (auto simp: tent_pushes_def split: if_splits)
  then have a: "0 \<le> 1 - \<bar>kh\<bar>" "1 - \<bar>kh\<bar> \<le> 1" by auto
  from assms(4) k have "snd p = s * (1 - \<bar>kh\<bar>) * (1 - f) \<or> snd p = s * (1 - \<bar>kh\<bar>) * f"
    by (auto simp: tent_pushes_def)
  then show ?thesis
    using unit_interval_mult [OF assms(1) a] assms(2,3) by auto
qed



lemma x_sweep_step_voxel:
  assumes "p \<in> set (x_sweep_step rp r i)" "i < num_voxels_x rp"
  shows "fst p mod int (num_voxels_x rp) = int i \<and> 0 \<le> fst p
         \<and> fst p < int (num_voxels_x rp) * int (num_voxels_y rp)"
proof -
  let ?nx = "int (num_voxels_x rp)" and ?ny = "int (num_voxels_y rp)"
  let ?j = "\<lfloor>x_sweep_j_hat rp r i\<rfloor>"
  have "(0 \<le> ?j \<and> ?j \<le> ?ny - 2 \<and> (\<lfloor>x_sweep_k_hat rp r i\<rfloor> = -1 \<or> \<lfloor>x_sweep_k_hat rp r i\<rfloor> = 0))
        \<and> (fst p = int i + ?nx * ?j \<or> fst p = int i + ?nx * (?j + 1))"
    using assms(1) x_sweep_step_keys [of rp r i] by (intro sweep_key_mem) (simp_all add: Let_def)
  then have j: "0 \<le> ?j" "?j \<le> ?ny - 2"
    and p: "fst p = int i + ?nx * ?j \<or> fst p = int i + ?nx * (?j + 1)" by simp_all
  have i: "0 \<le> int i" "int i < ?nx" using assms(2) by simp_all
  have "?nx * (?j + 1) \<le> ?nx * (?ny - 1)"
    using j by (intro mult_left_mono) simp_all
  then have hi: "int i + ?nx * (?j + 1) < ?nx * ?ny"
    using i by (simp add: algebra_simps)
  have "?nx * ?j \<le> ?nx * (?j + 1)" using i by simp
  then have lo: "int i + ?nx * ?j < ?nx * ?ny" using hi by linarith
  have nn: "0 \<le> ?nx * ?j" "0 \<le> ?nx * (?j + 1)" using j i by simp_all
  have "(int i + ?nx * m) mod ?nx = int i" for m
    using i by simp
  then show ?thesis
    using p i hi lo nn by auto
qed



lemma y_sweep_step_voxel:
  assumes "p \<in> set (y_sweep_step rp r j)" "j < num_voxels_y rp"
  shows "fst p div int (num_voxels_x rp) = int j \<and> 0 \<le> fst p
         \<and> fst p < int (num_voxels_x rp) * int (num_voxels_y rp)"
proof -
  let ?nx = "int (num_voxels_x rp)" and ?ny = "int (num_voxels_y rp)"
  let ?i = "\<lfloor>y_sweep_i_hat rp r j\<rfloor>"
  have "(0 \<le> ?i \<and> ?i \<le> ?nx - 2 \<and> (\<lfloor>y_sweep_k_hat rp r j\<rfloor> = -1 \<or> \<lfloor>y_sweep_k_hat rp r j\<rfloor> = 0))
        \<and> (fst p = ?i + ?nx * int j \<or> fst p = (?i + 1) + ?nx * int j)"
    using assms(1) y_sweep_step_keys [of rp r j] by (intro sweep_key_mem) (simp_all add: Let_def)
  then have i: "0 \<le> ?i" "?i \<le> ?nx - 2"
    and "fst p = ?i + ?nx * int j \<or> fst p = (?i + 1) + ?nx * int j" by simp_all
  then obtain c where c: "fst p = c + ?nx * int j" "0 \<le> c" "c < ?nx"
    using i by auto
  have "?nx * int j \<le> ?nx * (?ny - 1)"
    using assms(2) by (intro mult_left_mono) simp_all
  then have "fst p < ?nx * ?ny" using c by (simp add: algebra_simps)
  moreover have "fst p div ?nx = int j" using c by simp
  moreover have "0 \<le> fst p" using c by simp
  ultimately show ?thesis by simp
qed

lemma project_ray_voxel_range:
  "p \<in> set (project_ray rp r) \<Longrightarrow> 0 \<le> fst p \<and> fst p < int (num_voxels_x rp) * int (num_voxels_y rp)"
  by (auto simp: project_ray_def Let_def dest: x_sweep_step_voxel y_sweep_step_voxel split: if_splits)

lemma x_sweep_step_distinct:
  assumes "i < num_voxels_x rp"
  shows "distinct (map fst (x_sweep_step rp r i))"
proof -
  have "int i + int (num_voxels_x rp) * m \<noteq> int i + int (num_voxels_x rp) * (m + 1)" for m
    using assms by (simp add: algebra_simps)
  then show ?thesis
    by (simp add: x_sweep_step_keys Let_def)
qed

lemma y_sweep_step_distinct: "distinct (map fst (y_sweep_step rp r j))"
  by (simp add: y_sweep_step_keys Let_def)

lemma project_ray_distinct: "distinct (map fst (project_ray rp r))"
proof (cases "\<bar>comp0 (ray_dir r)\<bar> > \<bar>comp1 (ray_dir r)\<bar>")
  case True
  have "distinct (map fst (concat (map (x_sweep_step rp r) [0..<num_voxels_x rp])))"
  proof (rule distinct_concat_keyed [where key = "\<lambda>v. nat (v mod int (num_voxels_x rp))"])
    fix i assume "i < num_voxels_x rp"
    then show "distinct (map fst (x_sweep_step rp r i))" by (rule x_sweep_step_distinct)
  next
    fix i p assume "i < num_voxels_x rp" "p \<in> set (x_sweep_step rp r i)"
    then have "fst p mod int (num_voxels_x rp) = int i"
      using x_sweep_step_voxel by blast
    then show "nat (fst p mod int (num_voxels_x rp)) = i" by simp
  qed
  with True show ?thesis by (simp add: project_ray_def)
next
  case False
  have "distinct (map fst (concat (map (y_sweep_step rp r) [0..<num_voxels_y rp])))"
  proof (rule distinct_concat_keyed [where key = "\<lambda>v. nat (v div int (num_voxels_x rp))"])
    fix j show "distinct (map fst (y_sweep_step rp r j))" by (rule y_sweep_step_distinct)
  next
    fix j p assume "j < num_voxels_y rp" "p \<in> set (y_sweep_step rp r j)"
    then have "fst p div int (num_voxels_x rp) = int j"
      using y_sweep_step_voxel by blast
    then show "nat (fst p div int (num_voxels_x rp)) = j" by simp
  qed
  with False show ?thesis by (simp add: project_ray_def)
qed

lemma x_sweep_step_mem:
  "p \<in> set (x_sweep_step rp r i) \<Longrightarrow>
   p \<in> set (tent_pushes (int i + int (num_voxels_x rp) * \<lfloor>x_sweep_j_hat rp r i\<rfloor>)
     (int i + int (num_voxels_x rp) * (\<lfloor>x_sweep_j_hat rp r i\<rfloor> + 1))
     (voxel_size_x rp / \<bar>comp0 (ray_dir r)\<bar>) (frac (x_sweep_j_hat rp r i)) (x_sweep_k_hat rp r i))"
  by (simp add: x_sweep_step_tent Let_def split: if_splits)

lemma y_sweep_step_mem:
  "p \<in> set (y_sweep_step rp r j) \<Longrightarrow>
   p \<in> set (tent_pushes (\<lfloor>y_sweep_i_hat rp r j\<rfloor> + int (num_voxels_x rp) * int j)
     ((\<lfloor>y_sweep_i_hat rp r j\<rfloor> + 1) + int (num_voxels_x rp) * int j)
     (voxel_size_y rp / \<bar>comp1 (ray_dir r)\<bar>) (frac (y_sweep_i_hat rp r j)) (y_sweep_k_hat rp r j))"
  by (simp add: y_sweep_step_tent Let_def split: if_splits)

subsection \<open>Claims about one ray\<close>

lemmas sweep_eval_defs = x_sweep_step_def y_sweep_step_def x_sweep_j_hat_def x_sweep_k_hat_def
  y_sweep_i_hat_def y_sweep_k_hat_def project_ray_def scenario_fields Let_def

text \<open>
  C5: both sweeps implement the same footprint: the two transaxial neighbours split the
  linear interpolation fraction of the extrapolated index, and the two axial branches
  \<open>k = -1\<close>, \<open>k = 0\<close> together form the triangular kernel \<open>1 - |k_hat|\<close>.
\<close>

theorem sweeps_refine_footprint:
  "x_sweep_step rp r i =
     (let j_hat = x_sweep_j_hat rp r i; j = \<lfloor>j_hat\<rfloor>; nx = int (num_voxels_x rp) in
      if 0 \<le> j \<and> j \<le> int (num_voxels_y rp) - 2
      then tent_pushes (int i + nx * j) (int i + nx * (j + 1)) (voxel_size_x rp / \<bar>comp0 (ray_dir r)\<bar>)
             (frac j_hat) (x_sweep_k_hat rp r i)
      else [])
   \<and> y_sweep_step rp r j =
     (let i_hat = y_sweep_i_hat rp r j; i = \<lfloor>i_hat\<rfloor>; nx = int (num_voxels_x rp) in
      if 0 \<le> i \<and> i \<le> int (num_voxels_x rp) - 2
      then tent_pushes (i + nx * int j) ((i + 1) + nx * int j) (voxel_size_y rp / \<bar>comp1 (ray_dir r)\<bar>)
             (frac i_hat) (y_sweep_k_hat rp r j)
      else [])"
  using x_sweep_step_tent y_sweep_step_tent by blast

text \<open>
  C6: weight conservation. The weights one sweep step deposits sum to the path-length
  scale \<open>voxel_size / |alpha|\<close> times the axial kernel \<open>1 - |k_hat|\<close> when both
  neighbours are in the grid and \<open>k_hat \<in> [-1, 1)\<close>, and to zero otherwise; for a ray
  through the central axial plane (\<open>k_hat = 0\<close>) the pair sums to the full scale.
\<close>

theorem sweep_weight_conservation:
  "sum_list (map snd (x_sweep_step rp r i)) =
     (let j = \<lfloor>x_sweep_j_hat rp r i\<rfloor>; k_hat = x_sweep_k_hat rp r i in
      if 0 \<le> j \<and> j \<le> int (num_voxels_y rp) - 2 \<and> -1 \<le> k_hat \<and> k_hat < 1
      then voxel_size_x rp / \<bar>comp0 (ray_dir r)\<bar> * (1 - \<bar>k_hat\<bar>) else 0)
   \<and> sum_list (map snd (y_sweep_step rp r j)) =
     (let i = \<lfloor>y_sweep_i_hat rp r j\<rfloor>; k_hat = y_sweep_k_hat rp r j in
      if 0 \<le> i \<and> i \<le> int (num_voxels_x rp) - 2 \<and> -1 \<le> k_hat \<and> k_hat < 1
      then voxel_size_y rp / \<bar>comp1 (ray_dir r)\<bar> * (1 - \<bar>k_hat\<bar>) else 0)"
  by (simp add: x_sweep_step_tent y_sweep_step_tent tent_pushes_sum Let_def)

text \<open>
  C7: boundary rejection. A sweep step whose extrapolated transaxial index falls outside
  \<open>[0, n - 2]\<close> contributes nothing.
\<close>

theorem sweep_boundary_rejection:
  "(\<not> (0 \<le> \<lfloor>x_sweep_j_hat rp r i\<rfloor> \<and> \<lfloor>x_sweep_j_hat rp r i\<rfloor> \<le> int (num_voxels_y rp) - 2)
      \<longrightarrow> x_sweep_step rp r i = [])
   \<and> (\<not> (0 \<le> \<lfloor>y_sweep_i_hat rp r j\<rfloor> \<and> \<lfloor>y_sweep_i_hat rp r j\<rfloor> \<le> int (num_voxels_x rp) - 2)
      \<longrightarrow> y_sweep_step rp r j = [])"
  by (simp add: x_sweep_step_def y_sweep_step_def Let_def)

theorem sweep_boundary_rejection_witness:
  "\<not> (0 \<le> \<lfloor>x_sweep_j_hat scenario_params \<lparr>ray_src = vec 0 10 0, ray_dir = vec 1 1 0\<rparr> 0\<rfloor>
        \<and> \<lfloor>x_sweep_j_hat scenario_params \<lparr>ray_src = vec 0 10 0, ray_dir = vec 1 1 0\<rparr> 0\<rfloor>
            \<le> int (num_voxels_y scenario_params) - 2)
   \<and> \<not> (0 \<le> \<lfloor>y_sweep_i_hat scenario_params \<lparr>ray_src = vec 0 10 0, ray_dir = vec 1 1 0\<rparr> 0\<rfloor>
        \<and> \<lfloor>y_sweep_i_hat scenario_params \<lparr>ray_src = vec 0 10 0, ray_dir = vec 1 1 0\<rparr> 0\<rfloor>
            \<le> int (num_voxels_x scenario_params) - 2)
   \<and> x_sweep_step scenario_params \<lparr>ray_src = vec 0 10 0, ray_dir = vec 1 1 0\<rparr> 0 = []
   \<and> y_sweep_step scenario_params \<lparr>ray_src = vec 0 10 0, ray_dir = vec 1 1 0\<rparr> 0 = []"
proof -
  have h: "\<not> (0 \<le> \<lfloor>x_sweep_j_hat scenario_params \<lparr>ray_src = vec 0 10 0, ray_dir = vec 1 1 0\<rparr> 0\<rfloor>
        \<and> \<lfloor>x_sweep_j_hat scenario_params \<lparr>ray_src = vec 0 10 0, ray_dir = vec 1 1 0\<rparr> 0\<rfloor>
            \<le> int (num_voxels_y scenario_params) - 2)"
    "\<not> (0 \<le> \<lfloor>y_sweep_i_hat scenario_params \<lparr>ray_src = vec 0 10 0, ray_dir = vec 1 1 0\<rparr> 0\<rfloor>
        \<and> \<lfloor>y_sweep_i_hat scenario_params \<lparr>ray_src = vec 0 10 0, ray_dir = vec 1 1 0\<rparr> 0\<rfloor>
            \<le> int (num_voxels_x scenario_params) - 2)"
    by (simp_all add: sweep_eval_defs)
  then show ?thesis
    using sweep_boundary_rejection [of scenario_params "\<lparr>ray_src = vec 0 10 0, ray_dir = vec 1 1 0\<rparr>" 0 0]
    by blast
qed

text \<open>
  C8: every weight a sweep step deposits lies between zero and the path-length scale
  \<open>voxel_size / |alpha|\<close>, for non-negative voxel sizes.
\<close>

theorem sweep_weights_bounded:
  assumes "0 \<le> voxel_size_x rp" "0 \<le> voxel_size_y rp"
  shows "(\<forall>p\<in>set (x_sweep_step rp r i). 0 \<le> snd p \<and> snd p \<le> voxel_size_x rp / \<bar>comp0 (ray_dir r)\<bar>)
       \<and> (\<forall>p\<in>set (y_sweep_step rp r j). 0 \<le> snd p \<and> snd p \<le> voxel_size_y rp / \<bar>comp1 (ray_dir r)\<bar>)"
proof -
  have sx: "0 \<le> voxel_size_x rp / \<bar>comp0 (ray_dir r)\<bar>" and sy: "0 \<le> voxel_size_y rp / \<bar>comp1 (ray_dir r)\<bar>"
    using assms by simp_all
  have f: "0 \<le> frac x" "frac x \<le> 1" for x :: real
    using frac_lt_1 [of x] by (simp_all add: frac_ge_0)
  show ?thesis
    using tent_pushes_weight [OF sx f x_sweep_step_mem] tent_pushes_weight [OF sy f y_sweep_step_mem]
    by blast
qed

theorem sweep_weights_bounded_witness:
  "0 \<le> voxel_size_x scenario_params \<and> 0 \<le> voxel_size_y scenario_params
   \<and> x_sweep_step scenario_params \<lparr>ray_src = vec (-1) (-1/4) 0, ray_dir = vec 1 0 0\<rparr> 0 = [(0, 3/4), (2, 1/4)]
   \<and> list_all (\<lambda>p. 0 \<le> snd p \<and> snd p \<le> 1)
        (x_sweep_step scenario_params \<lparr>ray_src = vec (-1) (-1/4) 0, ray_dir = vec 1 0 0\<rparr> 0)"
proof -
  have h: "0 \<le> voxel_size_x scenario_params" "0 \<le> voxel_size_y scenario_params"
    by (simp_all add: scenario_fields)
  have e: "x_sweep_step scenario_params \<lparr>ray_src = vec (-1) (-1/4) 0, ray_dir = vec 1 0 0\<rparr> 0 = [(0, 3/4), (2, 1/4)]"
    by (simp add: sweep_eval_defs)
  have b: "\<forall>p\<in>set (x_sweep_step scenario_params \<lparr>ray_src = vec (-1) (-1/4) 0, ray_dir = vec 1 0 0\<rparr> 0).
        0 \<le> snd p \<and> snd p \<le> voxel_size_x scenario_params / \<bar>comp0 (ray_dir \<lparr>ray_src = vec (-1) (-1/4) 0, ray_dir = vec 1 0 0\<rparr>)\<bar>"
    using sweep_weights_bounded [OF h] by blast
  have "voxel_size_x scenario_params / \<bar>comp0 (ray_dir \<lparr>ray_src = vec (-1) (-1/4) 0, ray_dir = vec 1 0 0\<rparr>)\<bar> = 1"
    by (simp add: scenario_fields)
  with h e b show ?thesis by (simp add: list_all_iff)
qed

text \<open>
  C9: one ray pushes to each voxel column at most once, and only to columns of the grid.
  This is what lets the accumulator append with the ray's index and never repeat it.
\<close>

theorem project_ray_one_push_per_voxel:
  "distinct (map fst (project_ray rp r))
   \<and> (\<forall>p\<in>set (project_ray rp r). 0 \<le> fst p \<and> fst p < int (num_voxels_x rp) * int (num_voxels_y rp))"
  using project_ray_distinct project_ray_voxel_range by blast

theorem project_ray_one_push_per_voxel_witness:
  "project_ray scenario_params \<lparr>ray_src = vec (-1) (-1/4) 0, ray_dir = vec 1 0 0\<rparr> = [(0, 3/4), (2, 1/4), (1, 3/4), (3, 1/4)]
   \<and> list_all (\<lambda>p. 0 \<le> fst p \<and> fst p < 4)
        (project_ray scenario_params \<lparr>ray_src = vec (-1) (-1/4) 0, ray_dir = vec 1 0 0\<rparr>)"
proof -
  have e: "project_ray scenario_params \<lparr>ray_src = vec (-1) (-1/4) 0, ray_dir = vec 1 0 0\<rparr>
      = [(0, 3/4), (2, 1/4), (1, 3/4), (3, 1/4)]"
    by (simp add: sweep_eval_defs upt_numerals)
  show ?thesis
    using e project_ray_one_push_per_voxel [of scenario_params "\<lparr>ray_src = vec (-1) (-1/4) 0, ray_dir = vec 1 0 0\<rparr>"]
    by (simp add: scenario_fields list_all_iff)
qed

end
