(* ===== verification/Accumulator.thy ===== *)
theory Accumulator
  imports Projector
begin

text \<open>
  SparseMatrixAccumulator and the generation loops of \<^verbatim>\<open>generate_system_matrix_ffs\<close>
  (\<^verbatim>\<open>src/src/generate_system_matrix_ffs.cpp\<close>): the allocation of one
  \<^verbatim>\<open>ublas::compressed_vector<float>\<close> per voxel (lines 43--46), the
  \<^verbatim>\<open>push_back\<close> calls of the projector (lines 142--176) and the view, channel and
  row loops (lines 58--183) that visit the rays in the order of their index \<open>q\<close>.
  The float type of the stored weights is a type parameter \<open>'f\<close>, and the
  \<^verbatim>\<open>(float)\<close> cast a function \<open>fl :: real \<Rightarrow> 'f\<close> passed in; no property here
  depends on the rounding.
\<close>

section \<open>Sparse columns\<close>

text \<open>
  A \<^verbatim>\<open>compressed_vector\<close>: its logical size and its stored (index, value) pairs in
  storage order (\<^verbatim>\<open>filled()\<close> is their number).
\<close>

record 'f column =
  col_size :: nat
  col_entries :: "(nat \<times> 'f) list"

text \<open>
  \<^verbatim>\<open>compressed_vector::push_back(i, t)\<close> of the uBLAS library (not part of the
  sources; modelled from the library's contract and the spec): it appends, and its check
  \<^verbatim>\<open>filled_ == 0 || index_data_[filled_ - 1] < i\<close> fails on an index that does not
  exceed the last one stored.
\<close>

definition push_back :: "'f column \<Rightarrow> nat \<Rightarrow> 'f \<Rightarrow> gen_error + 'f column" where
  "push_back c i t =
     (if col_entries c \<noteq> [] \<and> \<not> fst (last (col_entries c)) < i
      then Inl (IndexNotIncreasing (fst (last (col_entries c))) i)
      else Inr (c\<lparr>col_entries := col_entries c @ [(i, t)]\<rparr>))"

text \<open>
  \<^verbatim>\<open>system_matrix[v].push_back(q, (float) w)\<close>: \<^verbatim>\<open>std::vector::operator[]\<close>
  out of range is undefined behaviour, here the error \<open>ColumnOutOfRange\<close>.
\<close>

definition matrix_push ::
  "'f column list \<Rightarrow> int \<Rightarrow> nat \<Rightarrow> 'f \<Rightarrow> gen_error + 'f column list" where
  "matrix_push M v q t =
     (if 0 \<le> v \<and> nat v < length M
      then (case push_back (M ! nat v) q t of
              Inl e \<Rightarrow> Inl e
            | Inr c \<Rightarrow> Inr (M[nat v := c]))
      else Inl (ColumnOutOfRange v))"

text \<open>The \<^verbatim>\<open>push_back\<close> calls of one ray, in order, all with the ray's index.\<close>

definition push_all ::
  "(real \<Rightarrow> 'f) \<Rightarrow> nat \<Rightarrow> (int \<times> real) list \<Rightarrow> 'f column list \<Rightarrow> gen_error + 'f column list" where
  "push_all fl q ps M = fold_err (\<lambda>(v, w) M. matrix_push M v q (fl w)) ps M"

text \<open>The conversion of the \<^verbatim>\<open>int\<close> index to uBLAS's \<^verbatim>\<open>size_type\<close> (\<^verbatim>\<open>size_t\<close>).\<close>

definition size_t_of_int :: "32 word \<Rightarrow> nat" where
  "size_t_of_int q = unat (scast q :: 64 word)"

section \<open>Allocation\<close>

text \<open>
  Lines 43--46: \<^verbatim>\<open>num_voxels_x*num_voxels_y\<close> empty columns, each resized to
  \<^verbatim>\<open>(size_t)(Readings*n_channels*Nrows_projection)\<close>, a product of \<^verbatim>\<open>int\<close>s.
\<close>

definition column_capacity :: "recon_params \<Rightarrow> nat" where
  "column_capacity rp =
     size_t_of_int (word_of_int (int (Readings rp) * int (n_channels rp) * int (Nrows_projection rp)))"

definition init_matrix :: "recon_params \<Rightarrow> 'f column list" where
  "init_matrix rp =
     replicate (num_voxels_x rp * num_voxels_y rp) \<lparr>col_size = column_capacity rp, col_entries = []\<rparr>"

section \<open>The generation loops\<close>

text \<open>Lines 97--179: one row \<open>k\<close> of channel \<open>j\<close> of view \<open>i\<close>.\<close>

definition process_ray ::
  "(real \<Rightarrow> 'f) \<Rightarrow> recon_params \<Rightarrow> view \<Rightarrow> nat \<Rightarrow> nat \<Rightarrow> nat \<Rightarrow> 'f column list
   \<Rightarrow> gen_error + 'f column list" where
  "process_ray fl rp v i j k M =
     push_all fl (size_t_of_int (ray_index rp i j k)) (project_ray rp (build_ray rp v j k)) M"

text \<open>Lines 58--183: views, then channels, then rows.\<close>

definition process_view ::
  "(real \<Rightarrow> 'f) \<Rightarrow> recon_params \<Rightarrow> nat \<Rightarrow> 'f column list \<Rightarrow> gen_error + 'f column list" where
  "process_view fl rp i M =
     (case view_setup rp i of
        Inl e \<Rightarrow> Inl e
      | Inr v \<Rightarrow>
          fold_err (\<lambda>j M. fold_err (\<lambda>k M. process_ray fl rp v i j k M) [0..<Nrows_projection rp] M)
            [0..<n_channels rp] M)"

definition generate_system_matrix ::
  "(real \<Rightarrow> 'f) \<Rightarrow> recon_params \<Rightarrow> gen_error + 'f column list" where
  "generate_system_matrix fl rp =
     fold_err (process_view fl rp) [0..<num_views_for_system_matrix rp] (init_matrix rp)"

section \<open>The column invariant\<close>

text \<open>
  What the monotone visiting order guarantees after the first \<open>n\<close> rays: every column
  holds strictly increasing ray indices, all below \<open>n\<close>; there is one column per voxel,
  each of the allocated size.
\<close>

definition columns_below :: "'f column list \<Rightarrow> nat \<Rightarrow> bool" where
  "columns_below M n \<longleftrightarrow>
     (\<forall>c\<in>set M. sorted_wrt (<) (map fst (col_entries c)) \<and> (\<forall>p\<in>set (col_entries c). fst p < n))"

definition matrix_inv :: "recon_params \<Rightarrow> 'f column list \<Rightarrow> nat \<Rightarrow> bool" where
  "matrix_inv rp M n \<longleftrightarrow>
     length M = num_voxels_x rp * num_voxels_y rp \<and> columns_below M n
     \<and> (\<forall>c\<in>set M. col_size c = column_capacity rp)"

section \<open>The invariant along the loops\<close>


lemma push_back_below:
  assumes "sorted_wrt (<) (map fst (col_entries c))" "\<forall>p\<in>set (col_entries c). fst p < q"
  shows "push_back c q t = Inr (c\<lparr>col_entries := col_entries c @ [(q, t)]\<rparr>)"
proof -
  have "col_entries c \<noteq> [] \<Longrightarrow> fst (last (col_entries c)) < q"
    using assms(2) by simp
  then show ?thesis by (auto simp: push_back_def)
qed

lemma push_all_ok:
  assumes "distinct (map fst ps)"
    and "\<forall>p\<in>set ps. 0 \<le> fst p \<and> nat (fst p) < length M"
    and "\<forall>c<length M. sorted_wrt (<) (map fst (col_entries (M ! c)))
           \<and> (\<forall>p\<in>set (col_entries (M ! c)). fst p \<le> q \<and> (int c \<in> fst ` set ps \<longrightarrow> fst p < q))"
  shows "\<exists>M'. push_all fl q ps M = Inr M' \<and> length M' = length M \<and> map col_size M' = map col_size M
           \<and> (\<forall>c<length M'. sorted_wrt (<) (map fst (col_entries (M' ! c)))
                 \<and> (\<forall>p\<in>set (col_entries (M' ! c)). fst p \<le> q))"
  using assms
proof (induction ps arbitrary: M)
  case Nil
  then show ?case by (simp add: push_all_def)
next
  case (Cons vw ps)
  obtain v w where vw: "vw = (v, w)" by fastforce
  let ?c = "nat v"
  have v: "0 \<le> v" "?c < length M" using Cons.prems(2) vw by auto
  have old: "sorted_wrt (<) (map fst (col_entries (M ! ?c)))"
      "\<forall>p\<in>set (col_entries (M ! ?c)). fst p < q"
    using Cons.prems(3) v vw by auto
  let ?c' = "(M ! ?c)\<lparr>col_entries := col_entries (M ! ?c) @ [(q, fl w)]\<rparr>"
  let ?M1 = "M[?c := ?c']"
  have push: "matrix_push M v q (fl w) = Inr ?M1"
    using v push_back_below [OF old] by (simp add: matrix_push_def)
  have notin: "v \<notin> fst ` set ps" using Cons.prems(1) vw by simp
  have inv1: "\<forall>c<length ?M1. sorted_wrt (<) (map fst (col_entries (?M1 ! c)))
           \<and> (\<forall>p\<in>set (col_entries (?M1 ! c)). fst p \<le> q \<and> (int c \<in> fst ` set ps \<longrightarrow> fst p < q))"
  proof (intro allI impI)
    fix c assume c: "c < length ?M1"
    show "sorted_wrt (<) (map fst (col_entries (?M1 ! c)))
           \<and> (\<forall>p\<in>set (col_entries (?M1 ! c)). fst p \<le> q \<and> (int c \<in> fst ` set ps \<longrightarrow> fst p < q))"
    proof (cases "c = ?c")
      case True
      with notin v have "int c \<notin> fst ` set ps" by simp
      with True v old show ?thesis
        by (auto simp: sorted_wrt_append less_imp_le)
    next
      case False
      with c Cons.prems(3) show ?thesis by simp
    qed
  qed
  have rng1: "\<forall>p\<in>set ps. 0 \<le> fst p \<and> nat (fst p) < length ?M1"
    using Cons.prems(2) by simp
  have "distinct (map fst ps)" using Cons.prems(1) by simp
  from Cons.IH [OF this rng1 inv1] obtain M' where
    M': "push_all fl q ps ?M1 = Inr M'" "length M' = length ?M1" "map col_size M' = map col_size ?M1"
        "\<forall>c<length M'. sorted_wrt (<) (map fst (col_entries (M' ! c)))
                 \<and> (\<forall>p\<in>set (col_entries (M' ! c)). fst p \<le> q)"
    by blast
  have "map col_size ?M1 = (map col_size M)[?c := map col_size M ! ?c]"
    using v by (simp add: map_update)
  then have "map col_size ?M1 = map col_size M" by simp
  moreover have "push_all fl q (vw # ps) M = push_all fl q ps ?M1"
    using push vw by (simp add: push_all_def)
  ultimately show ?case using M' by simp
qed



lemma process_ray_inv:
  assumes inv: "matrix_inv rp M q" and q: "size_t_of_int (ray_index rp i j k) = q"
  shows "\<exists>M'. process_ray fl rp v i j k M = Inr M' \<and> matrix_inv rp M' (Suc q)"
proof -
  let ?ps = "project_ray rp (build_ray rp v j k)"
  have len: "length M = num_voxels_x rp * num_voxels_y rp" using inv by (simp add: matrix_inv_def)
  have rng: "\<forall>p\<in>set ?ps. 0 \<le> fst p \<and> nat (fst p) < length M"
  proof
    fix p assume "p \<in> set ?ps"
    then have "0 \<le> fst p" "fst p < int (num_voxels_x rp) * int (num_voxels_y rp)"
      using project_ray_voxel_range by blast+
    then show "0 \<le> fst p \<and> nat (fst p) < length M"
      using len by (simp add: nat_less_iff)
  qed
  have below: "\<forall>c<length M. sorted_wrt (<) (map fst (col_entries (M ! c)))
           \<and> (\<forall>p\<in>set (col_entries (M ! c)). fst p \<le> q \<and> (int c \<in> fst ` set ?ps \<longrightarrow> fst p < q))"
    using inv by (fastforce simp: matrix_inv_def columns_below_def)
  from push_all_ok [OF project_ray_distinct rng below] obtain M' where
    M': "push_all fl q ?ps M = Inr M'" "length M' = length M" "map col_size M' = map col_size M"
      "\<forall>c<length M'. sorted_wrt (<) (map fst (col_entries (M' ! c)))
                 \<and> (\<forall>p\<in>set (col_entries (M' ! c)). fst p \<le> q)"
    by blast
  have "col_size ` set M' = col_size ` set M"
    using M'(3) by (metis set_map)
  then have "\<forall>c\<in>set M'. col_size c = column_capacity rp"
    using inv by (auto simp: matrix_inv_def)
  moreover have "columns_below M' (Suc q)"
    using M'(4) by (auto simp: columns_below_def all_set_conv_all_nth less_Suc_eq_le)
  ultimately have "matrix_inv rp M' (Suc q)"
    using M'(2) len by (simp add: matrix_inv_def)
  with M'(1) q show ?thesis by (simp add: process_ray_def)
qed

lemma ray_size_t:
  assumes "k < Nrows_projection rp" "j < n_channels rp" "i < num_views_for_system_matrix rp"
    and "Nrows_projection rp * n_channels rp * num_views_for_system_matrix rp \<le> 2 ^ 31"
  shows "size_t_of_int (ray_index rp i j k) =
           Nrows_projection rp * n_channels rp * i + Nrows_projection rp * j + k"
proof -
  have "int k + int (Nrows_projection rp) * int j
        + int (Nrows_projection rp) * int (n_channels rp) * int i
      = int (Nrows_projection rp * n_channels rp * i + Nrows_projection rp * j + k)"
    by simp
  then have s: "sint (ray_index rp i j k) =
      int (Nrows_projection rp * n_channels rp * i + Nrows_projection rp * j + k)"
    using ray_index_no_overflow [OF assms] by simp
  then have "unat (scast (ray_index rp i j k) :: 64 word) = nat (sint (ray_index rp i j k))"
    by (intro unat_scast_nonneg) simp
  then show ?thesis
    unfolding size_t_of_int_def by (simp only: s nat_int)
qed

lemma rows_inv:
  fixes fl :: "real \<Rightarrow> 'f"
  assumes "i < num_views_for_system_matrix rp" "j < n_channels rp"
    and "Nrows_projection rp * n_channels rp * num_views_for_system_matrix rp \<le> 2 ^ 31"
    and "matrix_inv rp M (Nrows_projection rp * n_channels rp * i + Nrows_projection rp * j)"
  shows "\<exists>M'. fold_err (\<lambda>k M. process_ray fl rp v i j k M) [0..<Nrows_projection rp] M = Inr M'
           \<and> matrix_inv rp M' (Nrows_projection rp * n_channels rp * i + Nrows_projection rp * Suc j)"
proof -
  let ?b = "Nrows_projection rp * n_channels rp * i + Nrows_projection rp * j"
  have "\<exists>M'. fold_err (\<lambda>k M. process_ray fl rp v i j k M) [0..<Nrows_projection rp] M = Inr M'
           \<and> matrix_inv rp M' (?b + Nrows_projection rp)"
  proof (rule fold_err_upt_inv [where P = "\<lambda>k M. matrix_inv rp M (?b + k)"])
    fix k and M :: "'f column list"
    assume k: "0 \<le> k" "k < Nrows_projection rp" and inv: "matrix_inv rp M (?b + k)"
    have q: "size_t_of_int (ray_index rp i j k) = ?b + k"
      using ray_size_t [OF k(2) assms(2,1,3)] by simp
    show "\<exists>M'. process_ray fl rp v i j k M = Inr M' \<and> matrix_inv rp M' (?b + Suc k)"
      using process_ray_inv [OF inv q] by simp
  qed (use assms(4) in simp_all)
  then show ?thesis by (simp add: algebra_simps)
qed

lemma channels_inv:
  fixes fl :: "real \<Rightarrow> 'f"
  assumes "i < num_views_for_system_matrix rp"
    and "Nrows_projection rp * n_channels rp * num_views_for_system_matrix rp \<le> 2 ^ 31"
    and "matrix_inv rp M (Nrows_projection rp * n_channels rp * i)"
  shows "\<exists>M'. fold_err (\<lambda>j M. fold_err (\<lambda>k M. process_ray fl rp v i j k M) [0..<Nrows_projection rp] M)
              [0..<n_channels rp] M = Inr M'
           \<and> matrix_inv rp M' (Nrows_projection rp * n_channels rp * Suc i)"
proof -
  let ?b = "Nrows_projection rp * n_channels rp * i"
  have "\<exists>M'. fold_err (\<lambda>j M. fold_err (\<lambda>k M. process_ray fl rp v i j k M) [0..<Nrows_projection rp] M)
              [0..<n_channels rp] M = Inr M'
           \<and> matrix_inv rp M' (?b + Nrows_projection rp * n_channels rp)"
  proof (rule fold_err_upt_inv [where P = "\<lambda>j M. matrix_inv rp M (?b + Nrows_projection rp * j)"])
    fix j and M :: "'f column list" assume "0 \<le> j" "j < n_channels rp" "matrix_inv rp M (?b + Nrows_projection rp * j)"
    then show "\<exists>M'. fold_err (\<lambda>k M. process_ray fl rp v i j k M) [0..<Nrows_projection rp] M = Inr M'
                 \<and> matrix_inv rp M' (?b + Nrows_projection rp * Suc j)"
      using rows_inv [OF assms(1) _ assms(2)] by blast
  qed (use assms(3) in simp_all)
  then show ?thesis by (simp add: algebra_simps)
qed

lemma column_capacity_eq:
  assumes "Readings rp * n_channels rp * Nrows_projection rp < 2 ^ 31"
  shows "column_capacity rp = Readings rp * n_channels rp * Nrows_projection rp"
proof -
  let ?n = "Readings rp * n_channels rp * Nrows_projection rp"
  have eq: "int (Readings rp) * int (n_channels rp) * int (Nrows_projection rp) = int ?n" by simp
  have "int ?n < int (2 ^ 31)" using assms by (simp only: of_nat_less_iff)
  then have s: "sint (word_of_int (int ?n) :: 32 word) = int ?n"
    by (intro sint_word_of_int_small) simp_all
  then have "unat (scast (word_of_int (int ?n) :: 32 word) :: 64 word) = nat (sint (word_of_int (int ?n) :: 32 word))"
    by (intro unat_scast_nonneg) simp
  then show ?thesis
    unfolding column_capacity_def size_t_of_int_def eq by (simp only: s nat_int)
qed

lemma init_matrix_inv: "matrix_inv rp (init_matrix rp) 0"
  by (simp add: matrix_inv_def columns_below_def init_matrix_def)

lemma generate_system_matrix_inv:
  fixes fl :: "real \<Rightarrow> 'f"
  assumes "Zffs rp \<noteq> 0 \<or> Phiffs rp \<noteq> 0"
    and "Nrows_projection rp * n_channels rp * num_views_for_system_matrix rp \<le> 2 ^ 31"
  shows "\<exists>M. generate_system_matrix fl rp = Inr M
           \<and> matrix_inv rp M (Nrows_projection rp * n_channels rp * num_views_for_system_matrix rp)"
  unfolding generate_system_matrix_def
proof (rule fold_err_upt_inv [where P = "\<lambda>i M. matrix_inv rp M (Nrows_projection rp * n_channels rp * i)"])
  fix i and M :: "'f column list" assume "0 \<le> i" "i < num_views_for_system_matrix rp"
    "matrix_inv rp M (Nrows_projection rp * n_channels rp * i)"
  moreover obtain v where "view_setup rp i = Inr v" using view_setup_ok [OF assms(1)] by blast
  ultimately show "\<exists>M'. process_view fl rp i M = Inr M'
                   \<and> matrix_inv rp M' (Nrows_projection rp * n_channels rp * Suc i)"
    using channels_inv [OF _ assms(2)] by (simp add: process_view_def)
qed (simp_all add: init_matrix_inv)

end
