(* ===== verification/Serializer.thy ===== *)
theory Serializer
  imports Accumulator
begin

text \<open>
  MatrixSerializer: the save loop of \<^verbatim>\<open>generate_system_matrix_ffs\<close>
  (\<^verbatim>\<open>src/src/generate_system_matrix_ffs.cpp\<close>, lines 188--211). Each column is
  written as its \<^verbatim>\<open>size_t\<close> entry count followed, when non-empty, by the packed
  \<^verbatim>\<open>struct pair { int index; float value; }\<close> records, and then released. The byte
  encoding of a \<^verbatim>\<open>float\<close> is a parameter \<open>enc\<close> of the model (four bytes in the
  intended layout); integers are written little-endian (the host's native order).
  The reader \<open>decode_matrix\<close> is the consumer that the spec describes, not code of the
  repository.
\<close>

section \<open>Writing\<close>

text \<open>Lines 194--205: \<^verbatim>\<open>current_pair.index = (int)pos.index()\<close>, a 32-bit \<^verbatim>\<open>int\<close>.\<close>

definition encode_pair :: "('f \<Rightarrow> 8 word list) \<Rightarrow> nat \<times> 'f \<Rightarrow> 8 word list" where
  "encode_pair enc p = le_bytes 4 (unat (word_of_nat (fst p) :: 32 word)) @ enc (snd p)"

text \<open>Lines 191--208: the count, then the pairs only when the count is positive.\<close>

definition encode_column :: "('f \<Rightarrow> 8 word list) \<Rightarrow> 'f column \<Rightarrow> 8 word list" where
  "encode_column enc c =
     (let num_nonzeros = length (col_entries c) in
      le_bytes 8 num_nonzeros @
      (if num_nonzeros > 0 then concat (map (encode_pair enc) (col_entries c)) else []))"

text \<open>Line 209: \<^verbatim>\<open>compressed_vector<float>(size, 0).swap(...)\<close> empties the column.\<close>

definition release_column :: "'f column \<Rightarrow> 'f column" where
  "release_column c = \<lparr>col_size = col_size c, col_entries = []\<rparr>"

text \<open>
  Lines 189--211: the file contents and the matrix left behind. Column \<open>i\<close> is written
  before it is released and no column is read after its release, so the loop is the two
  maps.
\<close>

fun save_matrix :: "('f \<Rightarrow> 8 word list) \<Rightarrow> 'f column list \<Rightarrow> 8 word list \<times> 'f column list" where
  "save_matrix enc [] = ([], [])"
| "save_matrix enc (c # cs) =
     (let (bytes, cs') = save_matrix enc cs in (encode_column enc c @ bytes, release_column c # cs'))"

section \<open>Reading\<close>

text \<open>
  A reader of \<^verbatim>\<open>matrix.bin\<close> that knows the number of columns (the format has no
  header): per column a little-endian \<^verbatim>\<open>uint64\<close> count, then that many
  \<^verbatim>\<open>(int32, float32)\<close> pairs; \<open>dec\<close> reads a float back from its four bytes.
\<close>

fun decode_entries ::
  "(8 word list \<Rightarrow> 'f option) \<Rightarrow> nat \<Rightarrow> 8 word list \<Rightarrow> ((int \<times> 'f) list \<times> 8 word list) option" where
  "decode_entries dec 0 bs = Some ([], bs)"
| "decode_entries dec (Suc n) bs =
     (if length bs < 8 then None
      else case dec (take 4 (drop 4 bs)) of
        None \<Rightarrow> None
      | Some v \<Rightarrow>
          (case decode_entries dec n (drop 8 bs) of
             None \<Rightarrow> None
           | Some (es, rest) \<Rightarrow>
               Some ((sint (word_of_nat (le_value (take 4 bs)) :: 32 word), v) # es, rest)))"

fun decode_matrix ::
  "(8 word list \<Rightarrow> 'f option) \<Rightarrow> nat \<Rightarrow> 8 word list \<Rightarrow> (int \<times> 'f) list list option" where
  "decode_matrix dec 0 bs = (if bs = [] then Some [] else None)"
| "decode_matrix dec (Suc m) bs =
     (if length bs < 8 then None
      else case decode_entries dec (le_value (take 8 bs)) (drop 8 bs) of
        None \<Rightarrow> None
      | Some (es, rest) \<Rightarrow>
          (case decode_matrix dec m rest of
             None \<Rightarrow> None
           | Some ess \<Rightarrow> Some (es # ess)))"

text \<open>
  A \<^verbatim>\<open>float\<close> is written as the four bytes of its IEEE-754 bit pattern; with the
  pattern as a 32-bit word, the codec the witnesses use is the little-endian encoding of
  that word.
\<close>

definition float_bytes :: "32 word \<Rightarrow> 8 word list" where
  "float_bytes w = le_bytes 4 (unat w)"

definition bytes_float :: "8 word list \<Rightarrow> 32 word option" where
  "bytes_float bs = (if length bs = 4 then Some (word_of_nat (le_value bs)) else None)"

section \<open>Properties\<close>


lemma save_matrix_eq:
  "save_matrix enc M = (concat (map (encode_column enc) M), map release_column M)"
  by (induction M) auto

lemma sint_le_value_index:
  "i < 2 ^ 31 \<Longrightarrow> sint (word_of_nat (le_value (le_bytes 4 (unat (word_of_nat i :: 32 word)))) :: 32 word) = int i"
proof -
  assume i: "i < 2 ^ 31"
  then have u: "unat (word_of_nat i :: 32 word) = i" by (simp add: unat_of_nat)
  have "i < 2 ^ (8 * 4)" using i by simp
  then have "le_value (le_bytes 4 i) = i" by (rule le_value_le_bytes_small)
  moreover have "sint (word_of_nat i :: 32 word) = int i"
    using sint_word_of_int_small [of "int i"] i by simp
  ultimately show ?thesis using u by simp
qed

lemma decode_entries_encode:
  assumes "\<And>v. dec (enc v) = Some v" "\<And>v. length (enc v) = 4"
    and "\<forall>p\<in>set es. fst p < 2 ^ 31"
  shows "decode_entries dec (length es) (concat (map (encode_pair enc) es) @ rest)
           = Some (map (\<lambda>p. (int (fst p), snd p)) es, rest)"
  using assms(3)
proof (induction es)
  case Nil
  then show ?case by simp
next
  case (Cons p es)
  let ?i = "le_bytes 4 (unat (word_of_nat (fst p) :: 32 word))"
  let ?tail = "concat (map (encode_pair enc) es) @ rest"
  have bs: "concat (map (encode_pair enc) (p # es)) @ rest = ?i @ enc (snd p) @ ?tail"
    by (simp add: encode_pair_def)
  have l: "length (?i @ enc (snd p) @ ?tail) \<ge> 8" using assms(2) by simp
  have t1: "take 4 (drop 4 (?i @ enc (snd p) @ ?tail)) = enc (snd p)"
    using assms(2) [of "snd p"] by simp
  have t2: "drop 8 (?i @ enc (snd p) @ ?tail) = ?tail"
    using assms(2) [of "snd p"] by simp
  have t3: "take 4 (?i @ enc (snd p) @ ?tail) = ?i" by simp
  have idx: "sint (word_of_nat (le_value ?i) :: 32 word) = int (fst p)"
    using Cons.prems by (simp add: sint_le_value_index)
  have IH: "decode_entries dec (length es) ?tail = Some (map (\<lambda>p. (int (fst p), snd p)) es, rest)"
    using Cons.prems by (intro Cons.IH) simp
  show ?case
    unfolding bs using l by (simp only: length_Cons decode_entries.simps t1 t2 t3 idx IH assms(1)) simp
qed



lemma encode_column_eq:
  "encode_column enc c = le_bytes 8 (length (col_entries c)) @ concat (map (encode_pair enc) (col_entries c))"
  by (simp add: encode_column_def Let_def)

lemma encode_pairs_length:
  "(\<And>v. length (enc v) = 4) \<Longrightarrow> length (concat (map (encode_pair enc) es)) = 8 * length es"
  by (induction es) (simp_all add: encode_pair_def)

lemma decode_entries_rest:
  "decode_entries dec n bs = Some (es, rest) \<Longrightarrow> rest = drop (8 * n) bs"
proof (induction n arbitrary: bs es)
  case 0
  then show ?case by simp
next
  case (Suc n)
  then obtain es' where "decode_entries dec n (drop 8 bs) = Some (es', rest)"
    by (auto split: if_splits option.splits)
  then have "rest = drop (8 * n) (drop 8 bs)" by (rule Suc.IH)
  then show ?case by (simp add: drop_drop add.commute)
qed

lemma save_matrix_record_count:
  assumes "\<And>v. length (enc v) = 4" and "\<forall>c\<in>set M. length (col_entries c) < 2 ^ 64"
    and "m \<noteq> length M"
  shows "decode_matrix dec m (fst (save_matrix enc M)) = None"
  using assms(2,3)
proof (induction M arbitrary: m)
  case Nil
  then show ?case by (cases m) simp_all
next
  case (Cons c M)
  let ?es = "col_entries c"
  let ?pairs = "concat (map (encode_pair enc) ?es)"
  let ?rest = "concat (map (encode_column enc) M)"
  have bytes: "fst (save_matrix enc (c # M)) = le_bytes 8 (length ?es) @ (?pairs @ ?rest)"
    by (simp add: save_matrix_eq encode_column_eq)
  show ?case
  proof (cases m)
    case 0
    have "le_bytes 8 (length ?es) \<noteq> []"
      by (metis length_le_bytes list.size(3) zero_neq_numeral)
    with 0 show ?thesis unfolding bytes by simp
  next
    case (Suc m')
    have n: "length ?es < 2 ^ (8 * 8)" using Cons.prems by simp
    have "decode_matrix dec m' ?rest = None"
      using Cons.IH [of m'] Cons.prems Suc by (simp add: save_matrix_eq)
    moreover have "r = ?rest" if "decode_entries dec (length ?es) (?pairs @ ?rest) = Some (es', r)" for es' r
      using decode_entries_rest [OF that] encode_pairs_length [of enc ?es, OF assms(1)] by simp
    ultimately show ?thesis
      unfolding bytes Suc using n by (auto simp: length_le_bytes split: option.splits)
  qed
qed

lemma save_matrix_decodes:
  assumes "\<And>v. dec (enc v) = Some v" "\<And>v. length (enc v) = 4"
    and "\<forall>c\<in>set M. (\<forall>p\<in>set (col_entries c). fst p < 2 ^ 31) \<and> length (col_entries c) < 2 ^ 64"
  shows "decode_matrix dec (length M) (fst (save_matrix enc M))
           = Some (map (\<lambda>c. map (\<lambda>p. (int (fst p), snd p)) (col_entries c)) M)"
  using assms(3)
proof (induction M)
  case Nil
  then show ?case by simp
next
  case (Cons c M)
  let ?es = "col_entries c"
  let ?rest = "concat (map (encode_column enc) M)"
  have n: "length ?es < 2 ^ (8 * 8)" using Cons.prems by simp
  have bytes: "fst (save_matrix enc (c # M))
      = le_bytes 8 (length ?es) @ (concat (map (encode_pair enc) ?es) @ ?rest)"
    by (simp add: save_matrix_eq encode_column_eq)
  have ent: "decode_entries dec (length ?es) (concat (map (encode_pair enc) ?es) @ ?rest)
      = Some (map (\<lambda>p. (int (fst p), snd p)) ?es, ?rest)"
    using Cons.prems by (intro decode_entries_encode assms(1,2)) simp
  have IH: "decode_matrix dec (length M) ?rest
      = Some (map (\<lambda>c. map (\<lambda>p. (int (fst p), snd p)) (col_entries c)) M)"
    using Cons.IH Cons.prems by (simp add: save_matrix_eq)
  show ?case
    unfolding bytes using n ent IH by simp
qed

text \<open>
  C18: reading \<^verbatim>\<open>matrix.bin\<close> back with the number of columns recovers every column,
  entry for entry and in order, and a reader expecting any other number of columns fails:
  the file is self-delimiting, provided the float codec round-trips, each index fits the
  32-bit \<^verbatim>\<open>int\<close> it is written as, and each count fits its \<^verbatim>\<open>size_t\<close>.
\<close>

theorem decode_matrix_save_matrix:
  assumes "\<And>v. dec (enc v) = Some v" "\<And>v. length (enc v) = 4"
    and "\<forall>c\<in>set M. (\<forall>p\<in>set (col_entries c). fst p < 2 ^ 31) \<and> length (col_entries c) < 2 ^ 64"
  shows "decode_matrix dec m (fst (save_matrix enc M))
           = (if m = length M then Some (map (\<lambda>c. map (\<lambda>p. (int (fst p), snd p)) (col_entries c)) M)
              else None)"
proof (cases "m = length M")
  case True
  then show ?thesis using save_matrix_decodes [OF assms] by simp
next
  case False
  have "\<forall>c\<in>set M. length (col_entries c) < 2 ^ 64" using assms(3) by blast
  with False show ?thesis using save_matrix_record_count [OF assms(2)] by simp
qed

lemma float_bytes_roundtrip:
  "bytes_float (float_bytes w) = Some w" "length (float_bytes w) = 4"
proof -
  have "unat w < 2 ^ (8 * 4)" using unsigned_less [of w] by simp
  then show "bytes_float (float_bytes w) = Some w"
    by (simp add: bytes_float_def float_bytes_def)
  show "length (float_bytes w) = 4" by (simp add: float_bytes_def)
qed

theorem decode_matrix_save_matrix_witness:
  "decode_matrix bytes_float 2
     (fst (save_matrix float_bytes [\<lparr>col_size = 4, col_entries = [(0, 7), (3, 9)]\<rparr>,
                                    \<lparr>col_size = 4, col_entries = []\<rparr>]))
   = Some [[(0, 7), (3, 9)], []]
   \<and> decode_matrix bytes_float 3
     (fst (save_matrix float_bytes [\<lparr>col_size = 4, col_entries = [(0, 7), (3, 9)]\<rparr>,
                                    \<lparr>col_size = 4, col_entries = []\<rparr>])) = None"
proof -
  let ?M = "[\<lparr>col_size = 4::nat, col_entries = [(0::nat, 7::32 word), (3, 9)]\<rparr>, \<lparr>col_size = 4, col_entries = []\<rparr>]"
  have h: "\<forall>c\<in>set ?M. (\<forall>p\<in>set (col_entries c). fst p < 2 ^ 31) \<and> length (col_entries c) < 2 ^ 64"
    by simp
  have "decode_matrix bytes_float m (fst (save_matrix float_bytes ?M))
     = (if m = length ?M then Some (map (\<lambda>c. map (\<lambda>p. (int (fst p), snd p)) (col_entries c)) ?M) else None)"
    for m
    using decode_matrix_save_matrix [OF float_bytes_roundtrip h] .
  from this [of 2] this [of 3] show ?thesis by simp
qed

text \<open>
  Saving releases every column: the matrix left behind has the same columns with
  the same sizes and no stored entries.
\<close>

lemma save_matrix_releases_columns:
  "snd (save_matrix enc M) = map release_column M
   \<and> map col_size (snd (save_matrix enc M)) = map col_size M
   \<and> (\<forall>c\<in>set (snd (save_matrix enc M)). col_entries c = [])"
  by (auto simp: save_matrix_eq release_column_def)


text \<open>
  C20: the file has no header and fixed-size records: with a four-byte float it is
  \<open>8 + 8 n\<close> bytes per column holding \<open>n\<close> entries.
\<close>

theorem matrix_file_length:
  assumes "\<And>v. length (enc v) = 4"
  shows "length (fst (save_matrix enc M)) = (\<Sum>c\<leftarrow>M. 8 + 8 * length (col_entries c))"
proof -
  have "length (concat (map (encode_pair enc) es)) = 8 * length es" for es
    using assms by (rule encode_pairs_length)
  then show ?thesis
    by (induction M) (simp_all add: save_matrix_eq encode_column_eq)
qed

theorem matrix_file_length_witness:
  "length (fst (save_matrix float_bytes [\<lparr>col_size = 4, col_entries = [(0, 7), (3, 9)]\<rparr>,
                                          \<lparr>col_size = 4, col_entries = []\<rparr>])) = 32"
proof -
  have "length (fst (save_matrix float_bytes [\<lparr>col_size = 4::nat, col_entries = [(0::nat, 7::32 word), (3, 9)]\<rparr>,
                                          \<lparr>col_size = 4, col_entries = []\<rparr>]))
     = (\<Sum>c\<leftarrow>[\<lparr>col_size = 4::nat, col_entries = [(0::nat, 7::32 word), (3, 9)]\<rparr>,
                 \<lparr>col_size = 4, col_entries = []\<rparr>]. 8 + 8 * length (col_entries c))"
    by (rule matrix_file_length) (rule float_bytes_roundtrip(2))
  then show ?thesis by simp
qed

end
