(* ===== verification/Generator.thy ===== *)
theory Generator
  imports Accumulator
begin

text \<open>
  The generator as a stream of push events. Every call
  \<^verbatim>\<open>system_matrix[v].push_back(q, (float) w)\<close> of the loop nest of
  \<^verbatim>\<open>generate_system_matrix_ffs\<close> (lines 58--183) is an event \<open>(q, v, w)\<close>; the events
  of all views, channels and rows in loop order form \<open>all_events\<close>. The abstract matrix
  is that stream sorted into buckets, one per voxel, each keeping the stream's order:
  \<open>columns_of\<close>. The lemmas show that the nested loops are one loop over the stream and
  that pushing the stream yields its buckets; the claims are that the generator's matrix
  is exactly the bucketed stream, that every contribution computed is recorded, and that
  nothing else is.
\<close>

section \<open>Events and buckets\<close>

type_synonym event = "nat \<times> int \<times> real"

text \<open>The pushes of one ray: its index \<open>q\<close> with each (voxel, weight) of its footprint.\<close>

definition ray_events :: "recon_params \<Rightarrow> view \<Rightarrow> nat \<Rightarrow> nat \<Rightarrow> nat \<Rightarrow> event list" where
  "ray_events rp v i j k =
     map (Pair (size_t_of_int (ray_index rp i j k))) (project_ray rp (build_ray rp v j k))"

definition view_events :: "recon_params \<Rightarrow> view \<Rightarrow> nat \<Rightarrow> event list" where
  "view_events rp v i =
     concat (map (\<lambda>j. concat (map (\<lambda>k. ray_events rp v i j k) [0..<Nrows_projection rp]))
                 [0..<n_channels rp])"

text \<open>All events in loop order; a view whose set-up fails contributes none.\<close>

definition all_events :: "recon_params \<Rightarrow> event list" where
  "all_events rp =
     concat (map (\<lambda>i. case view_setup rp i of Inl _ \<Rightarrow> [] | Inr v \<Rightarrow> view_events rp v i)
                 [0..<num_views_for_system_matrix rp])"

definition push_event :: "(real \<Rightarrow> 'f) \<Rightarrow> event \<Rightarrow> 'f column list \<Rightarrow> gen_error + 'f column list" where
  "push_event fl e M = (case e of (q, c, w) \<Rightarrow> matrix_push M c q (fl w))"

text \<open>The bucket of voxel \<open>c\<close>: its events, in stream order, as stored entries.\<close>

definition bucket :: "(real \<Rightarrow> 'f) \<Rightarrow> event list \<Rightarrow> nat \<Rightarrow> (nat \<times> 'f) list" where
  "bucket fl es c = [(q, fl w). (q, c', w) \<leftarrow> es, c' = int c]"

definition columns_of :: "(real \<Rightarrow> 'f) \<Rightarrow> nat \<Rightarrow> event list \<Rightarrow> (nat \<times> 'f) list list" where
  "columns_of fl n es = map (bucket fl es) [0..<n]"

section \<open>The loops are one loop over the stream\<close>

lemma process_ray_events:
  "process_ray fl rp v i j = (\<lambda>k. fold_err (push_event fl) (ray_events rp v i j k))"
proof -
  have body: "(\<lambda>(c, w) M. matrix_push M c q (fl w)) = (\<lambda>x. push_event fl (q, x))" for q
    by (simp add: fun_eq_iff push_event_def split: prod.split)
  show ?thesis
    unfolding process_ray_def push_all_def ray_events_def fold_err_map body by (rule refl)
qed

lemma process_view_events:
  "process_view fl rp i M =
     (case view_setup rp i of Inl e \<Rightarrow> Inl e | Inr v \<Rightarrow> fold_err (push_event fl) (view_events rp v i) M)"
  by (simp add: process_view_def view_events_def fold_err_concat fold_err_map process_ray_events
      split: sum.split)

lemma fold_err_weaken:
  assumes "\<And>x s s'. x \<in> set xs \<Longrightarrow> f x s = Inr s' \<Longrightarrow> g x s = Inr s'"
  shows "fold_err f xs s = Inr s' \<Longrightarrow> fold_err g xs s = Inr s'"
  using assms by (induction xs arbitrary: s) (auto split: sum.splits)

lemma generate_all_events:
  "generate_system_matrix fl rp = Inr M \<Longrightarrow> fold_err (push_event fl) (all_events rp) (init_matrix rp) = Inr M"
  unfolding generate_system_matrix_def all_events_def fold_err_concat fold_err_map
  by (rule fold_err_weaken) (auto simp: process_view_events split: sum.splits)

section \<open>Pushing a stream fills the buckets\<close>

lemma matrix_push_entries:
  assumes "matrix_push M v q t = Inr M'"
  shows "length M' = length M \<and> map col_size M' = map col_size M
         \<and> (\<forall>c<length M. col_entries (M' ! c) = col_entries (M ! c) @ (if int c = v then [(q, t)] else []))"
proof -
  have v: "0 \<le> v" "nat v < length M" using assms by (auto simp: matrix_push_def split: if_splits)
  obtain col where col: "push_back (M ! nat v) q t = Inr col" and M': "M' = M[nat v := col]"
    using assms v by (auto simp: matrix_push_def split: sum.splits)
  have e: "col = (M ! nat v)\<lparr>col_entries := col_entries (M ! nat v) @ [(q, t)]\<rparr>"
    using col by (simp add: push_back_def split: if_splits)
  have "map col_size M' = (map col_size M)[nat v := map col_size M ! nat v]"
    using v by (simp add: M' e map_update)
  then have "map col_size M' = map col_size M" by simp
  moreover have "col_entries (M' ! c) = col_entries (M ! c) @ (if int c = v then [(q, t)] else [])"
    if "c < length M" for c
    using that v by (cases "c = nat v") (auto simp: M' e)
  ultimately show ?thesis using M' by simp
qed

lemma push_event_simp [simp]: "push_event fl (q, c, w) M = matrix_push M c q (fl w)"
  by (simp add: push_event_def)

lemma bucket_Cons [simp]:
  "bucket fl ((q, v, w) # es) c = (if v = int c then [(q, fl w)] else []) @ bucket fl es c"
  by (simp add: bucket_def)

lemma push_events_buckets:
  "fold_err (push_event fl) es M = Inr M' \<Longrightarrow>
   length M' = length M \<and> map col_size M' = map col_size M
   \<and> (\<forall>c<length M. col_entries (M' ! c) = col_entries (M ! c) @ bucket fl es c)"
proof (induction es arbitrary: M)
  case Nil
  then show ?case by (simp add: bucket_def)
next
  case (Cons e es)
  obtain q v w where e: "e = (q, v, w)" by (cases e) auto
  obtain M1 where M1: "matrix_push M v q (fl w) = Inr M1" "fold_err (push_event fl) es M1 = Inr M'"
    using Cons.prems e by (auto split: sum.splits)
  note one = matrix_push_entries [OF M1(1)]
  note rest = Cons.IH [OF M1(2)]
  show ?case using one rest e by auto
qed

section \<open>Where the events come from\<close>

lemma ray_events_mem:
  "(q, c, w) \<in> set (ray_events rp v i j k) \<longleftrightarrow>
     q = size_t_of_int (ray_index rp i j k) \<and> (c, w) \<in> set (project_ray rp (build_ray rp v j k))"
  by (auto simp: ray_events_def)

lemma all_events_mem:
  "(q, c, w) \<in> set (all_events rp) \<longleftrightarrow>
     (\<exists>i<num_views_for_system_matrix rp. \<exists>v. view_setup rp i = Inr v \<and>
        (\<exists>j<n_channels rp. \<exists>k<Nrows_projection rp.
           q = size_t_of_int (ray_index rp i j k) \<and> (c, w) \<in> set (project_ray rp (build_ray rp v j k))))"
  unfolding all_events_def view_events_def by (force simp: ray_events_mem split: sum.splits)

lemma bucket_mem:
  "(q, t) \<in> set (bucket fl es c) \<longleftrightarrow> (\<exists>w. (q, int c, w) \<in> set es \<and> t = fl w)"
  by (auto simp: bucket_def)

lemma init_matrix_nth:
  "c < length (init_matrix rp) \<Longrightarrow> init_matrix rp ! c = \<lparr>col_size = column_capacity rp, col_entries = []\<rparr>"
  by (simp add: init_matrix_def)

text \<open>Any run that ends normally leaves exactly the bucketed stream, in full-size columns.\<close>

lemma generate_buckets:
  assumes "generate_system_matrix fl rp = Inr M"
  shows "length M = num_voxels_x rp * num_voxels_y rp \<and> list_all (\<lambda>c. col_size c = column_capacity rp) M
         \<and> map col_entries M = columns_of fl (length M) (all_events rp)"
proof -
  note b = push_events_buckets [OF generate_all_events [OF assms]]
  have len: "length M = num_voxels_x rp * num_voxels_y rp" using b by (simp add: init_matrix_def)
  have "map col_size M = replicate (length M) (column_capacity rp)"
    using b len by (simp add: init_matrix_def)
  then have "list_all (\<lambda>c. col_size c = column_capacity rp) M"
    by (simp add: list_all_iff map_replicate_const[symmetric] map_eq_conv)
  moreover have "map col_entries M = columns_of fl (length M) (all_events rp)"
    using b by (intro nth_equalityI) (simp_all add: columns_of_def init_matrix_nth)
  ultimately show ?thesis using len by blast
qed

text \<open>A stored entry of a successful run is an event of the stream for that voxel.\<close>

lemma generate_entries_mem:
  assumes "generate_system_matrix fl rp = Inr M" "c < length M"
  shows "(q, t) \<in> set (col_entries (M ! c)) \<longleftrightarrow> (\<exists>w. (q, int c, w) \<in> set (all_events rp) \<and> t = fl w)"
proof -
  have "col_entries (M ! c) = bucket fl (all_events rp) c"
    using generate_buckets [OF assms(1)] assms(2)
    by (metis (no_types, lifting) columns_of_def diff_zero length_map length_upt nth_map nth_upt plus_nat.add_0)
  then show ?thesis by (simp add: bucket_mem)
qed

lemma scenario_ray0:
  "(0, 3/4) \<in> set (project_ray scenario_params (build_ray scenario_params
     \<lparr>view_angle = - pi, view_e_w = vec (-1) 0 0, view_e_u = vec 0 (-1) 0,
    view_e_z = vec 0 0 1, ffs_source_position = vec (-1) (-1/4) 0\<rparr> 0 0))"
  by (simp add: build_ray_def direction_cosine_def transaxial_angle_def
     axial_position_def sweep_eval_defs vec_simps scenario_fields upt_numerals)

end
