(* ===== verification/Machine.thy ===== *)
theory Machine
  imports Generator
begin

text \<open>
  The loop nest of \<^verbatim>\<open>generate_system_matrix_ffs\<close> (lines 57--183) as a small-step
  machine. A state is the loop position \<open>(i, j, k)\<close> (view, channel, row of the next
  ray) with the matrix built so far, or the error that stopped the run. One step processes
  one ray, advances to the next channel or view, or fails; \<open>gen_reach\<close> collects the
  states a run passes through. The lemmas show that a loop of the fold is a sequence of
  steps, so a run reaches the outcome of \<open>generate_system_matrix\<close>, and that with an FFS
  mode and at most \<open>2^31\<close> rays every intermediate state satisfies the accumulator
  invariant for the rays processed so far (C35, by rule induction).
\<close>

datatype 'f gen_state = Gen nat nat nat "'f column list" | GenFail gen_error

text \<open>
  The steps, each guarded by the loop conditions of the code: the rays of row loop
  \<open>k\<close> (lines 97--178), the end of a row loop (the channel loop's increment, line 96),
  the end of a channel loop (the view loop's increment, line 57), and the failure of the
  view's set-up (the FFS offset, line 84) before its first ray.
\<close>

inductive gen_step :: "(real \<Rightarrow> 'f) \<Rightarrow> recon_params \<Rightarrow> 'f gen_state \<Rightarrow> 'f gen_state \<Rightarrow> bool"
  for fl :: "real \<Rightarrow> 'f" and rp :: recon_params where
  ray_ok: "\<lbrakk>i < num_views_for_system_matrix rp; view_setup rp i = Inr v; j < n_channels rp;
            k < Nrows_projection rp; process_ray fl rp v i j k M = Inr M'\<rbrakk>
           \<Longrightarrow> gen_step fl rp (Gen i j k M) (Gen i j (Suc k) M')"
| ray_fail: "\<lbrakk>i < num_views_for_system_matrix rp; view_setup rp i = Inr v; j < n_channels rp;
              k < Nrows_projection rp; process_ray fl rp v i j k M = Inl e\<rbrakk>
             \<Longrightarrow> gen_step fl rp (Gen i j k M) (GenFail e)"
| next_channel: "\<lbrakk>i < num_views_for_system_matrix rp; view_setup rp i = Inr v; j < n_channels rp\<rbrakk>
                 \<Longrightarrow> gen_step fl rp (Gen i j (Nrows_projection rp) M) (Gen i (Suc j) 0 M)"
| next_view: "\<lbrakk>i < num_views_for_system_matrix rp; view_setup rp i = Inr v\<rbrakk>
              \<Longrightarrow> gen_step fl rp (Gen i (n_channels rp) 0 M) (Gen (Suc i) 0 0 M)"
| view_fail: "\<lbrakk>i < num_views_for_system_matrix rp; view_setup rp i = Inl e\<rbrakk>
              \<Longrightarrow> gen_step fl rp (Gen i 0 0 M) (GenFail e)"

inductive gen_reach :: "(real \<Rightarrow> 'f) \<Rightarrow> recon_params \<Rightarrow> 'f gen_state \<Rightarrow> bool"
  for fl :: "real \<Rightarrow> 'f" and rp :: recon_params where
  start: "gen_reach fl rp (Gen 0 0 0 (init_matrix rp))"
| step: "gen_reach fl rp s \<Longrightarrow> gen_step fl rp s t \<Longrightarrow> gen_reach fl rp t"

text \<open>The state a finished run ends in: the error, or the position after the last view.\<close>

definition gen_outcome :: "recon_params \<Rightarrow> gen_error + 'f column list \<Rightarrow> 'f gen_state" where
  "gen_outcome rp r = (case r of Inl e \<Rightarrow> GenFail e | Inr M \<Rightarrow> Gen (num_views_for_system_matrix rp) 0 0 M)"

section \<open>Runs\<close>

lemma gen_reach_steps:
  assumes "(gen_step fl rp)\<^sup>*\<^sup>* s t" "gen_reach fl rp s"
  shows "gen_reach fl rp t"
  using assms by (induction rule: rtranclp_induct) (auto intro: gen_reach.step)


section \<open>The machine runs the fold\<close>

text \<open>The outcome of a loop, as the state it leaves: an error, or the position \<open>p\<close>.\<close>

definition loop_state :: "('f column list \<Rightarrow> 'f gen_state) \<Rightarrow> gen_error + 'f column list \<Rightarrow> 'f gen_state" where
  "loop_state p r = (case r of Inl e \<Rightarrow> GenFail e | Inr M \<Rightarrow> p M)"

lemma loop_state_simps [simp]:
  "loop_state p (Inl e) = GenFail e" "loop_state p (Inr M) = p M"
  by (simp_all add: loop_state_def)

text \<open>
  A loop \<open>[a..<b]\<close> whose body, started at position \<open>pos x M\<close> with \<open>x < b\<close>, steps to the body's
  outcome at \<open>pos (Suc x)\<close>, steps from \<open>pos a M\<close> to the loop's outcome at \<open>pos b\<close>.
\<close>

lemma loop_steps:
  assumes body: "\<And>x M. x < b \<Longrightarrow> R\<^sup>*\<^sup>* (pos x M) (loop_state (pos (Suc x)) (f x M))"
  shows "a \<le> b \<Longrightarrow> R\<^sup>*\<^sup>* (pos a M) (loop_state (pos b) (fold_err f [a..<b] M))"
proof (induction "b - a" arbitrary: a M)
  case 0
  then show ?case by simp
next
  case (Suc n)
  then have ab: "a < b" "[a..<b] = a # [Suc a..<b]" by (simp_all add: upt_conv_Cons)
  show ?case
  proof (cases "f a M")
    case (Inl e)
    then show ?thesis using body [OF ab(1), of M] ab by simp
  next
    case (Inr M1)
    have "R\<^sup>*\<^sup>* (pos (Suc a) M1) (loop_state (pos b) (fold_err f [Suc a..<b] M1))"
      using Suc ab by (intro Suc.hyps(1)) auto
    then show ?thesis using body [OF ab(1), of M] ab Inr by (simp add: rtranclp_trans)
  qed
qed

lemma rows_steps:
  assumes "i < num_views_for_system_matrix rp" "view_setup rp i = Inr v" "j < n_channels rp"
  shows "(gen_step fl rp)\<^sup>*\<^sup>* (Gen i j 0 M)
           (loop_state (Gen i j (Nrows_projection rp)) (fold_err (process_ray fl rp v i j) [0..<Nrows_projection rp] M))"
proof (rule loop_steps [where pos = "Gen i j"])
  fix k M assume k: "k < Nrows_projection rp"
  show "(gen_step fl rp)\<^sup>*\<^sup>* (Gen i j k M) (loop_state (Gen i j (Suc k)) (process_ray fl rp v i j k M))"
    using assms k by (cases "process_ray fl rp v i j k M") (auto intro: gen_step.ray_ok gen_step.ray_fail)
qed simp

lemma channels_steps:
  assumes "i < num_views_for_system_matrix rp" "view_setup rp i = Inr v"
  shows "(gen_step fl rp)\<^sup>*\<^sup>* (Gen i 0 0 M)
           (loop_state (\<lambda>M. Gen i (n_channels rp) 0 M)
              (fold_err (\<lambda>j. fold_err (process_ray fl rp v i j) [0..<Nrows_projection rp]) [0..<n_channels rp] M))"
proof (rule loop_steps [where pos = "\<lambda>j M. Gen i j 0 M"])
  fix j M assume j: "j < n_channels rp"
  note rows = rows_steps [OF assms j, of fl M]
  show "(gen_step fl rp)\<^sup>*\<^sup>* (Gen i j 0 M)
          (loop_state (\<lambda>M. Gen i (Suc j) 0 M) (fold_err (process_ray fl rp v i j) [0..<Nrows_projection rp] M))"
  proof (cases "fold_err (process_ray fl rp v i j) [0..<Nrows_projection rp] M")
    case (Inr M1)
    then have "gen_step fl rp (Gen i j (Nrows_projection rp) M1) (Gen i (Suc j) 0 M1)"
      using assms j by (intro gen_step.next_channel)
    then show ?thesis using rows Inr by simp
  qed (use rows in simp)
qed simp

lemma views_steps:
  "(gen_step fl rp)\<^sup>*\<^sup>* (Gen 0 0 0 M)
     (loop_state (\<lambda>M. Gen (num_views_for_system_matrix rp) 0 0 M)
        (fold_err (process_view fl rp) [0..<num_views_for_system_matrix rp] M))"
proof (rule loop_steps [where pos = "\<lambda>i M. Gen i 0 0 M"])
  fix i M assume i: "i < num_views_for_system_matrix rp"
  show "(gen_step fl rp)\<^sup>*\<^sup>* (Gen i 0 0 M) (loop_state (\<lambda>M. Gen (Suc i) 0 0 M) (process_view fl rp i M))"
  proof (cases "view_setup rp i")
    case (Inl e)
    then show ?thesis using i by (auto simp: process_view_def intro: gen_step.view_fail)
  next
    case (Inr v)
    note chans = channels_steps [OF i Inr, of fl M]
    show ?thesis
    proof (cases "process_view fl rp i M")
      case (Inl e)
      then show ?thesis using chans Inr by (simp add: process_view_def)
    next
      case (Inr M1)
      then have "gen_step fl rp (Gen i (n_channels rp) 0 M1) (Gen (Suc i) 0 0 M1)"
        using i \<open>view_setup rp i = Inr v\<close> by (intro gen_step.next_view)
      then show ?thesis using chans Inr \<open>view_setup rp i = Inr v\<close> by (simp add: process_view_def)
    qed
  qed
qed simp

lemma gen_outcome_loop_state:
  "gen_outcome rp r = loop_state (\<lambda>M. Gen (num_views_for_system_matrix rp) 0 0 M) r"
  by (simp add: gen_outcome_def loop_state_def)

lemma gen_runs_to_outcome:
  "(gen_step fl rp)\<^sup>*\<^sup>* (Gen 0 0 0 (init_matrix rp)) (gen_outcome rp (generate_system_matrix fl rp))"
  unfolding gen_outcome_loop_state generate_system_matrix_def by (rule views_steps)

lemma gen_reach_outcome: "gen_reach fl rp (gen_outcome rp (generate_system_matrix fl rp))"
  by (rule gen_reach_steps [OF gen_runs_to_outcome gen_reach.start])

text \<open>
  The accumulator's invariant at a loop position: the rays before \<open>(i, j, k)\<close> in loop
  order, \<^verbatim>\<open>Nrows_projection*n_channels*i + Nrows_projection*j + k\<close> of them, have been
  processed; a failed run has none.
\<close>

definition gen_safe_inv :: "recon_params \<Rightarrow> 'f gen_state \<Rightarrow> bool" where
  "gen_safe_inv rp s =
     (case s of
        Gen i j k M \<Rightarrow> matrix_inv rp M (Nrows_projection rp * n_channels rp * i + Nrows_projection rp * j + k)
      | GenFail _ \<Rightarrow> False)"

lemma gen_step_safe:
  assumes "Zffs rp \<noteq> 0 \<or> Phiffs rp \<noteq> 0"
    and "Nrows_projection rp * n_channels rp * num_views_for_system_matrix rp \<le> 2 ^ 31"
  shows "gen_step fl rp s t \<Longrightarrow> gen_safe_inv rp s \<Longrightarrow> gen_safe_inv rp t"
proof (induction rule: gen_step.induct)
  case (ray_ok i v j k M M')
  have "size_t_of_int (ray_index rp i j k)
          = Nrows_projection rp * n_channels rp * i + Nrows_projection rp * j + k"
    using ray_size_t ray_ok.hyps(1,3,4) assms(2) by blast
  then show ?case
    using process_ray_inv [of rp M _ i j k fl v] ray_ok by (auto simp: gen_safe_inv_def)
next
  case (ray_fail i v j k M e)
  have "size_t_of_int (ray_index rp i j k)
          = Nrows_projection rp * n_channels rp * i + Nrows_projection rp * j + k"
    using ray_size_t ray_fail.hyps(1,3,4) assms(2) by blast
  then show ?case
    using process_ray_inv [of rp M _ i j k fl v] ray_fail by (auto simp: gen_safe_inv_def)
next
  case (view_fail i e M)
  then show ?case using view_setup_ok [OF assms(1), of i] by simp
qed (simp_all add: gen_safe_inv_def algebra_simps)


section \<open>Properties\<close>

text \<open>
  C35: with a flying focal spot mode selected and at most \<open>2^31\<close> rays, no run of the
  loop nest ever fails, and at every position \<open>(i, j, k)\<close> it passes through the matrix
  satisfies the accumulator's invariant for the
  \<^verbatim>\<open>Nrows_projection*n_channels*i + Nrows_projection*j + k\<close> rays processed so far:
  strictly increasing ray indices, all below that count, in full-size columns.
\<close>

theorem gen_reach_safe:
  assumes "Zffs rp \<noteq> 0 \<or> Phiffs rp \<noteq> 0"
    and "Nrows_projection rp * n_channels rp * num_views_for_system_matrix rp \<le> 2 ^ 31"
  shows "gen_reach fl rp s \<Longrightarrow>
         \<exists>i j k M. s = Gen i j k M
           \<and> matrix_inv rp M (Nrows_projection rp * n_channels rp * i + Nrows_projection rp * j + k)"
proof (induction rule: gen_reach.induct)
  case start
  then show ?case using init_matrix_inv by auto
next
  case (step s t)
  have "gen_safe_inv rp s" using step.IH by (auto simp: gen_safe_inv_def)
  then have "gen_safe_inv rp t" by (rule gen_step_safe [OF assms step.hyps(2)])
  then show ?case by (simp add: gen_safe_inv_def split: gen_state.splits)
qed

theorem gen_reach_safe_witness:
  "Zffs scenario_params = 0 \<and> Phiffs scenario_params = 1
   \<and> Nrows_projection scenario_params * n_channels scenario_params * num_views_for_system_matrix scenario_params \<le> 2 ^ 31
   \<and> (\<exists>i j k M. gen_outcome scenario_params (generate_system_matrix (\<lambda>x. x) scenario_params) = Gen i j k M
         \<and> matrix_inv scenario_params M (i + j + k))"
proof -
  have h: "Zffs scenario_params \<noteq> 0 \<or> Phiffs scenario_params \<noteq> 0"
    "Nrows_projection scenario_params * n_channels scenario_params * num_views_for_system_matrix scenario_params \<le> 2 ^ 31"
    by (simp_all add: scenario_params_def)
  have z: "Zffs scenario_params = 0 \<and> Phiffs scenario_params = 1" by (simp add: scenario_params_def)
  show ?thesis
    using z h gen_reach_safe [OF h gen_reach_outcome, of "\<lambda>x. x"] by (simp add: scenario_fields)
qed

end
