(* ===== verification/Penalties.thy ===== *)
theory Penalties
  imports Prelude
begin

text \<open>
  Penalties: the in-plane regularisation of the iterative reconstruction
  (\<^verbatim>\<open>src/src/penalties.cpp\<close>). \<^verbatim>\<open>initialize_2d_weights\<close> sets up the eight
  neighbour weights; \<^verbatim>\<open>quadratic\<close> returns the closed-form pixel update of the
  quadratic penalty; \<^verbatim>\<open>edge_preserving\<close> brackets the root of the derivative
  \<^verbatim>\<open>func\<close> of the edge-preserving surrogate and bisects it with at most
  \<^verbatim>\<open>max_iterations\<close> steps. The parameter block is the record
  \<open>iterative_params\<close>; the image is the \<^verbatim>\<open>std::vector<double>\<close> as a list,
  whose unchecked \<^verbatim>\<open>operator[]\<close> out of range is the error
  \<open>VolumeIndexOutOfRange\<close>. Doubles are reals.
\<close>

section \<open>State and errors\<close>

text \<open>The fields of \<^verbatim>\<open>struct iterative_params\<close> that \<^verbatim>\<open>penalties.cpp\<close> uses.\<close>

record iterative_params =
  Nx :: int
  num_neighbors :: nat
  weights :: "real list"
  weights_scale :: real
  alpha :: real
  beta :: real
  lambda :: real
  delta :: real

datatype pen_error = VolumeIndexOutOfRange nat | ArrayIndexOutOfRange nat | MissingReturn

text \<open>Sequencing of fallible steps: the first error is the result.\<close>

definition err_bind :: "'e + 'a \<Rightarrow> ('a \<Rightarrow> 'e + 'b) \<Rightarrow> 'e + 'b" where
  "err_bind m f = (case m of Inl e \<Rightarrow> Inl e | Inr x \<Rightarrow> f x)"

text \<open>\<^verbatim>\<open>std::vector<double>::operator[]\<close> and a fixed-size C array read.\<close>

definition vol_get :: "real list \<Rightarrow> nat \<Rightarrow> pen_error + real" where
  "vol_get vol i = (if i < length vol then Inr (vol ! i) else Inl (VolumeIndexOutOfRange i))"

definition nth_err :: "'a list \<Rightarrow> nat \<Rightarrow> pen_error + 'a" where
  "nth_err xs i = (if i < length xs then Inr (xs ! i) else Inl (ArrayIndexOutOfRange i))"

text \<open>An \<^verbatim>\<open>int\<close> stored into a \<^verbatim>\<open>std::size_t\<close>: reduction modulo \<open>2^64\<close>.\<close>

definition size_t_idx :: "int \<Rightarrow> nat" where
  "size_t_idx v = nat (v mod 2 ^ 64)"

section \<open>Operations\<close>

text \<open>Line 6.\<close>

definition SQRT2 :: real where
  "SQRT2 = 1.41421356237309504880168872420969807"

text \<open>Lines 8--13.\<close>

definition sign :: "real \<Rightarrow> int" where
  "sign x = (if x < 0 then -1 else 1)"

text \<open>Lines 18--38: eight weights, \<open>1/\<surd>2\<close> on the diagonals, and their sum.\<close>

definition initialize_2d_weights :: "iterative_params \<Rightarrow> iterative_params" where
  "initialize_2d_weights ip =
     (let ip1 = ip\<lparr>num_neighbors := 8,
                   weights := [1 / SQRT2, 1, 1 / SQRT2, 1, 1, 1 / SQRT2, 1, 1 / SQRT2],
                   weights_scale := 0\<rparr>
      in ip1\<lparr>weights_scale := foldl (\<lambda>s i. s + weights ip1 ! i) (weights_scale ip1)
                                   [0..<num_neighbors ip1]\<rparr>)"

text \<open>Lines 44--53 (and 67--76): the eight in-plane neighbours of \<^verbatim>\<open>curr_idx\<close>.\<close>

definition neighbor_indices :: "int \<Rightarrow> int \<Rightarrow> nat list" where
  "neighbor_indices curr_idx nx =
     map size_t_idx
       [curr_idx - nx - 1, curr_idx - nx, curr_idx - nx + 1, curr_idx - 1,
        curr_idx + 1, curr_idx + nx - 1, curr_idx + nx, curr_idx + nx + 1]"

text \<open>\<^verbatim>\<open>recon_volume[neighbor_indices[i]] - recon_volume[curr_idx]\<close> (lines 57, 85, 118).\<close>

definition neighbor_diff :: "real list \<Rightarrow> nat list \<Rightarrow> int \<Rightarrow> nat \<Rightarrow> pen_error + real" where
  "neighbor_diff vol nbrs q i =
     err_bind (nth_err nbrs i) (\<lambda>n.
     err_bind (vol_get vol n) (\<lambda>vn.
     err_bind (vol_get vol (size_t_idx q)) (\<lambda>vq. Inr (vn - vq))))"

text \<open>Lines 40--62.\<close>

definition quadratic :: "int \<Rightarrow> iterative_params \<Rightarrow> real list \<Rightarrow> pen_error + real" where
  "quadratic curr_idx ip vol =
     (let nbrs = neighbor_indices curr_idx (Nx ip) in
      err_bind
        (fold_err (\<lambda>i sum. err_bind (nth_err (weights ip) i) (\<lambda>w.
                            err_bind (neighbor_diff vol nbrs curr_idx i) (\<lambda>d. Inr (sum + w * d))))
           [0..<num_neighbors ip] 0)
        (\<lambda>sum. Inr ((beta ip + lambda ip * sum) / (alpha ip + lambda ip * weights_scale ip))))"

text \<open>Lines 114--125: the derivative of the edge-preserving surrogate at the update \<open>du\<close>.\<close>

definition func ::
  "real \<Rightarrow> real \<Rightarrow> real \<Rightarrow> real \<Rightarrow> real \<Rightarrow> real list \<Rightarrow> real list \<Rightarrow> nat list \<Rightarrow> int \<Rightarrow> nat
   \<Rightarrow> pen_error + real" where
  "func du alpha0 beta0 delta0 lambda0 vol wgts nbrs q n =
     err_bind
       (fold_err (\<lambda>i sum. err_bind (nth_err wgts i) (\<lambda>w.
                           err_bind (neighbor_diff vol nbrs q i) (\<lambda>d.
                           (let t = du - d in
                            if t \<ge> 0 then Inr (sum + w * (1 - 1 / (1 + \<bar>t / delta0\<bar>)))
                            else Inr (sum - w * (1 - 1 / (1 + \<bar>t / delta0\<bar>)))))))
          [0..<n] 0)
       (\<lambda>sum. Inr (2 * alpha0 * du - 2 * beta0 + lambda0 * sum))"

text \<open>Lines 93--94.\<close>

definition max_iterations :: nat where
  "max_iterations = 1000000"

definition tol :: real where
  "tol = 0.00000001"

text \<open>
  Lines 96--111: the bisection loop, with the iterations left as fuel. Falling out of the
  loop reaches the end of a non-void function without a \<^verbatim>\<open>return\<close>: \<open>MissingReturn\<close>.
\<close>

fun bisect :: "(real \<Rightarrow> pen_error + real) \<Rightarrow> real \<Rightarrow> nat \<Rightarrow> real \<Rightarrow> real \<Rightarrow> pen_error + real" where
  "bisect f eps 0 a b = Inl MissingReturn"
| "bisect f eps (Suc n) a b =
     (let c = (a + b) / 2 in
      err_bind (f c) (\<lambda>f_c.
      err_bind (f a) (\<lambda>f_a.
        if f_c = 0 \<or> (b - a) / 2 < eps then Inr c
        else if sign f_c = sign f_a then bisect f eps n c b
        else bisect f eps n a c)))"

text \<open>Lines 84--91: the initial bracket, from \<open>beta / alpha\<close> and the neighbour differences.\<close>

definition bracket_step :: "real list \<Rightarrow> nat list \<Rightarrow> int \<Rightarrow> nat \<Rightarrow> real \<times> real \<Rightarrow> pen_error + real \<times> real" where
  "bracket_step vol nbrs q i ab =
     err_bind (neighbor_diff vol nbrs q i) (\<lambda>diff.
       (let a = (if diff < fst ab then diff else fst ab);
            b = (if diff > snd ab then diff else snd ab) in Inr (a, b)))"

text \<open>Lines 65--112.\<close>

definition edge_preserving :: "int \<Rightarrow> iterative_params \<Rightarrow> real list \<Rightarrow> pen_error + real" where
  "edge_preserving curr_idx ip vol =
     (let nbrs = neighbor_indices curr_idx (Nx ip) in
      if alpha ip = 0 then Inr 0
      else err_bind
             (fold_err (bracket_step vol nbrs curr_idx) [0..<num_neighbors ip]
                (beta ip / alpha ip, beta ip / alpha ip))
             (\<lambda>(a, b).
                bisect (\<lambda>du. func du (alpha ip) (beta ip) (delta ip) (lambda ip) vol (weights ip)
                                 nbrs curr_idx (num_neighbors ip))
                  tol max_iterations a b))"

section \<open>The values computed when every read is in range\<close>

text \<open>
  The reads a neighbourhood loop of \<open>n\<close> iterations makes are in range; the differences
  it reads; the per-neighbour term of \<^verbatim>\<open>func\<close> (lines 118--122) and the value
  \<^verbatim>\<open>func\<close> returns, as functions of those differences.
\<close>

definition reads_ok :: "real list \<Rightarrow> nat list \<Rightarrow> int \<Rightarrow> nat \<Rightarrow> bool" where
  "reads_ok vol nbrs q n \<longleftrightarrow>
     n \<le> length nbrs \<and> (\<forall>i<n. nbrs ! i < length vol) \<and> size_t_idx q < length vol"

definition diff_at :: "real list \<Rightarrow> nat list \<Rightarrow> int \<Rightarrow> nat \<Rightarrow> real" where
  "diff_at vol nbrs q i = vol ! (nbrs ! i) - vol ! size_t_idx q"

definition psi :: "real \<Rightarrow> real \<Rightarrow> real" where
  "psi d t = (if t \<ge> 0 then 1 - 1 / (1 + \<bar>t / d\<bar>) else - (1 - 1 / (1 + \<bar>t / d\<bar>)))"

definition func_value :: "real \<Rightarrow> real \<Rightarrow> real \<Rightarrow> real \<Rightarrow> real \<Rightarrow> real list \<Rightarrow> (nat \<Rightarrow> real) \<Rightarrow> nat \<Rightarrow> real" where
  "func_value du a b d l ws ds n = 2 * a * du - 2 * b + l * (\<Sum>i<n. ws ! i * psi d (du - ds i))"

text \<open>
  The parameter invariant \<^verbatim>\<open>initialize_2d_weights\<close> establishes: one positive weight
  per neighbour, at most the eight neighbours the index arrays hold, and
  \<^verbatim>\<open>weights_scale\<close> their sum.
\<close>

definition penalty_params_ok :: "iterative_params \<Rightarrow> bool" where
  "penalty_params_ok ip \<longleftrightarrow>
     num_neighbors ip = length (weights ip) \<and> num_neighbors ip \<le> 8
     \<and> list_all (\<lambda>w. 0 < w) (weights ip) \<and> weights_scale ip = sum_list (weights ip)"

text \<open>
  The one-voxel surrogate whose minimiser the quadratic update is: the data term
  \<open>alpha u\<^sup>2 - 2 beta u\<close> and the weighted quadratic penalty on the differences to the
  neighbours.
\<close>

definition quad_objective :: "real \<Rightarrow> real \<Rightarrow> real \<Rightarrow> real list \<Rightarrow> (nat \<Rightarrow> real) \<Rightarrow> nat \<Rightarrow> real \<Rightarrow> real" where
  "quad_objective a b l ws ds n u = a * u\<^sup>2 - 2 * b * u + l * (\<Sum>i<n. ws ! i * (u - ds i)\<^sup>2)"

text \<open>
  Shorthands for one voxel \<open>q\<close> of the image under parameters \<open>ip\<close>: its reads are in
  range; the call \<^verbatim>\<open>func(du, ...)\<close> of lines 100--101; its value as a function of the
  neighbour differences.
\<close>

abbreviation voxel_reads_ok :: "iterative_params \<Rightarrow> real list \<Rightarrow> int \<Rightarrow> bool" where
  "voxel_reads_ok ip vol q \<equiv> reads_ok vol (neighbor_indices q (Nx ip)) q (num_neighbors ip)"

abbreviation edge_func :: "iterative_params \<Rightarrow> real list \<Rightarrow> int \<Rightarrow> real \<Rightarrow> pen_error + real" where
  "edge_func ip vol q du \<equiv> func du (alpha ip) (beta ip) (delta ip) (lambda ip) vol (weights ip)
                              (neighbor_indices q (Nx ip)) q (num_neighbors ip)"

abbreviation voxel_diff :: "iterative_params \<Rightarrow> real list \<Rightarrow> int \<Rightarrow> nat \<Rightarrow> real" where
  "voxel_diff ip vol q \<equiv> diff_at vol (neighbor_indices q (Nx ip)) q"

abbreviation edge_derivative :: "iterative_params \<Rightarrow> real list \<Rightarrow> int \<Rightarrow> real \<Rightarrow> real" where
  "edge_derivative ip vol q du \<equiv> func_value du (alpha ip) (beta ip) (delta ip) (lambda ip) (weights ip)
                                    (voxel_diff ip vol q) (num_neighbors ip)"

text \<open>
  A concrete \<open>3 \<times> 3\<close> image with a single bright corner pixel, centre voxel \<open>q = 4\<close>,
  unit weights, \<open>beta = 0\<close>, \<open>delta = 1\<close>, and \<open>alpha\<close>, \<open>lambda\<close> as
  parameters: the input the witnesses evaluate.
\<close>

definition example_params :: "real \<Rightarrow> real \<Rightarrow> iterative_params" where
 "example_params a l = \<lparr>Nx = 3, num_neighbors = 8, weights = [1, 1, 1, 1, 1, 1, 1, 1], weights_scale = 8,
    alpha = a, beta = 0, lambda = l, delta = 1\<rparr>"

definition example_image :: "real list" where "example_image = [0, 0, 0, 0, 0, 0, 0, 0, 1]"

section \<open>Properties\<close>

lemma err_bind_simps [simp]:
  "err_bind (Inl e) f = Inl e" "err_bind (Inr x) f = f x"
  by (simp_all add: err_bind_def)

lemma fold_err_pure:
  "(\<And>x s. x \<in> set xs \<Longrightarrow> f x s = Inr (g x s)) \<Longrightarrow> fold_err f xs s = Inr (foldl (\<lambda>s x. g x s) s xs)"
  by (induction xs arbitrary: s) simp_all

lemma foldl_upt_sum:
  "foldl (\<lambda>s i. s + h i) s0 [0..<n] = s0 + (\<Sum>i<n. h i :: real)"
  by (induction n) simp_all

lemma neighbor_diff_ok:
  "reads_ok vol nbrs q n \<Longrightarrow> i < n \<Longrightarrow> neighbor_diff vol nbrs q i = Inr (diff_at vol nbrs q i)"
  by (simp add: reads_ok_def neighbor_diff_def nth_err_def vol_get_def diff_at_def)

lemma func_ok:
  assumes "reads_ok vol nbrs q n" "n \<le> length wgts"
  shows "func du a b d l vol wgts nbrs q n = Inr (func_value du a b d l wgts (diff_at vol nbrs q) n)"
proof -
  have "fold_err (\<lambda>i sum. err_bind (nth_err wgts i) (\<lambda>w.
           err_bind (neighbor_diff vol nbrs q i) (\<lambda>d'.
           (let t = du - d' in
            if t \<ge> 0 then Inr (sum + w * (1 - 1 / (1 + \<bar>t / d\<bar>)))
            else Inr (sum - w * (1 - 1 / (1 + \<bar>t / d\<bar>)))))))
          [0..<n] 0
        = Inr (foldl (\<lambda>s i. s + wgts ! i * psi d (du - diff_at vol nbrs q i)) 0 [0..<n])"
    using assms by (intro fold_err_pure) (auto simp: nth_err_def neighbor_diff_ok psi_def Let_def algebra_simps)
  then show ?thesis by (simp add: func_def func_value_def foldl_upt_sum)
qed

lemma quadratic_ok:
  assumes "reads_ok vol (neighbor_indices q (Nx ip)) q (num_neighbors ip)"
    and "num_neighbors ip \<le> length (weights ip)"
  shows "quadratic q ip vol =
    Inr ((beta ip + lambda ip * (\<Sum>i<num_neighbors ip. weights ip ! i * diff_at vol (neighbor_indices q (Nx ip)) q i))
         / (alpha ip + lambda ip * weights_scale ip))"
proof -
  let ?nb = "neighbor_indices q (Nx ip)"
  have "fold_err (\<lambda>i sum. err_bind (nth_err (weights ip) i) (\<lambda>w.
           err_bind (neighbor_diff vol ?nb q i) (\<lambda>d. Inr (sum + w * d)))) [0..<num_neighbors ip] 0
        = Inr (foldl (\<lambda>s i. s + weights ip ! i * diff_at vol ?nb q i) 0 [0..<num_neighbors ip])"
    using assms by (intro fold_err_pure) (auto simp: nth_err_def neighbor_diff_ok)
  then show ?thesis by (simp add: quadratic_def foldl_upt_sum)
qed

lemma psi_eq:
  assumes "d \<noteq> 0"
  shows "psi d t = t / (\<bar>d\<bar> + \<bar>t\<bar>)"
proof -
  have D: "0 < \<bar>d\<bar>" using assms by simp
  have "1 - 1 / (1 + \<bar>t\<bar> / \<bar>d\<bar>) = \<bar>t\<bar> / (\<bar>d\<bar> + \<bar>t\<bar>)"
    using D by (simp add: field_simps)
  then show ?thesis
    by (auto simp: psi_def abs_divide)
qed

lemma psi_mono:
  assumes "d \<noteq> 0" "s \<le> t"
  shows "psi d s \<le> psi d t"
proof -
  let ?D = "\<bar>d\<bar>"
  have D: "0 < ?D" using assms(1) by simp
  have "s * (?D + \<bar>t\<bar>) \<le> t * (?D + \<bar>s\<bar>)"
  proof (cases "0 \<le> s")
    case True
    then show ?thesis using assms(2) D by (simp add: algebra_simps mult_right_mono)
  next
    case False
    show ?thesis
    proof (cases "0 \<le> t")
      case True
      have "s * (?D + \<bar>t\<bar>) \<le> 0" using False D by (simp add: mult_nonpos_nonneg)
      moreover have "0 \<le> t * (?D + \<bar>s\<bar>)" using True D by simp
      ultimately show ?thesis by linarith
    next
      case neg: False
      then show ?thesis using False assms(2) D by (simp add: algebra_simps mult_right_mono)
    qed
  qed
  moreover have "0 < ?D + \<bar>t\<bar>" "0 < ?D + \<bar>s\<bar>" using D by simp_all
  ultimately have "s / (?D + \<bar>s\<bar>) \<le> t / (?D + \<bar>t\<bar>)"
    by (simp add: field_simps)
  then show ?thesis using assms(1) by (simp add: psi_eq)
qed

lemma psi_sign:
  assumes "d \<noteq> 0"
  shows "psi d t \<le> 0 \<longleftrightarrow> t \<le> 0" "0 \<le> psi d t \<longleftrightarrow> 0 \<le> t" "psi d t = 0 \<longleftrightarrow> t = 0"
proof -
  have D: "0 < \<bar>d\<bar> + \<bar>t\<bar>" using assms by (simp add: add_pos_nonneg)
  show "psi d t \<le> 0 \<longleftrightarrow> t \<le> 0" "0 \<le> psi d t \<longleftrightarrow> 0 \<le> t" "psi d t = 0 \<longleftrightarrow> t = 0"
    using D assms by (simp_all add: psi_eq divide_le_0_iff zero_le_divide_iff)
qed

lemma func_value_psi:
  "d \<noteq> 0 \<Longrightarrow> func_value du a b d l ws ds n =
     2 * a * du - 2 * b + l * (\<Sum>i<n. ws ! i * ((du - ds i) / (\<bar>d\<bar> + \<bar>du - ds i\<bar>)))"
  by (simp add: func_value_def psi_eq)

lemma func_value_isCont:
  assumes "d \<noteq> 0"
  shows "isCont (\<lambda>du. func_value du a b d l ws ds n) x"
proof -
  have "isCont (\<lambda>du. 2 * a * du - 2 * b + l * (\<Sum>i<n. ws ! i * ((du - ds i) / (\<bar>d\<bar> + \<bar>du - ds i\<bar>)))) x"
    using assms by (intro continuous_intros) (auto simp: add_nonneg_eq_0_iff)
  then show ?thesis using assms by (simp add: func_value_psi)
qed

lemma func_value_mono:
  assumes "0 \<le> l" "\<forall>i<n. 0 \<le> ws ! i" "d \<noteq> 0" "x \<le> y"
  shows "l * (\<Sum>i<n. ws ! i * psi d (x - ds i)) \<le> l * (\<Sum>i<n. ws ! i * psi d (y - ds i))"
proof -
  have "(\<Sum>i<n. ws ! i * psi d (x - ds i)) \<le> (\<Sum>i<n. ws ! i * psi d (y - ds i))"
    using assms(2-4) by (intro sum_mono mult_left_mono psi_mono) auto
  then show ?thesis using assms(1) by (rule mult_left_mono)
qed

lemma func_value_strict_mono:
  assumes "0 < a" "0 \<le> l" "\<forall>i<n. 0 \<le> ws ! i" "d \<noteq> 0" "x < y"
  shows "func_value x a b d l ws ds n < func_value y a b d l ws ds n"
proof -
  have "2 * a * x < 2 * a * y" using assms(1,5) by simp
  then show ?thesis
    using func_value_mono [OF assms(2-4), of x y ds] assms(5) by (simp add: func_value_def)
qed

lemma bisect_pure_Suc:
  "bisect (\<lambda>x. Inr (g x)) eps (Suc n) a b =
     (let c = (a + b) / 2 in
      if g c = 0 \<or> (b - a) / 2 < eps then Inr c
      else if sign (g c) = sign (g a) then bisect (\<lambda>x. Inr (g x)) eps n c b
      else bisect (\<lambda>x. Inr (g x)) eps n a c)"
  by (simp add: Let_def)

lemma sign_neg_iff: "g < 0 \<Longrightarrow> sign h = sign g \<longleftrightarrow> h < 0"
  by (simp add: sign_def)

lemma bisect_degenerate: "0 < eps \<Longrightarrow> bisect (\<lambda>x. Inr (g x)) eps (Suc n) a a = Inr a"
  by (simp add: Let_def)

lemma bisect_returns:
  assumes "a \<le> b" "b - a < 2 * eps * 2 ^ n"
  shows "\<exists>c. bisect (\<lambda>x. Inr (g x)) eps (Suc n) a b = Inr c"
  using assms
proof (induction n arbitrary: a b)
  case 0
  then have "bisect (\<lambda>x. Inr (g x)) eps (Suc 0) a b = Inr ((a + b) / 2)" by (simp add: Let_def)
  then show ?case by blast
next
  case (Suc n)
  let ?c = "(a + b) / 2"
  have w: "b - ?c < 2 * eps * 2 ^ n" "?c - a < 2 * eps * 2 ^ n"
    using Suc.prems(2) by (simp_all add: field_simps)
  obtain c1 c2 where c1: "bisect (\<lambda>x. Inr (g x)) eps (Suc n) ?c b = Inr c1"
    and c2: "bisect (\<lambda>x. Inr (g x)) eps (Suc n) a ?c = Inr c2"
    using Suc.IH [of ?c b] Suc.IH [of a ?c] w Suc.prems(1) by auto
  show ?case
  proof (cases "g ?c = 0 \<or> (b - a) / 2 < eps")
    case True
    then have "bisect (\<lambda>x. Inr (g x)) eps (Suc (Suc n)) a b = Inr ?c" by (simp add: Let_def)
    then show ?thesis by blast
  next
    case False
    then have "bisect (\<lambda>x. Inr (g x)) eps (Suc (Suc n)) a b =
        (if sign (g ?c) = sign (g a) then Inr c1 else Inr c2)"
      using c1 c2 by (simp add: Let_def)
    then show ?thesis by (cases "sign (g ?c) = sign (g a)") simp_all
  qed
qed

lemma bisect_bracket:
  assumes "g a < 0" "0 \<le> g b" "a \<le> b" "bisect (\<lambda>x. Inr (g x)) eps n a b = Inr c"
  shows "g c = 0 \<or> (\<exists>a' b'. a \<le> a' \<and> a' \<le> b' \<and> b' \<le> b \<and> c = (a' + b') / 2
                       \<and> b' - a' < 2 * eps \<and> g a' < 0 \<and> 0 \<le> g b')"
  using assms
proof (induction n arbitrary: a b)
  case 0
  then show ?case by simp
next
  case (Suc n)
  let ?c = "(a + b) / 2"
  show ?case
  proof (cases "g ?c = 0 \<or> (b - a) / 2 < eps")
    case True
    then have "c = ?c" using Suc.prems(4) by (simp add: Let_def)
    with True Suc.prems(1-3) show ?thesis by force
  next
    case ret: False
    show ?thesis
    proof (cases "g ?c < 0")
      case True
      then have "bisect (\<lambda>x. Inr (g x)) eps n ?c b = Inr c"
        using Suc.prems(1,4) ret by (simp add: Let_def sign_neg_iff)
      then have "g c = 0 \<or> (\<exists>a' b'. ?c \<le> a' \<and> a' \<le> b' \<and> b' \<le> b \<and> c = (a' + b') / 2
                       \<and> b' - a' < 2 * eps \<and> g a' < 0 \<and> 0 \<le> g b')"
        using Suc.IH [of ?c b] True Suc.prems(2,3) by simp
      moreover have "a \<le> ?c" using Suc.prems(3) by simp
      ultimately show ?thesis by (blast intro: order_trans)
    next
      case False
      then have "bisect (\<lambda>x. Inr (g x)) eps n a ?c = Inr c"
        using Suc.prems(1,4) ret by (simp add: Let_def sign_neg_iff)
      then have "g c = 0 \<or> (\<exists>a' b'. a \<le> a' \<and> a' \<le> b' \<and> b' \<le> ?c \<and> c = (a' + b') / 2
                       \<and> b' - a' < 2 * eps \<and> g a' < 0 \<and> 0 \<le> g b')"
        using Suc.IH [of a ?c] False Suc.prems(1,3) by simp
      moreover have "?c \<le> b" using Suc.prems(3) by simp
      ultimately show ?thesis by (blast intro: order_trans)
    qed
  qed
qed

lemma bisect_root:
  assumes mono: "\<And>x y. x < y \<Longrightarrow> g x < g y" and r: "g r = 0" and eps: "0 < eps"
    and "g a < 0" "0 \<le> g b" "a \<le> b" "bisect (\<lambda>x. Inr (g x)) eps n a b = Inr c"
  shows "\<bar>c - r\<bar> < eps"
proof -
  have inj: "g x = 0 \<Longrightarrow> x = r" for x
    using mono [of x r] mono [of r x] r by (cases x r rule: linorder_cases) auto
  from bisect_bracket [OF assms(4-7)] show ?thesis
  proof (elim disjE exE conjE)
    assume "g c = 0"
    then show ?thesis using inj eps by simp
  next
    fix a' b' assume c: "c = (a' + b') / 2" and w: "b' - a' < 2 * eps" and ga: "g a' < 0" and gb: "0 \<le> g b'"
    have "a' < r" using mono [of r a'] ga r by (cases "a' < r") (auto simp: not_less order.order_iff_strict)
    moreover have "r \<le> b'" using mono [of b' r] gb r by (cases "r \<le> b'") auto
    ultimately show ?thesis using c w by (simp add: abs_less_iff field_simps)
  qed
qed


lemma bracket_fold:
  assumes "reads_ok vol nbrs q n"
  shows "\<exists>a b. fold_err (bracket_step vol nbrs q) [0..<n] (x, x) = Inr (a, b)
           \<and> a \<le> x \<and> x \<le> b \<and> (\<forall>i<n. a \<le> diff_at vol nbrs q i \<and> diff_at vol nbrs q i \<le> b)
           \<and> (a = x \<or> (\<exists>i<n. a = diff_at vol nbrs q i)) \<and> (b = x \<or> (\<exists>i<n. b = diff_at vol nbrs q i))"
proof -
  let ?d = "diff_at vol nbrs q"
  let ?P = "\<lambda>k ab. fst ab \<le> x \<and> x \<le> snd ab \<and> (\<forall>i<k. fst ab \<le> ?d i \<and> ?d i \<le> snd ab)
                   \<and> (fst ab = x \<or> (\<exists>i<k. fst ab = ?d i)) \<and> (snd ab = x \<or> (\<exists>i<k. snd ab = ?d i))"
  have "\<exists>s'. fold_err (bracket_step vol nbrs q) [0..<n] (x, x) = Inr s' \<and> ?P n s'"
  proof (rule fold_err_upt_inv)
    fix k ab assume k: "k < n" and P: "?P k ab"
    have step: "bracket_step vol nbrs q k ab =
        Inr (if ?d k < fst ab then ?d k else fst ab, if ?d k > snd ab then ?d k else snd ab)"
      using assms k by (simp add: bracket_step_def neighbor_diff_ok Let_def)
    have "?P (Suc k) (if ?d k < fst ab then ?d k else fst ab, if ?d k > snd ab then ?d k else snd ab)"
      using P by (auto simp: less_Suc_eq)
    then show "\<exists>s'. bracket_step vol nbrs q k ab = Inr s' \<and> ?P (Suc k) s'"
      using step by blast
  qed simp_all
  then show ?thesis by fastforce
qed

lemma func_value_at_lower:
  assumes "0 < a" "0 \<le> l" "\<forall>i<n. 0 \<le> ws ! i" "d \<noteq> 0" "x \<le> b / a" "\<forall>i<n. x \<le> ds i"
  shows "func_value x a b d l ws ds n \<le> 0"
proof -
  have "2 * a * x - 2 * b \<le> 0" using assms(1,5) by (simp add: le_divide_eq mult.commute)
  moreover have "(\<Sum>i<n. ws ! i * psi d (x - ds i)) \<le> 0"
    using assms(3,4,6) by (intro sum_nonpos mult_nonneg_nonpos) (auto simp: psi_sign)
  then have "l * (\<Sum>i<n. ws ! i * psi d (x - ds i)) \<le> 0"
    using assms(2) by (simp add: mult_nonneg_nonpos)
  ultimately show ?thesis by (simp add: func_value_def)
qed

lemma func_value_at_upper:
  assumes "0 < a" "0 \<le> l" "\<forall>i<n. 0 \<le> ws ! i" "d \<noteq> 0" "b / a \<le> x" "\<forall>i<n. ds i \<le> x"
  shows "0 \<le> func_value x a b d l ws ds n"
proof -
  have "0 \<le> 2 * a * x - 2 * b" using assms(1,5) by (simp add: divide_le_eq mult.commute)
  moreover have "0 \<le> (\<Sum>i<n. ws ! i * psi d (x - ds i))"
    using assms(3,4,6) by (intro sum_nonneg mult_nonneg_nonneg) (auto simp: psi_sign)
  then have "0 \<le> l * (\<Sum>i<n. ws ! i * psi d (x - ds i))"
    using assms(2) by simp
  ultimately show ?thesis by (simp add: func_value_def)
qed

lemma func_value_below_upper:
  assumes "0 < a" "0 < l" "\<forall>i<n. 0 < ws ! i" "d \<noteq> 0" "x \<le> b / a" "\<forall>i<n. x \<le> ds i"
    and "x < y" "y = b / a \<or> (\<exists>i<n. y = ds i)"
  shows "func_value x a b d l ws ds n < 0"
proof -
  let ?S = "\<Sum>i<n. ws ! i * psi d (x - ds i)"
  have S: "?S \<le> 0"
    using assms(3,4,6) by (intro sum_nonpos mult_nonneg_nonpos) (auto simp: psi_sign less_imp_le)
  have A: "2 * a * x - 2 * b \<le> 0" using assms(1,5) by (simp add: le_divide_eq mult.commute)
  from assms(8) show ?thesis
  proof
    assume "y = b / a"
    then have "2 * a * x - 2 * b < 0" using assms(1,7) by (simp add: less_divide_eq mult.commute)
    moreover have "l * ?S \<le> 0" using S assms(2) by (simp add: mult_nonneg_nonpos)
    ultimately show ?thesis by (simp add: func_value_def)
  next
    assume "\<exists>i<n. y = ds i"
    then obtain j where j: "j < n" "y = ds j" by blast
    have "x - ds j < 0" using assms(7) j(2) by simp
    then have "psi d (x - ds j) \<le> 0" "psi d (x - ds j) \<noteq> 0"
      using psi_sign [OF assms(4), of "x - ds j"] by simp_all
    then have neg: "ws ! j * psi d (x - ds j) < 0"
      using assms(3) j(1) by (simp add: mult_pos_neg)
    have "?S = ws ! j * psi d (x - ds j) + (\<Sum>i\<in>{..<n} - {j}. ws ! i * psi d (x - ds i))"
      using j(1) by (simp add: sum.remove)
    moreover have "(\<Sum>i\<in>{..<n} - {j}. ws ! i * psi d (x - ds i)) \<le> 0"
      using assms(3,4,6) by (intro sum_nonpos mult_nonneg_nonpos) (auto simp: psi_sign less_imp_le)
    ultimately have "?S < 0" using neg by linarith
    then have "l * ?S < 0" using assms(2) by (simp add: mult_pos_neg)
    with A show ?thesis by (simp add: func_value_def)
  qed
qed

lemma fuel_enough: "(2::real) ^ 27 < 2 * tol * 2 ^ (max_iterations - 1)"
proof -
  have "(2::real) ^ 70 \<le> 2 ^ (max_iterations - 1)"
    by (intro power_increasing) (simp_all add: max_iterations_def)
  moreover have "(2::real) ^ 27 < 2 * tol * 2 ^ 70" by (simp add: tol_def)
  moreover have "0 < 2 * tol" by (simp add: tol_def)
  ultimately show ?thesis by (meson less_le_trans mult_left_mono less_imp_le)
qed

lemma SQRT2_pos: "0 < SQRT2"
  by (simp add: SQRT2_def)

text \<open>
  C21: \<^verbatim>\<open>initialize_2d_weights\<close> sets eight positive weights, \<open>1/\<surd>2\<close> on the
  diagonals and \<open>1\<close> on the axes, and \<^verbatim>\<open>weights_scale\<close> to their sum
  \<open>4 + 4/\<surd>2\<close>; the invariant \<open>penalty_params_ok\<close> holds afterwards, whatever the
  record held before, and the other parameters are untouched.
\<close>

theorem initialize_2d_weights_ok:
  "penalty_params_ok (initialize_2d_weights ip) \<and> num_neighbors (initialize_2d_weights ip) = 8
   \<and> weights_scale (initialize_2d_weights ip) = 4 + 4 / SQRT2
   \<and> Nx (initialize_2d_weights ip) = Nx ip \<and> alpha (initialize_2d_weights ip) = alpha ip
   \<and> beta (initialize_2d_weights ip) = beta ip \<and> lambda (initialize_2d_weights ip) = lambda ip
   \<and> delta (initialize_2d_weights ip) = delta ip"
proof -
  have "[0..<8] = [0, 1, 2, 3, 4, 5, 6, 7::nat]" by (simp add: upt_rec)
  moreover have "0 < 1 / SQRT2" using SQRT2_pos by simp
  ultimately show ?thesis
    by (simp add: initialize_2d_weights_def penalty_params_ok_def)
qed

lemma size_t_idx_small: "0 \<le> v \<Longrightarrow> v < 2 ^ 64 \<Longrightarrow> size_t_idx v = nat v"
  by (simp add: size_t_idx_def)

lemma reads_ok_all:
  "reads_ok vol nbrs q (length nbrs) \<longleftrightarrow> (\<forall>n\<in>set nbrs. n < length vol) \<and> size_t_idx q < length vol"
  by (auto simp: reads_ok_def all_set_conv_all_nth)

text \<open>
  C22: for a voxel away from the first and last image rows (\<open>Nx + 1 \<le> q\<close> and
  \<open>q + Nx + 1 < size\<close>), the eight indices are the in-plane neighbourhood
  \<open>q \<plusminus> Nx \<plusminus> 1\<close> of \<open>q\<close> with no \<^verbatim>\<open>size_t\<close> wrap-around, and every read the
  penalty loops make is inside the image.
\<close>

theorem neighbor_indices_interior:
  assumes "1 \<le> nx" "nx + 1 \<le> q" "q + nx + 1 < int (length vol)" "length vol \<le> 2 ^ 64"
  shows "neighbor_indices q nx =
           map nat [q - nx - 1, q - nx, q - nx + 1, q - 1, q + 1, q + nx - 1, q + nx, q + nx + 1]
         \<and> reads_ok vol (neighbor_indices q nx) q 8"
proof -
  have "int (length vol) \<le> int (2 ^ 64)" using assms(4) by (simp only: of_nat_le_iff)
  then have L: "int (length vol) \<le> 2 ^ 64" by simp
  have eq: "neighbor_indices q nx =
           map nat [q - nx - 1, q - nx, q - nx + 1, q - 1, q + 1, q + nx - 1, q + nx, q + nx + 1]"
    using assms(1-3) L by (simp add: neighbor_indices_def size_t_idx_small)
  have "(\<forall>n\<in>set (neighbor_indices q nx). n < length vol) \<and> size_t_idx q < length vol"
    using assms(1-3) L by (simp add: eq size_t_idx_small nat_less_iff)
  then have "reads_ok vol (neighbor_indices q nx) q (length (neighbor_indices q nx))"
    using reads_ok_all by blast
  moreover have "length (neighbor_indices q nx) = 8" by (simp add: neighbor_indices_def)
  ultimately have "reads_ok vol (neighbor_indices q nx) q 8" by (simp only:)
  with eq show ?thesis by blast
qed

text \<open>
  C23: the penalties do not handle the image border. For a voxel of the first row
  (\<open>0 \<le> q < Nx + 1\<close>) the first neighbour index \<open>q - Nx - 1\<close> is negative and wraps,
  as a \<^verbatim>\<open>size_t\<close>, to \<open>2^64 + q - Nx - 1\<close>, and \<^verbatim>\<open>quadratic\<close> reads the image
  there: an out-of-range \<^verbatim>\<open>operator[]\<close>.
\<close>

theorem quadratic_first_row_error:
  assumes "0 \<le> q" "q < nx + 1" "int (length vol) + nx + 1 \<le> 2 ^ 64"
    and "Nx ip = nx" "0 < num_neighbors ip" "weights ip \<noteq> []"
  shows "quadratic q ip vol = Inl (VolumeIndexOutOfRange (nat (2 ^ 64 + q - nx - 1)))"
proof -
  have "(q - nx - 1) mod 2 ^ 64 = (q - nx - 1 + 2 ^ 64) mod 2 ^ 64" by (rule mod_add_self2 [symmetric])
  also have "\<dots> = q - nx - 1 + 2 ^ 64"
    using assms(1-3) by (intro mod_pos_pos_trivial) simp_all
  finally have s: "size_t_idx (q - nx - 1) = nat (2 ^ 64 + q - nx - 1)"
    by (simp add: size_t_idx_def add.commute)
  have out: "\<not> nat (2 ^ 64 + q - nx - 1) < length vol"
    using assms(1,3) by simp
  have nb0: "neighbor_indices q nx ! 0 = nat (2 ^ 64 + q - nx - 1)"
    using s by (simp add: neighbor_indices_def)
  have "neighbor_diff vol (neighbor_indices q nx) q 0 = Inl (VolumeIndexOutOfRange (nat (2 ^ 64 + q - nx - 1)))"
    using nb0 out by (simp add: neighbor_diff_def nth_err_def vol_get_def neighbor_indices_def)
  moreover have "[0..<num_neighbors ip] = 0 # [1..<num_neighbors ip]"
    using assms(5) by (simp add: upt_conv_Cons)
  ultimately show ?thesis
    using assms(4,6) by (simp add: quadratic_def nth_err_def)
qed

lemma weighted_square_sum:
  "(\<Sum>i<n. ws ! i * (u - ds i)\<^sup>2)
     = (\<Sum>i<n. ws ! i) * u\<^sup>2 - 2 * (\<Sum>i<n. ws ! i * ds i) * u + (\<Sum>i<n. ws ! i * (ds i)\<^sup>2 :: real)"
proof -
  have "ws ! i * (u - ds i)\<^sup>2 = ws ! i * u\<^sup>2 - 2 * u * (ws ! i * ds i) + ws ! i * (ds i)\<^sup>2" for i
    by (simp add: power2_diff algebra_simps)
  then show ?thesis
    by (simp add: sum.distrib sum_subtractf sum_distrib_left sum_distrib_right mult.commute mult.left_commute)
qed

lemma quad_objective_expand:
  "quad_objective a b l ws ds n u =
     (a + l * (\<Sum>i<n. ws ! i)) * u\<^sup>2 - 2 * (b + l * (\<Sum>i<n. ws ! i * ds i)) * u
     + l * (\<Sum>i<n. ws ! i * (ds i)\<^sup>2)"
  unfolding quad_objective_def weighted_square_sum by (simp add: algebra_simps)

lemma parabola_vertex:
  fixes A B C v :: real
  assumes "0 < A"
  shows "(A * v\<^sup>2 - 2 * B * v + C) - (A * (B / A)\<^sup>2 - 2 * B * (B / A) + C) = A * (v - B / A)\<^sup>2"
proof -
  have "A * (B / A)\<^sup>2 = B * (B / A)" using assms by (simp add: power2_eq_square)
  moreover have "A * (v - B / A)\<^sup>2 = A * v\<^sup>2 - 2 * B * v + B * (B / A)"
    using assms by (simp add: power2_eq_square algebra_simps)
  ultimately show ?thesis by simp
qed

lemma params_weights_scale:
  "penalty_params_ok ip \<Longrightarrow> weights_scale ip = (\<Sum>i<num_neighbors ip. weights ip ! i)"
  by (simp add: penalty_params_ok_def sum_list_sum_nth atLeast0LessThan)

lemma params_weights_pos:
  "penalty_params_ok ip \<Longrightarrow> \<forall>i<num_neighbors ip. 0 < weights ip ! i"
  by (simp add: penalty_params_ok_def list_all_length)

text \<open>
  C24: the quadratic-penalty update is the exact minimiser of the one-voxel quadratic
  surrogate \<open>alpha u\<^sup>2 - 2 beta u + lambda \<Sum> w\<^sub>i (u - d\<^sub>i)\<^sup>2\<close> over the
  neighbour differences \<open>d\<^sub>i\<close>, whenever its denominator
  \<open>alpha + lambda weights_scale\<close> is positive and every read is in range.
\<close>

theorem quadratic_minimizes:
  assumes ok: "penalty_params_ok ip"
    and rd: "reads_ok vol (neighbor_indices q (Nx ip)) q (num_neighbors ip)"
    and pos: "0 < alpha ip + lambda ip * weights_scale ip"
  shows "\<exists>u. quadratic q ip vol = Inr u
           \<and> (\<forall>v. quad_objective (alpha ip) (beta ip) (lambda ip) (weights ip)
                      (diff_at vol (neighbor_indices q (Nx ip)) q) (num_neighbors ip) u
                  \<le> quad_objective (alpha ip) (beta ip) (lambda ip) (weights ip)
                      (diff_at vol (neighbor_indices q (Nx ip)) q) (num_neighbors ip) v)"
proof -
  let ?ds = "diff_at vol (neighbor_indices q (Nx ip)) q" and ?n = "num_neighbors ip"
  let ?A = "alpha ip + lambda ip * weights_scale ip"
  let ?B = "beta ip + lambda ip * (\<Sum>i<?n. weights ip ! i * ?ds i)"
  let ?f = "quad_objective (alpha ip) (beta ip) (lambda ip) (weights ip) ?ds ?n"
  have le: "?n \<le> length (weights ip)" using ok by (simp add: penalty_params_ok_def)
  have u: "quadratic q ip vol = Inr (?B / ?A)" using quadratic_ok [OF rd le] by simp
  have f: "?f v = ?A * v\<^sup>2 - 2 * ?B * v + lambda ip * (\<Sum>i<?n. weights ip ! i * (?ds i)\<^sup>2)" for v
    by (simp only: quad_objective_expand params_weights_scale [OF ok])
  have "?f (?B / ?A) \<le> ?f v" for v
  proof -
    have "?f v - ?f (?B / ?A) = ?A * (v - ?B / ?A)\<^sup>2"
      unfolding f by (rule parabola_vertex [OF pos])
    moreover have "0 \<le> ?A * (v - ?B / ?A)\<^sup>2" using pos by simp
    ultimately show ?thesis by linarith
  qed
  with u show ?thesis by blast
qed

lemma params_len: "penalty_params_ok ip \<Longrightarrow> num_neighbors ip \<le> length (weights ip)"
  by (simp add: penalty_params_ok_def)

lemma edge_func_ok:
  "penalty_params_ok ip \<Longrightarrow> voxel_reads_ok ip vol q \<Longrightarrow> edge_func ip vol q du = Inr (edge_derivative ip vol q du)"
  by (rule func_ok) (simp_all add: params_len)

lemma edge_preserving_as_bisect:
  assumes "alpha ip \<noteq> 0" "penalty_params_ok ip" "voxel_reads_ok ip vol q"
  shows "\<exists>A B. edge_preserving q ip vol = bisect (\<lambda>du. Inr (edge_derivative ip vol q du)) tol max_iterations A B
           \<and> A \<le> beta ip / alpha ip \<and> beta ip / alpha ip \<le> B
           \<and> (\<forall>i<num_neighbors ip. A \<le> voxel_diff ip vol q i \<and> voxel_diff ip vol q i \<le> B)
           \<and> (A = beta ip / alpha ip \<or> (\<exists>i<num_neighbors ip. A = voxel_diff ip vol q i))
           \<and> (B = beta ip / alpha ip \<or> (\<exists>i<num_neighbors ip. B = voxel_diff ip vol q i))"
proof -
  obtain A B where fold: "fold_err (bracket_step vol (neighbor_indices q (Nx ip)) q) [0..<num_neighbors ip]
        (beta ip / alpha ip, beta ip / alpha ip) = Inr (A, B)"
    and props: "A \<le> beta ip / alpha ip \<and> beta ip / alpha ip \<le> B
           \<and> (\<forall>i<num_neighbors ip. A \<le> voxel_diff ip vol q i \<and> voxel_diff ip vol q i \<le> B)
           \<and> (A = beta ip / alpha ip \<or> (\<exists>i<num_neighbors ip. A = voxel_diff ip vol q i))
           \<and> (B = beta ip / alpha ip \<or> (\<exists>i<num_neighbors ip. B = voxel_diff ip vol q i))"
    using bracket_fold [OF assms(3), of "beta ip / alpha ip"] by blast
  have "edge_preserving q ip vol = bisect (\<lambda>du. Inr (edge_derivative ip vol q du)) tol max_iterations A B"
    using assms(1) fold edge_func_ok [OF assms(2,3)] by (simp add: edge_preserving_def)
  with props show ?thesis by blast
qed

lemma bracket_bound:
  assumes "\<bar>x\<bar> \<le> M" "\<forall>i<n. \<bar>ds i\<bar> \<le> M" "A = x \<or> (\<exists>i<n. A = ds i)"
  shows "\<bar>A\<bar> \<le> M"
  using assms by auto

lemma bisect_fuel:
  assumes "A \<le> B" "\<bar>A\<bar> \<le> 2 ^ 26" "\<bar>B\<bar> \<le> 2 ^ 26"
  shows "\<exists>c. bisect (\<lambda>x. Inr (g x)) tol max_iterations A B = Inr c"
proof -
  have "B - A \<le> 2 ^ 27" using assms(2,3) by (simp add: abs_le_iff)
  then have "B - A < 2 * tol * 2 ^ (max_iterations - 1)" using fuel_enough by linarith
  moreover have "max_iterations = Suc (max_iterations - 1)" by (simp add: max_iterations_def)
  ultimately show ?thesis using bisect_returns [OF assms(1)] by metis
qed

text \<open>
  C25: \<^verbatim>\<open>func\<close>, the derivative of the edge-preserving surrogate, is strictly
  increasing in the update \<open>du\<close> when \<open>alpha > 0\<close>, \<open>lambda \<ge> 0\<close> and
  \<open>delta \<noteq> 0\<close>: each neighbour term \<open>w (1 - 1/(1 + |t/delta|))\<close> with the sign of
  \<open>t\<close> is \<open>w t/(|delta| + |t|)\<close>, non-decreasing in \<open>t\<close>. So the root the bisection
  looks for is unique.
\<close>

theorem func_strict_mono:
  assumes "penalty_params_ok ip" "voxel_reads_ok ip vol q"
    and "0 < alpha ip" "0 \<le> lambda ip" "delta ip \<noteq> 0" "x < y"
  shows "\<exists>fx fy. edge_func ip vol q x = Inr fx \<and> edge_func ip vol q y = Inr fy \<and> fx < fy"
proof -
  have "\<forall>i<num_neighbors ip. 0 \<le> weights ip ! i"
    using params_weights_pos [OF assms(1)] by (simp add: less_imp_le)
  then have "edge_derivative ip vol q x < edge_derivative ip vol q y"
    using assms(3-6) by (intro func_value_strict_mono) simp_all
  then show ?thesis using edge_func_ok [OF assms(1,2)] by simp
qed

text \<open>
  C26: \<^verbatim>\<open>edge_preserving\<close> never falls off the end of its bisection loop (the missing
  \<^verbatim>\<open>return\<close> after line 111) when \<open>alpha \<noteq> 0\<close>, the reads are in range and
  \<open>beta/alpha\<close> and the neighbour differences are at most \<open>2^26\<close> in magnitude: the
  initial bracket is then narrower than \<open>2 tol 2^(max_iterations - 1)\<close>, and each step
  halves it. The bound is where the real-number model speaks for the doubles of the code:
  the bracket's ends are \<open>beta/alpha\<close> or neighbour differences, and below \<open>2^26\<close>
  adjacent doubles are less than \<open>2 tol\<close> apart, so while \<open>(b - a)/2 \<ge> tol\<close> the
  rounded midpoint lies strictly inside the bracket. Past about \<open>2^27\<close> the doubles'
  bracket can stop shrinking and the loop can run out.
\<close>

theorem edge_preserving_returns:
  assumes "alpha ip \<noteq> 0" "penalty_params_ok ip" "voxel_reads_ok ip vol q"
    and "\<bar>beta ip / alpha ip\<bar> \<le> 2 ^ 26" "\<forall>i<num_neighbors ip. \<bar>voxel_diff ip vol q i\<bar> \<le> 2 ^ 26"
  shows "\<exists>c. edge_preserving q ip vol = Inr c"
proof -
  obtain A B where E: "edge_preserving q ip vol = bisect (\<lambda>du. Inr (edge_derivative ip vol q du)) tol max_iterations A B"
    and ab: "A \<le> beta ip / alpha ip" "beta ip / alpha ip \<le> B"
    and A: "A = beta ip / alpha ip \<or> (\<exists>i<num_neighbors ip. A = voxel_diff ip vol q i)"
    and B: "B = beta ip / alpha ip \<or> (\<exists>i<num_neighbors ip. B = voxel_diff ip vol q i)"
    using edge_preserving_as_bisect [OF assms(1-3)] by blast
  have "\<bar>A\<bar> \<le> 2 ^ 26" "\<bar>B\<bar> \<le> 2 ^ 26"
    using bracket_bound [OF assms(4,5) A] bracket_bound [OF assms(4,5) B] by simp_all
  then show ?thesis using E bisect_fuel [of A B] ab by simp
qed

lemma bisect_close:
  assumes mono: "\<And>x y. x < y \<Longrightarrow> g x < g y" and eps: "0 < eps"
    and gB: "0 \<le> g B" and AB: "A \<le> B" and r: "A \<le> r" "r \<le> B" "g r = 0"
    and left: "A < B \<Longrightarrow> g A < 0" and c: "bisect (\<lambda>x. Inr (g x)) eps (Suc m) A B = Inr c"
  shows "\<bar>c - r\<bar> < eps"
proof (cases "A = B")
  case True
  then have "c = A" using c bisect_degenerate [OF eps, of g m B] by simp
  with True r eps show ?thesis by simp
next
  case False
  then have "g A < 0" using AB left by simp
  then show ?thesis using bisect_root [OF mono r(3) eps _ gB AB c] by blast
qed

lemma strict_mono_root:
  fixes g :: "real \<Rightarrow> real"
  assumes mono: "\<And>x y. x < y \<Longrightarrow> g x < g y" and r: "g r = (0::real)"
  shows "g r' = 0 \<longleftrightarrow> r' = r"
  using mono [of r r'] mono [of r' r] r by (cases r r' rule: linorder_cases) auto

lemma edge_derivative_root:
  assumes "0 < alpha ip" "0 \<le> lambda ip" "delta ip \<noteq> 0" "\<forall>i<num_neighbors ip. 0 \<le> weights ip ! i"
    and "edge_derivative ip vol q A \<le> 0" "0 \<le> edge_derivative ip vol q B" "A \<le> B"
  shows "\<exists>r. A \<le> r \<and> r \<le> B \<and> edge_derivative ip vol q r = 0"
proof -
  have "continuous_on {A..B} (edge_derivative ip vol q)"
    using assms(3) by (intro continuous_at_imp_continuous_on ballI func_value_isCont)
  then show ?thesis using IVT' [of "edge_derivative ip vol q" A 0 B] assms(5-7) by blast
qed

text \<open>
  C27: the edge-preserving update solves its equation. With \<open>alpha > 0\<close>,
  \<open>lambda > 0\<close>, \<open>delta \<noteq> 0\<close>, the initialised weights, in-range reads and data
  bounded by \<open>2^26\<close> (see C26), \<^verbatim>\<open>edge_preserving\<close> returns a value within \<open>tol\<close> of the
  unique root of \<^verbatim>\<open>func\<close>.
\<close>

theorem edge_preserving_converges:
  assumes ok: "penalty_params_ok ip" and a: "0 < alpha ip" and l: "0 < lambda ip" and d: "delta ip \<noteq> 0"
    and rd: "voxel_reads_ok ip vol q"
    and bd: "\<bar>beta ip / alpha ip\<bar> \<le> 2 ^ 26" "\<forall>i<num_neighbors ip. \<bar>voxel_diff ip vol q i\<bar> \<le> 2 ^ 26"
  shows "\<exists>c r. edge_preserving q ip vol = Inr c \<and> edge_func ip vol q r = Inr 0 \<and> \<bar>c - r\<bar> < tol
               \<and> (\<forall>r'. edge_func ip vol q r' = Inr 0 \<longrightarrow> r' = r)"
proof -
  let ?g = "edge_derivative ip vol q" and ?n = "num_neighbors ip" and ?x = "beta ip / alpha ip"
  have wp: "\<forall>i<?n. 0 < weights ip ! i" by (rule params_weights_pos [OF ok])
  then have wn: "\<forall>i<?n. 0 \<le> weights ip ! i" by (simp add: less_imp_le)
  have mono: "\<And>x y. x < y \<Longrightarrow> ?g x < ?g y"
    using a l d wn by (intro func_value_strict_mono) simp_all
  obtain A B where E: "edge_preserving q ip vol = bisect (\<lambda>du. Inr (?g du)) tol max_iterations A B"
    and ab: "A \<le> ?x" "?x \<le> B" and ds: "\<forall>i<?n. A \<le> voxel_diff ip vol q i \<and> voxel_diff ip vol q i \<le> B"
    and A: "A = ?x \<or> (\<exists>i<?n. A = voxel_diff ip vol q i)"
    and B: "B = ?x \<or> (\<exists>i<?n. B = voxel_diff ip vol q i)"
    using edge_preserving_as_bisect [OF _ ok rd] a by auto
  have gA: "?g A \<le> 0" using a l d wn ab(1) ds by (intro func_value_at_lower) auto
  have gB: "0 \<le> ?g B" using a l d wn ab(2) ds by (intro func_value_at_upper) auto
  have AB: "A \<le> B" using ab by simp
  obtain c where c: "bisect (\<lambda>du. Inr (?g du)) tol max_iterations A B = Inr c"
    using bisect_fuel [where g = ?g, OF AB] bracket_bound [OF bd A] bracket_bound [OF bd B] by blast
  obtain r where r: "A \<le> r" "r \<le> B" "?g r = 0"
    using edge_derivative_root [OF a less_imp_le [OF l] d wn gA gB AB] by blast
  have tol: "0 < tol" by (simp add: tol_def)
  have m: "max_iterations = Suc (max_iterations - 1)" by (simp add: max_iterations_def)
  have "\<forall>i<?n. A \<le> voxel_diff ip vol q i" using ds by blast
  then have "A < B \<Longrightarrow> ?g A < 0" using func_value_below_upper [OF a l wp d ab(1)] B by blast
  then have close: "\<bar>c - r\<bar> < tol"
    using bisect_close [where g = ?g, OF mono tol gB AB r, of "max_iterations - 1" c] c m by metis
  have uniq: "r' = r" if "edge_func ip vol q r' = Inr 0" for r'
    using that edge_func_ok [OF ok rd] strict_mono_root [where g = ?g, OF mono r(3)] by simp
  have ep: "edge_preserving q ip vol = Inr c" using E c by (rule trans)
  have fr: "edge_func ip vol q r = Inr 0" using edge_func_ok [OF ok rd, of r] r(3) by (simp only:)
  show ?thesis using ep fr close uniq by blast
qed


text \<open>
  C29: with \<open>alpha = 0\<close> \<^verbatim>\<open>edge_preserving\<close> returns \<open>0\<close> before reading the image
  (line 79, marked TODO in the code), whereas \<^verbatim>\<open>quadratic\<close> returns its update
  \<open>(beta + lambda \<Sum> w\<^sub>i d\<^sub>i) / (lambda weights_scale)\<close> for the same parameters.
\<close>

theorem edge_preserving_alpha_zero:
  assumes "alpha ip = 0" "penalty_params_ok ip" "voxel_reads_ok ip vol q"
  shows "edge_preserving q ip vol = Inr 0
         \<and> quadratic q ip vol = Inr ((beta ip + lambda ip * (\<Sum>i<num_neighbors ip. weights ip ! i * voxel_diff ip vol q i))
                                    / (lambda ip * weights_scale ip))"
  using assms quadratic_ok [OF assms(3) params_len [OF assms(2)]] by (simp add: edge_preserving_def)

text \<open>
  C30: the branchy per-neighbour term of \<^verbatim>\<open>func\<close> (lines 119--122,
  \<open>\<plusminus>w (1 - 1/(1 + |t/delta|))\<close> by the sign of \<open>t\<close>) is the closed form
  \<open>w t / (|delta| + |t|)\<close>: for \<open>delta \<noteq> 0\<close> and in-range reads \<^verbatim>\<open>func\<close>
  equals \<open>2 alpha du - 2 beta + lambda \<Sum> w\<^sub>i t\<^sub>i / (|delta| + |t\<^sub>i|)\<close>
  with \<open>t\<^sub>i = du - d\<^sub>i\<close>.
\<close>

theorem func_closed_form:
  assumes "reads_ok vol nbrs q n" "n \<le> length wgts" "d \<noteq> 0"
  shows "func du a b d l vol wgts nbrs q n =
           Inr (2 * a * du - 2 * b + l * (\<Sum>i<n. wgts ! i * ((du - diff_at vol nbrs q i)
                                                    / (\<bar>d\<bar> + \<bar>du - diff_at vol nbrs q i\<bar>))))"
  using func_ok [OF assms(1,2)] func_value_psi [OF assms(3)] by simp

text \<open>
  More iterations never change a result of the bisection: once \<open>bisect\<close> returns
  with \<open>n\<close> iterations left it returns the same value with \<open>n + 1\<close>, so the fuel bound
  only decides whether the loop returns, not what it returns.
\<close>

lemma bisect_fuel_mono:
  "bisect f eps n a b = Inr c \<Longrightarrow> bisect f eps (Suc n) a b = Inr c"
proof (induction n arbitrary: a b)
  case 0
  then show ?case by simp
next
  case (Suc n)
  obtain fc fa where fc: "f ((a + b) / 2) = Inr fc" and fa: "f a = Inr fa"
    using Suc.prems by (cases "f ((a + b) / 2)"; cases "f a") (simp_all add: Let_def)
  let ?c = "(a + b) / 2"
  have step: "bisect f eps (Suc m) a b =
      (if fc = 0 \<or> (b - a) / 2 < eps then Inr ?c
       else if sign fc = sign fa then bisect f eps m ?c b else bisect f eps m a ?c)" for m
    by (simp only: bisect.simps(2) Let_def fc fa err_bind_simps)
  show ?case
    using Suc.prems Suc.IH [of ?c b] Suc.IH [of a ?c] unfolding step by (auto simp del: bisect.simps split: if_splits)
qed

section \<open>Witnesses on the example image\<close>

lemma example_neighbors: "neighbor_indices 4 3 = [0, 1, 2, 3, 5, 6, 7, 8]"
  by (simp add: neighbor_indices_def size_t_idx_def)
lemma example_reads: "reads_ok example_image (neighbor_indices 4 3) 4 8"
  by (simp add: reads_ok_def example_neighbors example_image_def example_params_def size_t_idx_def
      numeral_eq_Suc less_Suc_eq all_conj_distrib)
lemma example_ok: "penalty_params_ok (example_params a l)"
  by (simp add: penalty_params_ok_def example_params_def)
lemma example_diffs:
  "i < 8 \<Longrightarrow> diff_at example_image (neighbor_indices 4 3) 4 i = (if i = 7 then 1 else 0)"
  by (auto simp: diff_at_def example_neighbors example_image_def example_params_def size_t_idx_def
      numeral_eq_Suc less_Suc_eq)
lemma example_fields:
  "num_neighbors (example_params a l) = 8"
  "alpha (example_params a l) = a"
  "lambda (example_params a l) = l"
  "beta (example_params a l) = 0"
  "delta (example_params a l) = 1"
  "Nx (example_params a l) = 3"
  by (simp_all add: example_params_def)

lemma q: "quadratic 4 (example_params 1 1) example_image = Inr (1/9)"
  by (simp add: quadratic_def example_params_def example_neighbors example_image_def upt_rec nth_err_def neighbor_diff_def vol_get_def size_t_idx_def)

lemmas example_facts = example_ok example_reads example_fields example_diffs

theorem edge_preserving_converges_witness:
  "\<exists>c r. edge_preserving 4 (example_params 1 1) example_image = Inr c
     \<and> edge_func (example_params 1 1) example_image 4 r = Inr 0 \<and> \<bar>c - r\<bar> < tol
     \<and> (\<forall>r'. edge_func (example_params 1 1) example_image 4 r' = Inr 0 \<longrightarrow> r' = r)"
proof -
  let ?ip = "example_params 1 1"
  have h: "penalty_params_ok ?ip" "0 < alpha ?ip" "0 < lambda ?ip" "delta ?ip \<noteq> 0"
    "voxel_reads_ok ?ip example_image 4" "\<bar>beta ?ip / alpha ?ip\<bar> \<le> 2 ^ 26"
    "\<forall>i<num_neighbors ?ip. \<bar>voxel_diff ?ip example_image 4 i\<bar> \<le> 2 ^ 26"
    by (simp_all add: example_facts)
  show ?thesis by (rule edge_preserving_converges [OF h])
qed

theorem neighbor_indices_interior_witness:
  "neighbor_indices 4 3 = map nat [0, 1, 2, 3, 5, 6, 7, 8] \<and> reads_ok example_image (neighbor_indices 4 3) 4 8"
proof -
  have h: "1 \<le> (3::int)" "3 + 1 \<le> (4::int)" "4 + 3 + 1 < int (length example_image)"
    "length example_image \<le> 2 ^ 64"
    by (simp_all add: example_image_def)
  from neighbor_indices_interior [OF h]
  have e: "neighbor_indices 4 3 = map nat [4 - 3 - 1, 4 - 3, 4 - 3 + 1, 4 - 1, 4 + 1, 4 + 3 - 1, 4 + 3, 4 + 3 + 1]"
    and r: "reads_ok example_image (neighbor_indices 4 3) 4 8" by blast+
  have "neighbor_indices 4 3 = map nat [0, 1, 2, 3, 5, 6, 7, 8]" using e by simp
  with r show ?thesis by blast
qed

theorem quadratic_first_row_error_witness:
  "quadratic 1 (example_params 1 1) example_image = Inl (VolumeIndexOutOfRange 18446744073709551613)"
  using quadratic_first_row_error [of 1 3 example_image "example_params 1 1"]
  by (simp add: example_image_def example_params_def)

theorem quadratic_minimizes_witness:
  "quadratic 4 (example_params 1 1) example_image = Inr (1 / 9)
   \<and> (\<forall>v. quad_objective 1 0 1 [1, 1, 1, 1, 1, 1, 1, 1] (diff_at example_image (neighbor_indices 4 3) 4) 8 (1 / 9)
          \<le> quad_objective 1 0 1 [1, 1, 1, 1, 1, 1, 1, 1] (diff_at example_image (neighbor_indices 4 3) 4) 8 v)"
proof -
  have h: "penalty_params_ok (example_params 1 1)" "voxel_reads_ok (example_params 1 1) example_image 4"
    "0 < alpha (example_params 1 1) + lambda (example_params 1 1) * weights_scale (example_params 1 1)"
    by (simp_all add: example_facts) (simp add: example_params_def)
  have q: "quadratic 4 (example_params 1 1) example_image = Inr (1 / 9)"
    by (simp add: quadratic_def example_params_def example_neighbors example_image_def upt_rec
        nth_err_def neighbor_diff_def vol_get_def size_t_idx_def)
  obtain u where u: "quadratic 4 (example_params 1 1) example_image = Inr u"
    and m: "\<forall>v. quad_objective 1 0 1 [1, 1, 1, 1, 1, 1, 1, 1] (diff_at example_image (neighbor_indices 4 3) 4) 8 u
          \<le> quad_objective 1 0 1 [1, 1, 1, 1, 1, 1, 1, 1] (diff_at example_image (neighbor_indices 4 3) 4) 8 v"
    using quadratic_minimizes [OF h] by (auto simp: example_params_def)
  have "u = 1 / 9" using u q by simp
  with q m show ?thesis by blast
qed

theorem func_strict_mono_witness:
  "\<exists>fx fy. edge_func (example_params 1 1) example_image 4 0 = Inr fx
     \<and> edge_func (example_params 1 1) example_image 4 1 = Inr fy \<and> fx < fy"
proof -
  have h: "penalty_params_ok (example_params 1 1)" "voxel_reads_ok (example_params 1 1) example_image 4"
    "0 < alpha (example_params 1 1)" "0 \<le> lambda (example_params 1 1)" "delta (example_params 1 1) \<noteq> 0"
    "(0::real) < 1"
    by (simp_all add: example_facts)
  show ?thesis by (rule func_strict_mono [OF h])
qed

theorem edge_preserving_returns_witness:
  "\<exists>c. edge_preserving 4 (example_params 1 1) example_image = Inr c"
proof -
  have h: "alpha (example_params 1 1) \<noteq> 0" "penalty_params_ok (example_params 1 1)"
    "voxel_reads_ok (example_params 1 1) example_image 4"
    "\<bar>beta (example_params 1 1) / alpha (example_params 1 1)\<bar> \<le> 2 ^ 26"
    "\<forall>i<num_neighbors (example_params 1 1). \<bar>voxel_diff (example_params 1 1) example_image 4 i\<bar> \<le> 2 ^ 26"
    by (simp_all add: example_facts)
  show ?thesis by (rule edge_preserving_returns [OF h])
qed

theorem edge_preserving_alpha_zero_witness:
  "edge_preserving 4 (example_params 0 1) example_image = Inr 0
   \<and> quadratic 4 (example_params 0 1) example_image = Inr (1 / 8)"
proof -
  have h: "alpha (example_params 0 1) = 0" "penalty_params_ok (example_params 0 1)"
    "voxel_reads_ok (example_params 0 1) example_image 4"
    by (simp_all add: example_facts)
  have "(\<Sum>i<8. [1, 1, 1, 1, 1, 1, 1, 1::real] ! i * diff_at example_image (neighbor_indices 4 3) 4 i) = 1"
    by (simp add: example_diffs numeral_eq_Suc lessThan_Suc)
  then show ?thesis using edge_preserving_alpha_zero [OF h] by (simp add: example_params_def)
qed
theorem func_closed_form_witness:
  "func 0 1 0 1 1 example_image [1, 1, 1, 1, 1, 1, 1, 1] (neighbor_indices 4 3) 4 8 = Inr (- 1 / 2)"
proof -
  have "func 0 1 0 1 1 example_image [1, 1, 1, 1, 1, 1, 1, 1] (neighbor_indices 4 3) 4 8 =
      Inr (2 * 1 * 0 - 2 * 0 + 1 * (\<Sum>i<8. [1, 1, 1, 1, 1, 1, 1, 1::real] ! i
             * ((0 - diff_at example_image (neighbor_indices 4 3) 4 i)
                / (\<bar>1\<bar> + \<bar>0 - diff_at example_image (neighbor_indices 4 3) 4 i\<bar>))))"
    by (rule func_closed_form) (simp_all add: example_reads)
  also have "\<dots> = Inr (- 1 / 2)" by (simp add: example_diffs numeral_eq_Suc lessThan_Suc)
  finally show ?thesis .
qed


end
