(* ===== verification/Spec2Isabelle.thy ===== *)
theory Spec2Isabelle
  imports Serializer Machine Penalties
begin

text \<open>
  \<^bold>\<open>A verification development for the flying-focal-spot system-matrix generator of
  CTBB_ICD.\<close>

  \<^bold>\<open>The program.\<close> \<^verbatim>\<open>src/src/generate_system_matrix_ffs.cpp\<close> builds the sparse
  forward-projection matrix of a fan/cone-beam CT scanner whose X-ray focal spot is
  deflected from view to view (flying focal spot, FFS). \<^verbatim>\<open>generate_system_matrix_ffs\<close>
  loops over views, channels and rows; for each view it builds the rotating frame and the
  deflected source (\<^verbatim>\<open>generate_ffs_offset\<close>), for each ray the direction cosine and the
  ray index \<open>q\<close>, then projects the ray onto the voxel grid with a dominant-axis sweep and
  appends bilinear weights to one \<^verbatim>\<open>ublas::compressed_vector<float>\<close> per voxel; at the
  end it writes every column to \<^verbatim>\<open>matrix.bin\<close> and releases it.
  \<^verbatim>\<open>src/src/penalties.cpp\<close> holds the regularisation penalties of the downstream
  iterative reconstruction: the eight in-plane neighbour weights, the closed-form
  quadratic-penalty update and the edge-preserving update, found by bisection on the
  derivative \<^verbatim>\<open>func\<close>. It does not interact with the generator.

  \<^bold>\<open>The theories.\<close>
  \<^item> \<open>Prelude\<close>: three-vectors (\<^verbatim>\<open>ublas::vector<double>(3)\<close>) and their arithmetic
    (collection \<open>vec_simps\<close>), little-endian byte runs \<open>le_bytes\<close>/\<open>le_value\<close>, the
    error-propagating loop \<open>fold_err\<close> with its loop rule \<open>fold_err_upt_inv\<close>, and
    shared lemmas on words, sorted lists and arithmetic.
  \<^item> \<open>Geometry\<close> (GeometryFrame, FocalSpotOffsetGenerator, RayBuilder): the record
    \<open>recon_params\<close> of the configuration fields read (the struct lives in a header that
    is not part of the sources), \<open>ffs_dr\<close>/\<open>ffs_da\<close> (lines 32--33),
    \<open>generate_ffs_offset\<close> (lines 217--279) with \<^verbatim>\<open>exit(1)\<close> as the error
    \<open>ConfigurationError\<close>, the view frame \<open>tube_angle\<close>, \<open>e_w\<close>, \<open>e_u\<close>, \<open>e_z\<close>,
    \<open>source_position\<close>, \<open>ffs_rotate\<close> and \<open>view_setup\<close> (lines 58--89), the ray
    \<open>direction_cosine\<close>, \<open>build_ray\<close> (lines 91--111) and the 32-bit ray index
    \<open>ray_index\<close> (line 113). It also holds the spec's end-to-end scenario
    \<open>scenario_params\<close> (2 \<open>\<times>\<close> 2 voxels, 1 channel, 1 row, 4 views, Phi-only FFS),
    the concrete input of the witnesses.
  \<^item> \<open>Projector\<close> (VoxelProjector): \<open>x_sweep_step\<close>, \<open>y_sweep_step\<close> with their
    fractional indices, and \<open>project_ray\<close> (lines 115--180), returning the ray's
    \<^verbatim>\<open>push_back\<close> calls as (column, weight) pairs in order; \<open>tent_pushes\<close> is the
    abstract footprint they implement.
  \<^item> \<open>Accumulator\<close> (SparseMatrixAccumulator and the loops): \<open>column\<close>, uBLAS's
    \<open>push_back\<close> with its ordering check, \<open>matrix_push\<close>, \<open>init_matrix\<close>
    (lines 43--46), \<open>process_ray\<close>, \<open>process_view\<close> and \<open>generate_system_matrix\<close>
    (lines 58--183); the invariant \<open>matrix_inv\<close>.
  \<^item> \<open>Serializer\<close> (MatrixSerializer): \<open>encode_pair\<close>, \<open>encode_column\<close>,
    \<open>release_column\<close>, \<open>save_matrix\<close> (lines 188--211) and the spec's reader
    \<open>decode_matrix\<close>.
  \<^item> \<open>Penalties\<close> (Penalties, imports only \<open>Prelude\<close>): the record
    \<open>iterative_params\<close>, \<open>sign\<close>, \<open>initialize_2d_weights\<close> (lines 8--38),
    \<open>neighbor_indices\<close> with the \<^verbatim>\<open>int\<close>-to-\<^verbatim>\<open>size_t\<close> wrap \<open>size_t_idx\<close>,
    \<open>quadratic\<close> (lines 40--62), \<open>bracket_step\<close>, \<open>bisect\<close> and
    \<open>edge_preserving\<close> (lines 65--112), \<open>func\<close> (lines 114--125). Reads of the image
    out of range and the missing \<^verbatim>\<open>return\<close> after the loop are errors of
    \<open>pen_error\<close>; the bisection's iteration count is its fuel. \<open>func_value\<close> and
    \<open>quad_objective\<close> are the mathematical values the code computes and minimises;
    \<open>example_params\<close>/\<open>example_image\<close> (a \<open>3 \<times> 3\<close> image) are the witnesses' input.
  \<^item> \<open>Generator\<close> (the abstract matrix): the loop nest's \<^verbatim>\<open>push_back\<close> calls as a
    stream of events \<open>(q, voxel, weight)\<close> in loop order (\<open>ray_events\<close>,
    \<open>view_events\<close>, \<open>all_events\<close>) and the matrix the spec describes, that stream
    sorted into one bucket per voxel (\<open>bucket\<close>, \<open>columns_of\<close>). Its lemmas show
    that the three nested folds are one fold of \<open>push_event\<close> over the stream
    (\<open>process_view_events\<close>, \<open>generate_all_events\<close>) and that pushing a stream
    appends each event to its own column (\<open>push_events_buckets\<close>,
    \<open>generate_buckets\<close>).
  \<^item> \<open>Machine\<close> (the loop nest as a state machine): states \<open>gen_state\<close>, a loop
    position \<open>(i, j, k)\<close> with the matrix or the error that stopped the run; the
    inductive step relation \<open>gen_step\<close>, one rule per ray, loop increment or view
    failure of lines 57--183, each guarded by the code's loop conditions; \<open>gen_reach\<close>,
    the states of a run. Lemmas: a loop of the fold is a sequence of steps
    (\<open>loop_steps\<close>), so the machine runs from the start to the fold's outcome
    (\<open>gen_runs_to_outcome\<close>); each step keeps the accumulator invariant at the
    position reached (\<open>gen_step_safe\<close>).
  \<^item> This theory: \<open>generate_system_matrix_ffs\<close>, the whole function (generation, then
    saving), and the properties that span the components.

  \<^bold>\<open>What is shown.\<close> The generator never trips uBLAS's ordering check nor indexes a
  column out of range, and leaves every column strictly increasing in the ray index, as
  long as an FFS mode is selected and the ray count fits a 32-bit \<^verbatim>\<open>int\<close> (C1); the
  indices stay inside the allocated column size when the views do not exceed
  \<^verbatim>\<open>Readings\<close> (C2); with no FFS mode the run stops with \<open>ConfigurationError\<close>
  before anything is written when there is a view, and writes empty columns when there is
  none (C3); the file reads back to the columns, and only with the right column count
  (C4, C18). Per component: the sweeps implement a
  bilinear footprint with a triangular axial kernel (C5), conserve weight (C6), reject
  out-of-grid indices (C7), produce weights in \<open>[0, voxel_size/|alpha|]\<close> (C8) and touch
  each voxel at most once per ray (C9); the FFS offsets follow the four-way cycle
  (C10) with both modes and alternate with the view's parity with one (C11), and fail only
  without a mode (C12); directions are unit
  vectors (C13) whose in-plane part never vanishes (C14); the ray index is exact below
  \<open>2^31\<close> (C15) and past it wraps to a negative \<^verbatim>\<open>int\<close>, a huge \<^verbatim>\<open>size_t\<close>
  column index and a negative index in the file (C31); the file written is exactly the
  encoding of the bucketed push stream and the columns left behind are released (C19); a
  column holding \<open>n\<close> entries takes \<open>8 + 8 n\<close> bytes (C20). Penalties: the initialised weights satisfy
  the parameter invariant (C21); interior voxels read only inside the image (C22), first-row
  voxels read past it (C23); the quadratic update minimises its surrogate (C24);
  \<^verbatim>\<open>func\<close> is strictly increasing (C25); the bisection returns within its
  \<open>10^6\<close> iterations for data bounded by \<open>2^26\<close> (C26), within \<open>tol\<close> of the unique
  root of \<^verbatim>\<open>func\<close> when \<open>lambda > 0\<close> (C27); \<^verbatim>\<open>func\<close>'s branch on the sign of
  \<open>t\<close> is the closed form \<open>w t/(|delta| + |t|)\<close> (C30). The generator against its abstract matrix: the matrix is
  exactly the stream of all footprint weights bucketed per voxel in loop order (C32), so
  every computed contribution is stored under its ray index (C33) and every stored entry
  is one (C34). The loop nest as a machine: with an FFS mode and at most \<open>2^31\<close> rays
  no state of a run fails and each satisfies the accumulator invariant for the rays
  processed so far, proved by rule induction (C35).

  \<^bold>\<open>Findings the proofs expose.\<close> The deflection is taken to world coordinates with
  the transposed frame, a rotation by \<open>-th\<close> instead of \<open>th\<close> (C16), so it is misplaced
  at every view with \<open>sin th \<noteq> 0\<close> (C17). \<open>generate_ffs_offset\<close> applies
  \<^verbatim>\<open>tan\<close> to the anode angle in degrees while \<open>ffs_dr\<close> converts it to radians.
  With no view (\<^verbatim>\<open>num_views_for_system_matrix = 0\<close>) a missing FFS mode goes unnoticed.
  Column indices are checked only against the views actually generated, not against
  \<^verbatim>\<open>Readings\<close>, which sizes the columns. Nothing checks the ray count against
  \<open>2^31\<close>: past it the \<^verbatim>\<open>int\<close> ray index overflows, the stored \<^verbatim>\<open>size_t\<close>
  index lies far beyond any column and the file holds negative indices (C31). With \<open>lambda = 0\<close> the bisection of
  \<^verbatim>\<open>edge_preserving\<close> starts at the root, takes \<^verbatim>\<open>sign(0) = 1\<close> as positive and
  converges to the other end of its bracket (C28); with \<open>alpha = 0\<close> it returns \<open>0\<close>
  where \<^verbatim>\<open>quadratic\<close> returns its update (C29).

  \<^bold>\<open>Modelling choices.\<close> Doubles are \<open>real\<close>: IEEE rounding is not modelled, and the
  \<^verbatim>\<open>(float)\<close> cast is a parameter \<open>fl\<close>, the float's byte encoding a parameter
  \<open>enc\<close>, so no theorem depends on rounding. C \<^verbatim>\<open>int\<close> arithmetic that can overflow
  (the ray index, the column size) is \<open>32 word\<close> arithmetic; conversions to
  \<^verbatim>\<open>size_t\<close> are \<open>scast\<close> to \<open>64 word\<close>. The conversion of \<open>floor\<close> to
  \<^verbatim>\<open>int\<close> is taken exact. The generator's loops have fixed bounds, so they are structural
  folds. The bisection of \<^verbatim>\<open>edge_preserving\<close> runs at most
  \<^verbatim>\<open>max_iterations = 10^6\<close> times, the fuel of \<open>bisect\<close>; each step halves the
  bracket, so a bracket of width \<open>2^27\<close> (data bounded by \<open>2^26\<close>) is below
  \<open>2 tol\<close> long before, and the missing \<^verbatim>\<open>return\<close> is unreachable (C26). The bound
  is chosen so that the real-number model also speaks for the code's doubles: the
  bracket's ends are \<open>beta/alpha\<close> or neighbour differences, and below \<open>2^26\<close>
  adjacent doubles are less than \<open>2 tol\<close> apart, so the rounded midpoint stays strictly
  inside the bracket while the loop runs. Above about \<open>2^27\<close> the doubles' bracket can
  stop shrinking, the loop runs out and reaches the missing \<^verbatim>\<open>return\<close>; the model does
  not cover that range.
  \<^verbatim>\<open>delta = 0\<close> divides by zero in C (giving infinities) but by the HOL convention
  \<open>x / 0 = 0\<close> here, so the penalty theorems assume \<open>delta \<noteq> 0\<close>. uBLAS's \<^verbatim>\<open>push_back\<close> is modelled from its contract (its ordering check
  aborts); a debug build's \<^verbatim>\<open>BOOST_UBLAS_CHECK\<close> is the failure the model reports.
  Only the ordering check is modelled: a check of the index against the column's size,
  if a debug build makes one, is not, and C2 states instead when the indices fit.
  The undersized \<^verbatim>\<open>ublas::vector\<close>s of lines 83 and 218 are modelled by their intended
  three components.

  \<^bold>\<open>Not modelled.\<close> The console messages (lines 28, 41, 49--54, 213 and the message
  before \<^verbatim>\<open>exit(1)\<close> at line 274, whose exit is the error \<open>ConfigurationError\<close>)
  and the progress spinner (\<^verbatim>\<open>spinner.h\<close>, not among the sources): they write to the
  terminal only and no result depends on them. The file system: opening
  \<^verbatim>\<open>output_dir + "/matrix.bin"\<close> and closing it (lines 188, 212) are not modelled, the
  model returns the bytes written instead. The configuration struct beyond the fields
  read (\<^verbatim>\<open>recon_structs.h\<close> is not among the sources). Memory exhaustion of the
  allocation. Everything else of the two source files is modelled.
\<close>

section \<open>The whole generator\<close>

text \<open>
  \<^verbatim>\<open>generate_system_matrix_ffs\<close> (lines 26--215): generate, then save; the result
  is the contents of \<^verbatim>\<open>matrix.bin\<close> and the matrix left behind.
\<close>

definition generate_system_matrix_ffs ::
  "(real \<Rightarrow> 'f) \<Rightarrow> ('f \<Rightarrow> 8 word list) \<Rightarrow> recon_params \<Rightarrow> gen_error + 8 word list \<times> 'f column list" where
  "generate_system_matrix_ffs fl enc rp =
     (case generate_system_matrix fl rp of
        Inl e \<Rightarrow> Inl e
      | Inr M \<Rightarrow> Inr (save_matrix enc M))"

text \<open>The number of rays.\<close>

definition ray_count :: "recon_params \<Rightarrow> nat" where
  "ray_count rp = Nrows_projection rp * n_channels rp * num_views_for_system_matrix rp"

section \<open>Properties\<close>

lemma generate_system_matrix_columns:
  assumes "Zffs rp \<noteq> 0 \<or> Phiffs rp \<noteq> 0" "ray_count rp \<le> 2 ^ 31"
  shows "\<exists>M. generate_system_matrix fl rp = Inr M
           \<and> length M = num_voxels_x rp * num_voxels_y rp
           \<and> (\<forall>c\<in>set M. sorted_wrt (<) (map fst (col_entries c))
                  \<and> (\<forall>p\<in>set (col_entries c). fst p < ray_count rp)
                  \<and> col_size c = column_capacity rp)"
proof -
  obtain M where "generate_system_matrix fl rp = Inr M" "matrix_inv rp M (ray_count rp)"
    using generate_system_matrix_inv [OF assms(1)] assms(2) by (auto simp: ray_count_def)
  then show ?thesis
    by (auto simp: matrix_inv_def columns_below_def)
qed

text \<open>The spec's scenario, run: every one of the four rays reaches all four voxels.\<close>

lemma scenario_generation:
  "generate_system_matrix fl scenario_params = Inr
     [\<lparr>col_size = 4, col_entries = [(0, fl (3/4)), (1, fl (1/4)), (2, fl (1/4)), (3, fl (3/4))]\<rparr>,
      \<lparr>col_size = 4, col_entries = [(0, fl (3/4)), (1, fl (3/4)), (2, fl (1/4)), (3, fl (1/4))]\<rparr>,
      \<lparr>col_size = 4, col_entries = [(0, fl (1/4)), (1, fl (1/4)), (2, fl (3/4)), (3, fl (3/4))]\<rparr>,
      \<lparr>col_size = 4, col_entries = [(0, fl (1/4)), (1, fl (3/4)), (2, fl (3/4)), (3, fl (1/4))]\<rparr>]"
  by (simp add: generate_system_matrix_def process_view_def scenario_view0 scenario_view1 scenario_view2
     scenario_view3 process_ray_def push_all_def build_ray_def direction_cosine_def transaxial_angle_def
     axial_position_def sweep_eval_defs ray_index_def size_t_of_int_def matrix_push_def push_back_def
     init_matrix_def column_capacity_def vec_simps upt_numerals replicate_four)

text \<open>
  C1: with a flying focal spot mode selected and at most \<open>2^31\<close> rays, the generator
  runs to the end without a failed \<^verbatim>\<open>push_back\<close> check or an out-of-range column, and
  leaves one column per voxel whose ray indices strictly increase and lie below the ray
  count: the ray-index monotonicity the accumulator relies on.
\<close>

theorem generator_succeeds:
  assumes "Zffs rp \<noteq> 0 \<or> Phiffs rp \<noteq> 0" "ray_count rp \<le> 2 ^ 31"
  shows "\<exists>M. generate_system_matrix fl rp = Inr M
           \<and> length M = num_voxels_x rp * num_voxels_y rp
           \<and> (\<forall>c\<in>set M. sorted_wrt (<) (map fst (col_entries c))
                  \<and> (\<forall>p\<in>set (col_entries c). fst p < ray_count rp))"
  using generate_system_matrix_columns [OF assms] by blast

theorem generator_succeeds_witness:
  "Zffs scenario_params = 0 \<and> Phiffs scenario_params = 1 \<and> ray_count scenario_params \<le> 2 ^ 31
   \<and> (\<exists>M. generate_system_matrix (\<lambda>x. x) scenario_params = Inr M \<and> length M = 4
         \<and> (\<forall>c\<in>set M. sorted_wrt (<) (map fst (col_entries c))
                \<and> (\<forall>p\<in>set (col_entries c). fst p < 4)))"
proof -
  have h: "Zffs scenario_params \<noteq> 0 \<or> Phiffs scenario_params \<noteq> 0" "ray_count scenario_params \<le> 2 ^ 31"
    by (simp_all add: scenario_params_def ray_count_def)
  have r: "ray_count scenario_params = 4" by (simp add: scenario_fields ray_count_def)
  have z: "Zffs scenario_params = 0 \<and> Phiffs scenario_params = 1"
    by (simp add: scenario_params_def)
  show ?thesis
    using z h generator_succeeds [OF h, of "\<lambda>x. x"] by (simp add: r scenario_fields)
qed

text \<open>
  C2: when the views do not exceed \<^verbatim>\<open>Readings\<close> (which sizes the columns) and
  \<^verbatim>\<open>Readings*n_channels*Nrows_projection\<close> fits an \<^verbatim>\<open>int\<close>, every stored index lies
  inside the column's allocated size.
\<close>

theorem generator_within_capacity:
  assumes "Zffs rp \<noteq> 0 \<or> Phiffs rp \<noteq> 0"
    and "num_views_for_system_matrix rp \<le> Readings rp"
    and "Readings rp * n_channels rp * Nrows_projection rp < 2 ^ 31"
  shows "\<exists>M. generate_system_matrix fl rp = Inr M
           \<and> (\<forall>c\<in>set M. col_size c = Readings rp * n_channels rp * Nrows_projection rp
                  \<and> (\<forall>p\<in>set (col_entries c). fst p < col_size c))"
proof -
  have le: "ray_count rp \<le> Readings rp * n_channels rp * Nrows_projection rp"
    using assms(2) by (simp add: ray_count_def mult.commute mult.left_commute)
  then have "ray_count rp \<le> 2 ^ 31" using assms(3) by linarith
  from generate_system_matrix_columns [OF assms(1) this] obtain M where
    M: "generate_system_matrix fl rp = Inr M"
      "\<forall>c\<in>set M. (\<forall>p\<in>set (col_entries c). fst p < ray_count rp) \<and> col_size c = column_capacity rp"
    by blast
  have "column_capacity rp = Readings rp * n_channels rp * Nrows_projection rp"
    using assms(3) by (rule column_capacity_eq)
  with M le show ?thesis by fastforce
qed

theorem generator_within_capacity_witness:
  "Zffs scenario_params = 0 \<and> Phiffs scenario_params = 1
   \<and> num_views_for_system_matrix scenario_params \<le> Readings scenario_params
   \<and> Readings scenario_params * n_channels scenario_params * Nrows_projection scenario_params < 2 ^ 31
   \<and> (\<exists>M. generate_system_matrix (\<lambda>x. x) scenario_params = Inr M
        \<and> (\<forall>c\<in>set M. col_size c = 4 \<and> (\<forall>p\<in>set (col_entries c). fst p < col_size c)))"
proof -
  have h: "Zffs scenario_params \<noteq> 0 \<or> Phiffs scenario_params \<noteq> 0"
    "num_views_for_system_matrix scenario_params \<le> Readings scenario_params"
    "Readings scenario_params * n_channels scenario_params * Nrows_projection scenario_params < 2 ^ 31"
    by (simp_all add: scenario_params_def)
  have z: "Zffs scenario_params = 0 \<and> Phiffs scenario_params = 1"
    by (simp add: scenario_params_def)
  show ?thesis
    using z h generator_within_capacity [OF h, of "\<lambda>x. x"] by (simp add: scenario_fields)
qed

text \<open>
  C3: with neither flying focal spot mode selected, a run with at least one view stops at
  the first view with \<open>ConfigurationError\<close>, before any matrix entry or byte of the
  output file is produced; a run with no view never reaches the check and writes one
  empty record (a zero count) per voxel, leaving the allocated columns empty.
\<close>

theorem generator_configuration_error:
  assumes "Zffs rp = 0" "Phiffs rp = 0"
  shows "generate_system_matrix_ffs fl enc rp =
           (if num_views_for_system_matrix rp = 0
            then Inr (concat (replicate (num_voxels_x rp * num_voxels_y rp) (le_bytes 8 0)),
                      replicate (num_voxels_x rp * num_voxels_y rp)
                        \<lparr>col_size = column_capacity rp, col_entries = []\<rparr>)
            else Inl ConfigurationError)"
proof (cases "num_views_for_system_matrix rp = 0")
  case True
  then have "generate_system_matrix fl rp = Inr (init_matrix rp)"
    by (simp add: generate_system_matrix_def)
  then show ?thesis
    using True by (simp add: generate_system_matrix_ffs_def save_matrix_eq init_matrix_def
        encode_column_def release_column_def map_replicate)
next
  case False
  have v: "view_setup rp 0 = Inl ConfigurationError"
    using assms(1,2) by (simp add: view_setup_def generate_ffs_offset_def)
  have "[0..<num_views_for_system_matrix rp] = 0 # [1..<num_views_for_system_matrix rp]"
    using False by (simp add: upt_conv_Cons)
  then have "generate_system_matrix fl rp = Inl ConfigurationError"
    using v by (simp add: generate_system_matrix_def process_view_def)
  then show ?thesis using False by (simp add: generate_system_matrix_ffs_def)
qed

theorem generator_configuration_error_witness:
  "Zffs (scenario_params\<lparr>Phiffs := 0\<rparr>) = 0 \<and> Phiffs (scenario_params\<lparr>Phiffs := 0\<rparr>) = 0
   \<and> generate_system_matrix_ffs (\<lambda>x. x) (\<lambda>x. []) (scenario_params\<lparr>Phiffs := 0\<rparr>) = Inl ConfigurationError
   \<and> generate_system_matrix_ffs (\<lambda>x. x) (\<lambda>x. []) (scenario_params\<lparr>Phiffs := 0, num_views_for_system_matrix := 0\<rparr>)
       = Inr (concat (replicate 4 (le_bytes 8 0)),
              replicate 4 \<lparr>col_size = column_capacity scenario_params, col_entries = []\<rparr>)"
proof -
  have h: "Zffs (scenario_params\<lparr>Phiffs := 0\<rparr>) = 0" "Phiffs (scenario_params\<lparr>Phiffs := 0\<rparr>) = 0"
    by (simp_all add: scenario_params_def)
  have h0: "Zffs (scenario_params\<lparr>Phiffs := 0, num_views_for_system_matrix := 0\<rparr>) = 0"
    "Phiffs (scenario_params\<lparr>Phiffs := 0, num_views_for_system_matrix := 0\<rparr>) = 0"
    by (simp_all add: scenario_params_def)
  have c: "column_capacity (scenario_params\<lparr>Phiffs := 0, num_views_for_system_matrix := 0\<rparr>)
           = column_capacity scenario_params"
    by (simp add: column_capacity_def)
  show ?thesis
    using h generator_configuration_error [OF h, of "\<lambda>x. x" "\<lambda>x. []"]
      generator_configuration_error [OF h0, of "\<lambda>x. x" "\<lambda>x. []"]
    by (simp add: scenario_fields c)
qed

text \<open>
  C4: end to end, \<^verbatim>\<open>matrix.bin\<close> is readable: read back with the number of voxels,
  it yields one record per voxel whose ray indices strictly increase and lie in
  \<open>[0, ray count)\<close>, the ordering the spec promises to the consumer.
\<close>

theorem generator_file_roundtrip:
  assumes "Zffs rp \<noteq> 0 \<or> Phiffs rp \<noteq> 0" "ray_count rp \<le> 2 ^ 31"
    and "\<And>v. dec (enc v) = Some v" "\<And>v. length (enc v) = 4"
  shows "\<exists>bytes M' cols. generate_system_matrix_ffs fl enc rp = Inr (bytes, M')
           \<and> decode_matrix dec (num_voxels_x rp * num_voxels_y rp) bytes = Some cols
           \<and> length cols = num_voxels_x rp * num_voxels_y rp
           \<and> (\<forall>es\<in>set cols. sorted_wrt (<) (map fst es)
                  \<and> (\<forall>p\<in>set es. 0 \<le> fst p \<and> fst p < int (ray_count rp)))"
proof -
  obtain M where M: "generate_system_matrix fl rp = Inr M"
      "length M = num_voxels_x rp * num_voxels_y rp"
      "\<forall>c\<in>set M. sorted_wrt (<) (map fst (col_entries c))
                  \<and> (\<forall>p\<in>set (col_entries c). fst p < ray_count rp)"
    using generate_system_matrix_columns [OF assms(1,2), of fl] by blast
  have small: "\<forall>c\<in>set M. (\<forall>p\<in>set (col_entries c). fst p < 2 ^ 31) \<and> length (col_entries c) < 2 ^ 64"
  proof
    fix c assume c: "c \<in> set M"
    then have "length (map fst (col_entries c)) \<le> ray_count rp"
      using M(3) by (intro sorted_less_length_bound) auto
    then show "(\<forall>p\<in>set (col_entries c). fst p < 2 ^ 31) \<and> length (col_entries c) < 2 ^ 64"
      using c M(3) assms(2) by fastforce
  qed
  let ?cols = "map (\<lambda>c. map (\<lambda>p. (int (fst p), snd p)) (col_entries c)) M"
  have dec: "decode_matrix dec (length M) (fst (save_matrix enc M)) = Some ?cols"
    using assms(3,4) small by (rule save_matrix_decodes)
  have cols: "sorted_wrt (<) (map fst es) \<and> (\<forall>p\<in>set es. 0 \<le> fst p \<and> fst p < int (ray_count rp))"
    if "es \<in> set ?cols" for es
  proof -
    from that obtain c where c: "c \<in> set M" and es: "es = map (\<lambda>p. (int (fst p), snd p)) (col_entries c)"
      by auto
    have "map fst es = map int (map fst (col_entries c))" using es by simp
    moreover have "sorted_wrt (<) (map fst (col_entries c))" using c M(3) by blast
    ultimately have "sorted_wrt (<) (map fst es)"
      by (simp add: sorted_wrt_map)
    moreover have "\<forall>p\<in>set es. 0 \<le> fst p \<and> fst p < int (ray_count rp)"
      using c M(3) es by auto
    ultimately show ?thesis by blast
  qed
  have run: "generate_system_matrix_ffs fl enc rp = Inr (fst (save_matrix enc M), snd (save_matrix enc M))"
    using M(1) by (simp add: generate_system_matrix_ffs_def)
  show ?thesis
  proof (intro exI conjI)
    show "generate_system_matrix_ffs fl enc rp = Inr (fst (save_matrix enc M), snd (save_matrix enc M))"
      by (rule run)
    show "decode_matrix dec (num_voxels_x rp * num_voxels_y rp) (fst (save_matrix enc M)) = Some ?cols"
      using dec M(2) by simp
    show "length ?cols = num_voxels_x rp * num_voxels_y rp" using M(2) by simp
    show "\<forall>es\<in>set ?cols. sorted_wrt (<) (map fst es) \<and> (\<forall>p\<in>set es. 0 \<le> fst p \<and> fst p < int (ray_count rp))"
      using cols by blast
  qed
qed

theorem generator_file_roundtrip_witness:
  "Zffs scenario_params = 0 \<and> Phiffs scenario_params = 1 \<and> ray_count scenario_params \<le> 2 ^ 31
   \<and> (\<forall>v. bytes_float (float_bytes v) = Some v \<and> length (float_bytes v) = 4)
   \<and> (\<exists>bytes M' cols. generate_system_matrix_ffs (\<lambda>x. 0) float_bytes scenario_params = Inr (bytes, M')
         \<and> decode_matrix bytes_float 4 bytes = Some cols \<and> length cols = 4
         \<and> (\<forall>es\<in>set cols. sorted_wrt (<) (map fst es) \<and> (\<forall>p\<in>set es. 0 \<le> fst p \<and> fst p < 4)))"
proof -
  have h: "Zffs scenario_params \<noteq> 0 \<or> Phiffs scenario_params \<noteq> 0" "ray_count scenario_params \<le> 2 ^ 31"
    by (simp_all add: scenario_params_def ray_count_def)
  have r: "ray_count scenario_params = 4" by (simp add: scenario_fields ray_count_def)
  have z: "Zffs scenario_params = 0 \<and> Phiffs scenario_params = 1"
    by (simp add: scenario_params_def)
  show ?thesis
    using z h float_bytes_roundtrip
      generator_file_roundtrip [OF h float_bytes_roundtrip, of "\<lambda>x. 0"]
    by (simp add: r scenario_fields)
qed

text \<open>
  C32: with a flying focal spot mode selected and at most \<open>2^31\<close> rays, the matrix the
  generator builds is the abstract one: column \<open>c\<close> holds, in loop order, exactly the
  pushes \<open>(q, c, w)\<close> of the stream of all rays' footprints that name voxel \<open>c\<close>,
  each weight converted by \<open>fl\<close>, and every column keeps its allocated size.
\<close>

theorem generator_refines_buckets:
  assumes "Zffs rp \<noteq> 0 \<or> Phiffs rp \<noteq> 0" "ray_count rp \<le> 2 ^ 31"
  shows "\<exists>M. generate_system_matrix fl rp = Inr M
           \<and> map col_entries M = columns_of fl (num_voxels_x rp * num_voxels_y rp) (all_events rp)
           \<and> list_all (\<lambda>c. col_size c = column_capacity rp) M"
proof -
  obtain M where "generate_system_matrix fl rp = Inr M"
    using generate_system_matrix_columns [OF assms, of fl] by blast
  then show ?thesis using generate_buckets by metis
qed

theorem generator_refines_buckets_witness:
  "Zffs scenario_params = 0 \<and> Phiffs scenario_params = 1 \<and> ray_count scenario_params \<le> 2 ^ 31
   \<and> (\<exists>M. generate_system_matrix (\<lambda>x. x) scenario_params = Inr M
         \<and> map col_entries M = columns_of (\<lambda>x. x) 4 (all_events scenario_params)
         \<and> list_all (\<lambda>c. col_size c = column_capacity scenario_params) M)"
proof -
  have h: "Zffs scenario_params \<noteq> 0 \<or> Phiffs scenario_params \<noteq> 0" "ray_count scenario_params \<le> 2 ^ 31"
    by (simp_all add: scenario_params_def ray_count_def)
  have z: "Zffs scenario_params = 0 \<and> Phiffs scenario_params = 1"
    by (simp add: scenario_params_def)
  show ?thesis
    using z h generator_refines_buckets [OF h, of "\<lambda>x. x"] by (simp add: scenario_fields)
qed

text \<open>
  C33: with a flying focal spot mode selected and at most \<open>2^31\<close> rays, no contribution
  is lost: whenever ray \<open>(i, j, k)\<close> of a view that was set up crosses voxel \<open>c\<close>
  with weight \<open>w\<close>, the column of \<open>c\<close> holds the entry (ray index
  \<^verbatim>\<open>Nrows_projection*n_channels*i + Nrows_projection*j + k\<close>, \<open>fl w\<close>).
\<close>

theorem generator_records_every_contribution:
  assumes "Zffs rp \<noteq> 0 \<or> Phiffs rp \<noteq> 0" "ray_count rp \<le> 2 ^ 31"
  shows "\<exists>M. generate_system_matrix fl rp = Inr M
           \<and> (\<forall>i<num_views_for_system_matrix rp. \<forall>j<n_channels rp. \<forall>k<Nrows_projection rp. \<forall>v c w.
                view_setup rp i = Inr v \<longrightarrow> (c, w) \<in> set (project_ray rp (build_ray rp v j k)) \<longrightarrow>
                (Nrows_projection rp * n_channels rp * i + Nrows_projection rp * j + k, fl w)
                  \<in> set (col_entries (M ! nat c)))"
proof -
  obtain M where M: "generate_system_matrix fl rp = Inr M" "length M = num_voxels_x rp * num_voxels_y rp"
    using generate_system_matrix_columns [OF assms, of fl] by blast
  have "(Nrows_projection rp * n_channels rp * i + Nrows_projection rp * j + k, fl w)
          \<in> set (col_entries (M ! nat c))"
    if "i < num_views_for_system_matrix rp" "j < n_channels rp" "k < Nrows_projection rp"
      "view_setup rp i = Inr v" "(c, w) \<in> set (project_ray rp (build_ray rp v j k))" for i j k v c w
  proof -
    have c: "0 \<le> c" "nat c < length M"
      using project_ray_voxel_range [OF that(5)] M(2) by (simp_all add: nat_less_iff of_nat_mult)
    have "(size_t_of_int (ray_index rp i j k), int (nat c), w) \<in> set (all_events rp)"
      using that c(1) by (auto simp: all_events_mem)
    then show ?thesis
      using generate_entries_mem [OF M(1) c(2)] ray_size_t [OF that(3,2,1)] assms(2)
      by (auto simp: ray_count_def)
  qed
  then show ?thesis using M(1) by blast
qed

theorem generator_records_every_contribution_witness:
  "Zffs scenario_params = 0 \<and> Phiffs scenario_params = 1 \<and> ray_count scenario_params \<le> 2 ^ 31
   \<and> (\<exists>M. generate_system_matrix (\<lambda>x. x) scenario_params = Inr M \<and> (0, 3/4) \<in> set (col_entries (M ! 0)))"
proof -
  have h: "Zffs scenario_params \<noteq> 0 \<or> Phiffs scenario_params \<noteq> 0" "ray_count scenario_params \<le> 2 ^ 31"
    by (simp_all add: scenario_params_def ray_count_def)
  have z: "Zffs scenario_params = 0 \<and> Phiffs scenario_params = 1"
    by (simp add: scenario_params_def)
  obtain M where M: "generate_system_matrix (\<lambda>x. x) scenario_params = Inr M"
    "\<forall>i<num_views_for_system_matrix scenario_params. \<forall>j<n_channels scenario_params.
       \<forall>k<Nrows_projection scenario_params. \<forall>v c w.
         view_setup scenario_params i = Inr v \<longrightarrow>
         (c, w) \<in> set (project_ray scenario_params (build_ray scenario_params v j k)) \<longrightarrow>
         (Nrows_projection scenario_params * n_channels scenario_params * i
            + Nrows_projection scenario_params * j + k, w) \<in> set (col_entries (M ! nat c))"
    using generator_records_every_contribution [OF h, of "\<lambda>x. x"] by blast
  have "(Nrows_projection scenario_params * n_channels scenario_params * 0
          + Nrows_projection scenario_params * 0 + 0, 3/4) \<in> set (col_entries (M ! nat 0))"
    by (rule M(2) [rule_format, OF _ _ _ scenario_view0 scenario_ray0]) (simp_all add: scenario_fields)
  then show ?thesis using z h M(1) by auto
qed

text \<open>
  C34: with a flying focal spot mode selected and at most \<open>2^31\<close> rays, nothing else is
  stored: every entry \<open>(q, t)\<close> of column \<open>c\<close> is \<open>(q, fl w)\<close> for a ray
  \<open>(i, j, k)\<close> with index \<open>q\<close> of a view that was set up, whose footprint gives voxel
  \<open>c\<close> the weight \<open>w\<close>.
\<close>

theorem generator_entries_sound:
  assumes "Zffs rp \<noteq> 0 \<or> Phiffs rp \<noteq> 0" "ray_count rp \<le> 2 ^ 31"
  shows "\<exists>M. generate_system_matrix fl rp = Inr M
           \<and> (\<forall>c<length M. \<forall>q t. (q, t) \<in> set (col_entries (M ! c)) \<longrightarrow>
                (\<exists>i<num_views_for_system_matrix rp. \<exists>j<n_channels rp. \<exists>k<Nrows_projection rp. \<exists>v w.
                   view_setup rp i = Inr v \<and> (int c, w) \<in> set (project_ray rp (build_ray rp v j k))
                   \<and> q = Nrows_projection rp * n_channels rp * i + Nrows_projection rp * j + k \<and> t = fl w))"
proof -
  obtain M where M: "generate_system_matrix fl rp = Inr M"
    using generate_system_matrix_columns [OF assms, of fl] by blast
  have "\<exists>i<num_views_for_system_matrix rp. \<exists>j<n_channels rp. \<exists>k<Nrows_projection rp. \<exists>v w.
          view_setup rp i = Inr v \<and> (int c, w) \<in> set (project_ray rp (build_ray rp v j k))
          \<and> q = Nrows_projection rp * n_channels rp * i + Nrows_projection rp * j + k \<and> t = fl w"
    if c: "c < length M" and qt: "(q, t) \<in> set (col_entries (M ! c))" for c q t
  proof -
    obtain w where w: "(q, int c, w) \<in> set (all_events rp)" "t = fl w"
      using qt generate_entries_mem [OF M c] by blast
    then obtain i v j k where e: "i < num_views_for_system_matrix rp" "view_setup rp i = Inr v"
        "j < n_channels rp" "k < Nrows_projection rp" "q = size_t_of_int (ray_index rp i j k)"
        "(int c, w) \<in> set (project_ray rp (build_ray rp v j k))"
      unfolding all_events_mem by blast
    then show ?thesis
      using w(2) ray_size_t [OF e(4,3,1)] assms(2) e by (simp add: ray_count_def) blast
  qed
  then show ?thesis using M by blast
qed

theorem generator_entries_sound_witness:
  "Zffs scenario_params = 0 \<and> Phiffs scenario_params = 1 \<and> ray_count scenario_params \<le> 2 ^ 31
   \<and> (\<exists>i<4. \<exists>v w. view_setup scenario_params i = Inr v
         \<and> (0, w) \<in> set (project_ray scenario_params (build_ray scenario_params v 0 0))
         \<and> i = 3 \<and> w = 3/4)"
proof -
  have h: "Zffs scenario_params \<noteq> 0 \<or> Phiffs scenario_params \<noteq> 0" "ray_count scenario_params \<le> 2 ^ 31"
    by (simp_all add: scenario_params_def ray_count_def)
  have z: "Zffs scenario_params = 0 \<and> Phiffs scenario_params = 1"
    by (simp add: scenario_params_def)
  obtain M where M: "generate_system_matrix (\<lambda>x. x) scenario_params = Inr M"
    "\<forall>c<length M. \<forall>q t. (q, t) \<in> set (col_entries (M ! c)) \<longrightarrow>
       (\<exists>i<num_views_for_system_matrix scenario_params. \<exists>j<n_channels scenario_params.
          \<exists>k<Nrows_projection scenario_params. \<exists>v w.
            view_setup scenario_params i = Inr v
            \<and> (int c, w) \<in> set (project_ray scenario_params (build_ray scenario_params v j k))
            \<and> q = Nrows_projection scenario_params * n_channels scenario_params * i
                  + Nrows_projection scenario_params * j + k \<and> t = w)"
    using generator_entries_sound [OF h, of "\<lambda>x. x"] by blast
  have "(3, 3/4) \<in> set (col_entries (M ! 0))" "0 < length M"
    using M(1) by (auto simp: scenario_generation)
  then show ?thesis
    using z h M(2) by (fastforce simp: scenario_fields)
qed

text \<open>
  C31: past \<open>2^31\<close> rays the ray index overflows. When the mixed-radix number
  \<open>n = Nrows*channels*i + Nrows*j + k\<close> of a ray lies in \<open>[2^31, 2^32)\<close>, the
  \<^verbatim>\<open>int q\<close> of line 113 wraps to the negative \<open>n - 2^32\<close>, its conversion to
  uBLAS's \<^verbatim>\<open>size_t\<close> index is the huge \<open>2^64 - 2^32 + n\<close>, and the record the
  serializer writes for it holds the negative \<^verbatim>\<open>int\<close> index \<open>n - 2^32\<close>.
\<close>

theorem ray_index_overflow:
  assumes "2 ^ 31 \<le> Nrows_projection rp * n_channels rp * i + Nrows_projection rp * j + k"
    and "Nrows_projection rp * n_channels rp * i + Nrows_projection rp * j + k < 2 ^ 32"
  shows "sint (ray_index rp i j k)
           = int (Nrows_projection rp * n_channels rp * i + Nrows_projection rp * j + k) - 2 ^ 32
         \<and> size_t_of_int (ray_index rp i j k)
           = 2 ^ 64 - 2 ^ 32 + (Nrows_projection rp * n_channels rp * i + Nrows_projection rp * j + k)
         \<and> sint (word_of_nat (le_value (take 4 (encode_pair enc (size_t_of_int (ray_index rp i j k), v))))
                  :: 32 word)
           = int (Nrows_projection rp * n_channels rp * i + Nrows_projection rp * j + k) - 2 ^ 32"
proof -
  let ?n = "Nrows_projection rp * n_channels rp * i + Nrows_projection rp * j + k"
  have q: "ray_index rp i j k = word_of_int (int ?n)"
    by (simp add: ray_index_def algebra_simps)
  have b1: "(2::int) ^ 31 \<le> int ?n" using assms(1) by (metis of_nat_le_iff of_nat_numeral of_nat_power)
  have b2: "int ?n < (2::int) ^ 32" using assms(2) by (metis of_nat_less_iff of_nat_numeral of_nat_power)
  have s: "sint (ray_index rp i j k) = int ?n - 2 ^ 32"
    unfolding q by (rule sint_word_of_int_wrap [OF b1 b2])
  have z: "size_t_of_int (ray_index rp i j k) = 2 ^ 64 - 2 ^ 32 + ?n"
  proof -
    have neg: "sint (ray_index rp i j k) < 0" using s b2 by simp
    have g: "nat (2 ^ 64 + (int m - 2 ^ 32)) = 2 ^ 64 - 2 ^ 32 + m" for m :: nat
    proof -
      have "2 ^ 64 + (int m - 2 ^ 32) = int (2 ^ 64 - 2 ^ 32 + m)" by simp
      then show ?thesis by (simp only: nat_int)
    qed
    have "size_t_of_int (ray_index rp i j k) = nat (2 ^ 64 + sint (ray_index rp i j k))"
      unfolding size_t_of_int_def by (rule unat_scast_neg [OF neg])
    then show ?thesis by (simp only: s g)
  qed
  have w: "(word_of_nat (2 ^ 64 - 2 ^ 32 + ?n) :: 32 word) = word_of_nat ?n"
  proof -
    have "(2::nat) ^ 64 - 2 ^ 32 + ?n = ?n + 2 ^ 32 * (2 ^ 32 - 1)" by simp
    then show ?thesis by (simp only: of_nat_add of_nat_mult) simp
  qed
  have u: "unat (word_of_nat ?n :: 32 word) < 2 ^ (8 * 4)"
    using unsigned_less [of "word_of_nat ?n :: 32 word"] by simp
  have "take 4 (encode_pair enc (size_t_of_int (ray_index rp i j k), v))
          = le_bytes 4 (unat (word_of_nat (size_t_of_int (ray_index rp i j k)) :: 32 word))"
    by (simp add: encode_pair_def)
  also have "\<dots> = le_bytes 4 (unat (word_of_nat ?n :: 32 word))" by (simp only: z w)
  finally have t: "take 4 (encode_pair enc (size_t_of_int (ray_index rp i j k), v))
          = le_bytes 4 (unat (word_of_nat ?n :: 32 word))" .
  have "sint (word_of_nat (le_value (take 4 (encode_pair enc (size_t_of_int (ray_index rp i j k), v))))
                  :: 32 word) = sint (word_of_int (int ?n) :: 32 word)"
    using le_value_le_bytes_small [OF u] by (simp only: t) simp
  also have "\<dots> = int ?n - 2 ^ 32" by (rule sint_word_of_int_wrap [OF b1 b2])
  finally show ?thesis using s z by blast
qed

theorem ray_index_overflow_witness:
  "2 ^ 31 \<le> Nrows_projection (scenario_params\<lparr>Nrows_projection := 2 ^ 31\<rparr>)
              * n_channels (scenario_params\<lparr>Nrows_projection := 2 ^ 31\<rparr>) * 1
              + Nrows_projection (scenario_params\<lparr>Nrows_projection := 2 ^ 31\<rparr>) * 0 + 0
   \<and> sint (ray_index (scenario_params\<lparr>Nrows_projection := 2 ^ 31\<rparr>) 1 0 0) = - (2 ^ 31)
   \<and> size_t_of_int (ray_index (scenario_params\<lparr>Nrows_projection := 2 ^ 31\<rparr>) 1 0 0) = 2 ^ 64 - 2 ^ 31"
proof -
  have f: "Nrows_projection (scenario_params\<lparr>Nrows_projection := 2 ^ 31\<rparr>) = 2 ^ 31"
    "n_channels (scenario_params\<lparr>Nrows_projection := 2 ^ 31\<rparr>) = 1"
    by (simp_all add: scenario_fields)
  show ?thesis
    using ray_index_overflow [of "scenario_params\<lparr>Nrows_projection := 2 ^ 31\<rparr>" 1 0 0 float_bytes 0]
    unfolding f by simp
qed

text \<open>
  C19: end to end, with a flying focal spot mode selected and at most \<open>2^31\<close> rays,
  \<^verbatim>\<open>generate_system_matrix_ffs\<close> writes exactly the encoding of the abstract
  matrix: for each voxel in order, the count and the records of its bucket of the push
  stream; and it leaves one released column of the allocated size per voxel.
\<close>

theorem generator_output_refines:
  assumes "Zffs rp \<noteq> 0 \<or> Phiffs rp \<noteq> 0" "ray_count rp \<le> 2 ^ 31"
  shows "generate_system_matrix_ffs fl enc rp =
           Inr (concat (map (\<lambda>es. le_bytes 8 (length es) @ concat (map (encode_pair enc) es))
                        (columns_of fl (num_voxels_x rp * num_voxels_y rp) (all_events rp))),
                replicate (num_voxels_x rp * num_voxels_y rp)
                  \<lparr>col_size = column_capacity rp, col_entries = []\<rparr>)"
proof -
  obtain M where M: "generate_system_matrix fl rp = Inr M"
    using generate_system_matrix_columns [OF assms, of fl] by blast
  note b = generate_buckets [OF M]
  have bytes: "map (encode_column enc) M
      = map (\<lambda>es. le_bytes 8 (length es) @ concat (map (encode_pair enc) es)) (map col_entries M)"
    by (simp add: encode_column_eq)
  have "release_column c = \<lparr>col_size = column_capacity rp, col_entries = []\<rparr>" if "c \<in> set M" for c
    using b that by (simp add: release_column_def list_all_iff)
  then have "map release_column M = map (\<lambda>_. \<lparr>col_size = column_capacity rp, col_entries = []\<rparr>) M"
    by (rule map_cong [OF refl])
  then have rel: "map release_column M
      = replicate (length M) \<lparr>col_size = column_capacity rp, col_entries = []\<rparr>"
    by (simp add: map_replicate_const)
  show ?thesis
    using M b by (simp add: generate_system_matrix_ffs_def save_matrix_eq bytes rel)
qed

theorem generator_output_refines_witness:
  "Zffs scenario_params = 0 \<and> Phiffs scenario_params = 1 \<and> ray_count scenario_params \<le> 2 ^ 31
   \<and> generate_system_matrix_ffs (\<lambda>x. x) (\<lambda>x. [0, 0, 0, 0]) scenario_params =
       Inr (concat (map (\<lambda>es. le_bytes 8 (length es) @ concat (map (encode_pair (\<lambda>x. [0, 0, 0, 0])) es))
                    (columns_of (\<lambda>x. x) 4 (all_events scenario_params))),
            replicate 4 \<lparr>col_size = column_capacity scenario_params, col_entries = []\<rparr>)"
proof -
  have h: "Zffs scenario_params \<noteq> 0 \<or> Phiffs scenario_params \<noteq> 0" "ray_count scenario_params \<le> 2 ^ 31"
    by (simp_all add: scenario_params_def ray_count_def)
  have z: "Zffs scenario_params = 0 \<and> Phiffs scenario_params = 1"
    by (simp add: scenario_params_def)
  show ?thesis
    using z h generator_output_refines [OF h, of "\<lambda>x. x" "\<lambda>x. [0, 0, 0, 0]"]
    by (simp only: scenario_fields) simp
qed

end
